(* ===== verification/Prelude.thy ===== *)
theory Prelude
  imports
    Complex_Main
    "HOL-Library.Word"
    "HOL-Library.AList"
    "HOL-Library.Sublist"
    "HOL-Library.Char_ord"
    "HOL-Library.List_Lexorder"
begin

text \<open>
  What the components share: the model of the parts of Python and of its standard library
  that the sources use (strings, truthiness, ordered dictionaries, big-endian
  \<^verbatim>\<open>struct\<close> fields), the exceptions as values, and the generic lemmas on
  lists, association lists and words.

  A Python \<^verbatim>\<open>str\<close> is a \<^typ>\<open>string\<close>, one \<^typ>\<open>char\<close> per code point; code points
  above 255 are outside the model. \<^verbatim>\<open>bytes\<close> are lists of 8-bit words. A Python
  \<^verbatim>\<open>dict\<close> whose order or key equality matters is an association list updated by
  \<^const>\<open>AList.update\<close>, which keeps the position of a key that is present and appends a new
  one, as CPython does. Floating-point seconds are real numbers (rounding is not modelled).
\<close>

unbundle bit_operations_syntax

section \<open>Collections of rules\<close>

named_theorems pystr_simps
named_theorems wire_simps

section \<open>Types\<close>

type_synonym u8 = "8 word"
type_synonym u16 = "16 word"
type_synonym u32 = "32 word"
type_synonym bytes = "u8 list"

text \<open>
  Exceptions. The constructors are the exception classes the sources raise or catch, each
  with the text of its message where the source reads it back.
\<close>

datatype exn =
    ProviderError string
  | UnknownProvider string
  | UnknownAlgorithm string
  | ZoneResolutionError string
  | WriteSurfaceViolation string
  | KekError string
  | StartupError string
  | InvalidToken
  | ValueError string
  | KeyError string
  | IndexError string
  | TypeError string
  | RuntimeError string
  | UnicodeError string
  | StructError string
  | DNSException string
  | HTTPError string
  | AwsError string
  | OtherError string

type_synonym 'a res = "exn + 'a"

section \<open>Python strings\<close>

abbreviation chr_code :: "char \<Rightarrow> nat" where
  "chr_code c \<equiv> of_char c"

definition char_lower :: "char \<Rightarrow> char" where
  "char_lower c =
     (let n = chr_code c
      in if 65 \<le> n \<and> n \<le> 90 \<or> 192 \<le> n \<and> n \<le> 222 \<and> n \<noteq> 215 then char_of (n + 32) else c)"

definition py_lower :: "string \<Rightarrow> string" where
  "py_lower s = map char_lower s"

definition is_space :: "char \<Rightarrow> bool" where
  "is_space c =
     (let n = chr_code c
      in 9 \<le> n \<and> n \<le> 13 \<or> 28 \<le> n \<and> n \<le> 32 \<or> n = 133 \<or> n = 160)"

definition lstrip_by :: "(char \<Rightarrow> bool) \<Rightarrow> string \<Rightarrow> string" where
  "lstrip_by p s = dropWhile p s"

definition rstrip_by :: "(char \<Rightarrow> bool) \<Rightarrow> string \<Rightarrow> string" where
  "rstrip_by p s = rev (dropWhile p (rev s))"

definition py_strip :: "string \<Rightarrow> string" where
  "py_strip s = rstrip_by is_space (lstrip_by is_space s)"

definition rstrip_dot :: "string \<Rightarrow> string" where
  "rstrip_dot s = rstrip_by (\<lambda>c. c = CHR ''.'') s"

text \<open>\<^verbatim>\<open>s.split()[0]\<close> for a text with a non-space character, and \<open>''''\<close> otherwise.\<close>

definition first_field :: "string \<Rightarrow> string" where
  "first_field s = takeWhile (\<lambda>c. \<not> is_space c) (dropWhile is_space s)"

fun replace_char :: "char \<Rightarrow> string \<Rightarrow> string \<Rightarrow> string" where
  "replace_char c r [] = []"
| "replace_char c r (x # xs) = (if x = c then r else [x]) @ replace_char c r xs"

text \<open>\<^verbatim>\<open>str(n)\<close> and \<^verbatim>\<open>repr(s)\<close>.\<close>

fun nat_digits :: "nat \<Rightarrow> string" where
  "nat_digits n =
     (if n < 10 then [char_of (48 + n)] else nat_digits (n div 10) @ [char_of (48 + n mod 10)])"

declare nat_digits.simps [simp del]

definition int_str :: "int \<Rightarrow> string" where
  "int_str i = (if i < 0 then ''-'' @ nat_digits (nat (- i)) else nat_digits (nat i))"

definition hex_digit :: "nat \<Rightarrow> char" where
  "hex_digit n = char_of (if n < 10 then 48 + n else 87 + n)"

definition repr_char :: "char \<Rightarrow> char \<Rightarrow> string" where
  "repr_char q c =
     (let n = chr_code c
      in if c = CHR ''\<newline>'' then [char_of (92::nat), CHR ''n'']
         else if n = 13 then [char_of (92::nat), CHR ''r'']
         else if n = 9 then [char_of (92::nat), CHR ''t'']
         else if n = 92 \<or> c = q then [char_of (92::nat), c]
         else if n < 32 \<or> 127 \<le> n \<and> n \<le> 160 \<or> n = 173
         then [char_of (92::nat), CHR ''x'', hex_digit (n div 16), hex_digit (n mod 16)]
         else [c])"

definition py_repr :: "string \<Rightarrow> string" where
  "py_repr s =
     (let q = (if char_of (39::nat) \<in> set s \<and> char_of (34::nat) \<notin> set s
               then char_of (34::nat) else char_of (39::nat))
      in [q] @ concat (map (repr_char q) s) @ [q])"

text \<open>\<^verbatim>\<open>repr\<close> of a list of strings.\<close>

fun sep_join :: "string \<Rightarrow> string list \<Rightarrow> string" where
  "sep_join sep [] = []"
| "sep_join sep [x] = x"
| "sep_join sep (x # xs) = x @ sep @ sep_join sep xs"

definition repr_strings :: "string list \<Rightarrow> string" where
  "repr_strings xs = ''['' @ sep_join '', '' (map py_repr xs) @ '']''"

text \<open>\<^verbatim>\<open>bytes.decode("ascii")\<close>: \<^const>\<open>None\<close> is \<^verbatim>\<open>UnicodeDecodeError\<close>.\<close>

definition decode_ascii :: "bytes \<Rightarrow> string option" where
  "decode_ascii b = (if \<forall>x \<in> set b. x < 128 then Some (map (\<lambda>x. char_of (unat x)) b) else None)"

section \<open>Python values in configuration mappings\<close>

text \<open>
  The values a provider configuration can hold: what JSON can carry, and pydantic's
  \<^verbatim>\<open>SecretStr\<close>, which JSON cannot.
\<close>

datatype pyval =
    PNone
  | PBool bool
  | PInt int
  | PStr string
  | PSecret string
  | PList "pyval list"
  | PDict "(string \<times> pyval) list"

type_synonym config = "(string \<times> pyval) list"

section \<open>Truncation of a float to an int\<close>

definition py_int :: "real \<Rightarrow> int" where
  "py_int x = (if 0 \<le> x then \<lfloor>x\<rfloor> else \<lceil>x\<rceil>)"

section \<open>Big-endian 16-bit fields\<close>

definition unpack_H :: "u8 \<Rightarrow> u8 \<Rightarrow> nat" where
  "unpack_H hi lo = unat hi * 256 + unat lo"

text \<open>\<^verbatim>\<open>struct.pack("!H", n)\<close>: \<^const>\<open>None\<close> is \<^verbatim>\<open>struct.error\<close>, raised out of range.\<close>

definition pack_H :: "nat \<Rightarrow> bytes option" where
  "pack_H n = (if n < 65536 then Some [word_of_nat (n div 256), word_of_nat (n mod 256)] else None)"

section \<open>Lemmas on strings\<close>

lemma char_lower_idem [simp, pystr_simps]: "char_lower (char_lower c) = char_lower c"
proof -
  have b: "chr_code c < 256" by (rule nat_of_char_less_256)
  then show ?thesis by (auto simp: char_lower_def Let_def)
qed

lemma py_lower_idem [simp, pystr_simps]: "py_lower (py_lower s) = py_lower s"
  by (simp add: py_lower_def o_def)

lemma py_lower_append [pystr_simps]: "py_lower (s @ t) = py_lower s @ py_lower t"
  by (simp add: py_lower_def)

lemma char_lower_dot_iff [simp]: "char_lower c = CHR ''.'' \<longleftrightarrow> c = CHR ''.''"
proof -
  have b: "chr_code c < 256" by (rule nat_of_char_less_256)
  have e: "chr_code (CHR ''.'') = 46" by simp
  have "char_lower c = CHR ''.'' \<longleftrightarrow> chr_code (char_lower c) = 46"
    using e of_char_eq_iff by metis
  also have "\<dots> \<longleftrightarrow> chr_code c = 46" using b by (auto simp: char_lower_def Let_def)
  also have "\<dots> \<longleftrightarrow> c = CHR ''.''" using e of_char_eq_iff by metis
  finally show ?thesis .
qed

lemma rstrip_dot_lower [pystr_simps]: "rstrip_dot (py_lower s) = py_lower (rstrip_dot s)"
  by (simp add: rstrip_dot_def rstrip_by_def py_lower_def rev_map dropWhile_map o_def)

lemma rstrip_by_idem [simp, pystr_simps]: "rstrip_by p (rstrip_by p s) = rstrip_by p s"
  by (simp add: rstrip_by_def)

lemma rstrip_dot_idem [simp, pystr_simps]: "rstrip_dot (rstrip_dot s) = rstrip_dot s"
  by (simp add: rstrip_dot_def)

lemma rstrip_dot_snoc_dot [simp, pystr_simps]: "rstrip_dot (s @ ''.'') = rstrip_dot s"
  by (simp add: rstrip_dot_def rstrip_by_def)

lemma decode_ascii_length: "decode_ascii b = Some s \<Longrightarrow> length s = length b"
  by (auto simp: decode_ascii_def split: if_splits)

lemma decode_ascii_chars: "decode_ascii b = Some s \<Longrightarrow> c \<in> set s \<Longrightarrow> chr_code c < 128"
  by (fastforce simp: decode_ascii_def word_less_nat_alt split: if_splits)

lemma replace_char_append [pystr_simps]:
  "replace_char c r (s @ t) = replace_char c r s @ replace_char c r t"
  by (induction s) auto

section \<open>Lemmas on 16-bit fields\<close>

lemma unpack_H_less [simp]: "unpack_H hi lo < 65536"
proof -
  have "unat hi < 256" "unat lo < 256"
    using unsigned_less [of hi, where ?'a = nat] unsigned_less [of lo, where ?'a = nat] by simp_all
  then show ?thesis by (simp add: unpack_H_def)
qed

lemma pack_unpack_H [wire_simps]: "pack_H n = Some [hi, lo] \<Longrightarrow> unpack_H hi lo = n"
  by (auto simp: pack_H_def unpack_H_def unsigned_of_nat take_bit_eq_mod split: if_splits)

lemma pack_H_length: "pack_H n = Some b \<Longrightarrow> length b = 2"
  by (auto simp: pack_H_def split: if_splits)

lemma pack_H_Some_iff: "(\<exists>b. pack_H n = Some b) \<longleftrightarrow> n < 65536"
  by (simp add: pack_H_def)

section \<open>Lemmas on ordered dictionaries\<close>

lemma map_of_AList_update [simp]: "map_of (AList.update k v al) = (map_of al)(k \<mapsto> v)"
  by (rule update_conv')

end
