(* ===== verification/DnsNames.thy ===== *)
theory DnsNames
  imports Prelude
begin

text \<open>
  The interface of \<^verbatim>\<open>dns.name.Name\<close> (dnspython) that the data plane uses. The package
  is not part of the repository, so a name has an unspecified type \<^typ>\<open>'n\<close> and its operations are
  the fields of \<^term>\<open>name_ops\<close>, an argument of every definition that handles names. What the
  code relies on is the predicate \<^term>\<open>name_laws\<close>: the documented behaviour of
  \<^verbatim>\<open>canonicalize\<close>, \<^verbatim>\<open>parent\<close> and of equality, which ignores case.
  Two names are equal for Python (and hash alike) when their folded label tuples agree, so a
  dictionary keyed by names is an association list keyed by \<^term>\<open>nm_labels\<close>.
\<close>

record 'n name_ops =
  nm_labels :: "'n \<Rightarrow> string list"
  nm_canonicalize :: "'n \<Rightarrow> 'n"
  nm_parent :: "'n \<Rightarrow> 'n option"
  nm_to_text :: "'n \<Rightarrow> string"
  nm_from_text :: "string \<Rightarrow> 'n option"

abbreviation name_eq :: "'n name_ops \<Rightarrow> 'n \<Rightarrow> 'n \<Rightarrow> bool" where
  "name_eq N a b \<equiv> nm_labels N a = nm_labels N b"

abbreviation topmost :: "string list \<Rightarrow> bool" where
  "topmost ls \<equiv> ls = [] \<or> ls = ['''']"

definition canonical_keeps :: "'n name_ops \<Rightarrow> bool" where
  "canonical_keeps N \<longleftrightarrow> (\<forall>n. nm_labels N (nm_canonicalize N n) = nm_labels N n)"

definition parent_drops :: "'n name_ops \<Rightarrow> bool" where
  "parent_drops N \<longleftrightarrow>
     (\<forall>n. (nm_parent N n = None \<longleftrightarrow> topmost (nm_labels N n))
        \<and> (\<forall>p. nm_parent N n = Some p \<longrightarrow> nm_labels N p = tl (nm_labels N n)))"

definition canonical_text :: "'n name_ops \<Rightarrow> bool" where
  "canonical_text N \<longleftrightarrow>
     (\<forall>a b. name_eq N a b \<longrightarrow> nm_to_text N (nm_canonicalize N a) = nm_to_text N (nm_canonicalize N b))"

definition name_laws :: "'n name_ops \<Rightarrow> bool" where
  "name_laws N \<longleftrightarrow> canonical_keeps N \<and> parent_drops N \<and> canonical_text N"

section \<open>Consequences\<close>

lemma labels_canonicalize: "name_laws N \<Longrightarrow> nm_labels N (nm_canonicalize N n) = nm_labels N n"
  by (simp add: name_laws_def canonical_keeps_def)

lemma parent_None: "name_laws N \<Longrightarrow> nm_parent N n = None \<longleftrightarrow> topmost (nm_labels N n)"
  by (simp add: name_laws_def parent_drops_def)

lemma parent_Some: "name_laws N \<Longrightarrow> nm_parent N n = Some p \<Longrightarrow> nm_labels N p = tl (nm_labels N n)"
  by (simp add: name_laws_def parent_drops_def)

lemma parent_shorter:
  assumes "name_laws N" and "nm_parent N n = Some p"
  shows "length (nm_labels N p) < length (nm_labels N n)"
proof -
  have "\<not> topmost (nm_labels N n)" using assms parent_None [of N n] by simp
  then have "nm_labels N n \<noteq> []" by blast
  then show ?thesis by (cases "nm_labels N n") (simp_all add: parent_Some [OF assms])
qed

lemma canonical_text_cong:
  "name_laws N \<Longrightarrow> name_eq N a b \<Longrightarrow>
     nm_to_text N (nm_canonicalize N a) = nm_to_text N (nm_canonicalize N b)"
  unfolding name_laws_def canonical_text_def by blast

section \<open>A concrete instance\<close>

text \<open>
  Absolute names as label lists ending in the empty root label, with case kept in the labels.
  It satisfies the laws; the witnesses evaluate on it.
\<close>

fun split_dots :: "string \<Rightarrow> string list" where
  "split_dots [] = [[]]"
| "split_dots (c # cs) =
     (if c = CHR ''.'' then [] # split_dots cs
      else (case split_dots cs of [] \<Rightarrow> [[c]] | l # ls \<Rightarrow> (c # l) # ls))"

definition text_labels :: "string \<Rightarrow> string list option" where
  "text_labels t =
     (let ls = split_dots (if t \<noteq> [] \<and> last t = CHR ''.'' then butlast t else t)
      in if t = ''.'' then Some [''''] else if [] \<in> set ls then None else Some (ls @ ['''']))"

definition labels_text :: "string list \<Rightarrow> string" where
  "labels_text ls = (if ls = [''''] then ''.'' else concat (map (\<lambda>l. l @ ''.'') (butlast ls)))"

definition sample_names :: "string list name_ops" where
  "sample_names =
     \<lparr>nm_labels = map py_lower,
      nm_canonicalize = map py_lower,
      nm_parent = (\<lambda>n. if topmost n then None else Some (tl n)),
      nm_to_text = labels_text,
      nm_from_text = text_labels\<rparr>"

lemma sample_name_laws: "name_laws sample_names"
  by (auto simp: name_laws_def canonical_keeps_def parent_drops_def canonical_text_def
      sample_names_def py_lower_def map_tl)

end
