(* ===== verification/Observability.thy ===== *)
theory Observability
  imports Prelude
begin

text \<open>
  \<^verbatim>\<open>observability.py\<close>: the Prometheus families of \<^verbatim>\<open>DataPlaneMetrics\<close> and their
  recorders. A labelled counter is a function from its label values to a count, a labelled gauge
  a partial function (a child exists once it has been set), a histogram the list of its
  observations per label value. Exposition over HTTP is not modelled.
\<close>

section \<open>State\<close>

definition TSIG_ABSENT :: string where "TSIG_ABSENT = ''absent''"
definition TSIG_BADSIG :: string where "TSIG_BADSIG = ''badsig''"
definition TSIG_BADKEY :: string where "TSIG_BADKEY = ''badkey''"
definition TSIG_BADTIME :: string where "TSIG_BADTIME = ''badtime''"
definition TSIG_UNKNOWNKEY :: string where "TSIG_UNKNOWNKEY = ''unknownkey''"

record metrics =
  challenges :: "string \<times> string \<times> string \<Rightarrow> nat"
  tsig_failures :: "string \<Rightarrow> nat"
  tsig_badtime :: nat
  provider_call_duration :: "string \<Rightarrow> real list"
  plane_restarts :: "string \<Rightarrow> nat"
  plane_unhealthy :: "string \<Rightarrow> real option"
  zone_last_success :: "string \<Rightarrow> real option"
  audit_failures :: nat

definition init_metrics :: metrics where
  "init_metrics =
     \<lparr>challenges = (\<lambda>_. 0), tsig_failures = (\<lambda>_. 0), tsig_badtime = 0,
      provider_call_duration = (\<lambda>_. []), plane_restarts = (\<lambda>_. 0),
      plane_unhealthy = (\<lambda>_. None), zone_last_success = (\<lambda>_. None), audit_failures = 0\<rparr>"

section \<open>Recorders\<close>

definition record_tsig_failure :: "string \<Rightarrow> metrics \<Rightarrow> metrics" where
  "record_tsig_failure reason m =
     (let m1 = m\<lparr>tsig_failures := (tsig_failures m)(reason := Suc (tsig_failures m reason))\<rparr>
      in if reason = TSIG_BADTIME then m1\<lparr>tsig_badtime := Suc (tsig_badtime m1)\<rparr> else m1)"

text \<open>The label tuple is (provider, result, action), in the order the family declares.\<close>

definition record_challenge :: "string \<Rightarrow> string \<Rightarrow> string \<Rightarrow> metrics \<Rightarrow> metrics" where
  "record_challenge provider action result m =
     m\<lparr>challenges :=
        (challenges m)((provider, result, action) := Suc (challenges m (provider, result, action)))\<rparr>"

definition observe_duration :: "string \<Rightarrow> real \<Rightarrow> metrics \<Rightarrow> metrics" where
  "observe_duration provider latency m =
     m\<lparr>provider_call_duration :=
        (provider_call_duration m)(provider := provider_call_duration m provider @ [latency])\<rparr>"

definition record_plane_restart :: "string \<Rightarrow> metrics \<Rightarrow> metrics" where
  "record_plane_restart plane m =
     m\<lparr>plane_restarts := (plane_restarts m)(plane := Suc (plane_restarts m plane))\<rparr>"

definition set_plane_unhealthy :: "string \<Rightarrow> bool \<Rightarrow> metrics \<Rightarrow> metrics" where
  "set_plane_unhealthy plane unhealthy m =
     m\<lparr>plane_unhealthy := (plane_unhealthy m)(plane \<mapsto> (if unhealthy then 1 else 0))\<rparr>"

definition mark_zone_success :: "string \<Rightarrow> real \<Rightarrow> metrics \<Rightarrow> metrics" where
  "mark_zone_success zone timestamp m =
     m\<lparr>zone_last_success := (zone_last_success m)(zone \<mapsto> timestamp)\<rparr>"

definition record_audit_failure :: "metrics \<Rightarrow> metrics" where
  "record_audit_failure m = m\<lparr>audit_failures := Suc (audit_failures m)\<rparr>"

lemmas metric_defs =
  record_tsig_failure_def record_challenge_def observe_duration_def record_plane_restart_def
  set_plane_unhealthy_def mark_zone_success_def record_audit_failure_def

lemmas tsig_reasons =
  TSIG_ABSENT_def TSIG_BADSIG_def TSIG_BADKEY_def TSIG_BADTIME_def TSIG_UNKNOWNKEY_def

section \<open>The dedicated BADTIME counter\<close>

text \<open>The family sum over a finite set of reasons, and its change under one more failure.\<close>

definition tsig_total :: "metrics \<Rightarrow> string set \<Rightarrow> nat" where
  "tsig_total m R = (\<Sum>r\<in>R. tsig_failures m r)"

lemma tsig_total_record:
  assumes "finite R" and "reason \<in> R"
  shows "tsig_total (record_tsig_failure reason m) R = Suc (tsig_total m R)"
proof -
  have "(\<Sum>r\<in>R. tsig_failures (record_tsig_failure reason m) r)
      = tsig_failures (record_tsig_failure reason m) reason
        + (\<Sum>r\<in>R - {reason}. tsig_failures (record_tsig_failure reason m) r)"
    using assms by (simp add: sum.remove)
  also have "\<dots> = Suc (tsig_failures m reason) + (\<Sum>r\<in>R - {reason}. tsig_failures m r)"
    by (simp add: record_tsig_failure_def Let_def)
  also have "\<dots> = Suc (\<Sum>r\<in>R. tsig_failures m r)"
    using assms by (simp add: sum.remove [of R reason])
  finally show ?thesis by (simp add: tsig_total_def)
qed

definition badtime_agrees :: "metrics \<Rightarrow> bool" where
  "badtime_agrees m \<longleftrightarrow> tsig_badtime m = tsig_failures m TSIG_BADTIME"

lemma badtime_agrees_init [simp]: "badtime_agrees init_metrics"
  by (simp add: badtime_agrees_def init_metrics_def)

lemma badtime_agrees_record [simp]:
  "badtime_agrees m \<Longrightarrow> badtime_agrees (record_tsig_failure reason m)"
  "badtime_agrees m \<Longrightarrow> badtime_agrees (record_challenge p a r m)"
  "badtime_agrees m \<Longrightarrow> badtime_agrees (observe_duration p l m)"
  "badtime_agrees m \<Longrightarrow> badtime_agrees (record_plane_restart pl m)"
  "badtime_agrees m \<Longrightarrow> badtime_agrees (set_plane_unhealthy pl u m)"
  "badtime_agrees m \<Longrightarrow> badtime_agrees (mark_zone_success z t m)"
  "badtime_agrees m \<Longrightarrow> badtime_agrees (record_audit_failure m)"
  by (auto simp: badtime_agrees_def metric_defs Let_def)

end
