(* ===== verification/ProviderBase.thy ===== *)
theory ProviderBase
  imports Prelude
begin

text \<open>
  \<^verbatim>\<open>providers/base.py\<close>: the provider interface as the record of operations the
  dispatcher calls, and the module-level registry with \<^verbatim>\<open>register\<close> and
  \<^verbatim>\<open>get_provider\<close>. A provider call returns \<open>Inr ()\<close> or the exception it raises, and
  the changed world.
\<close>

section \<open>The provider interface\<close>

type_synonym 'w provider_call = "string \<Rightarrow> string \<Rightarrow> string list \<Rightarrow> 'w \<Rightarrow> unit res \<times> 'w"

record ('p, 'w) provider_ops =
  pv_type :: "'p \<Rightarrow> string"
  pv_supports_multivalue :: "'p \<Rightarrow> bool"
  pv_supports_delete :: "'p \<Rightarrow> bool"
  pv_present :: "'p \<Rightarrow> 'w provider_call"
  pv_cleanup :: "'p \<Rightarrow> 'w provider_call"
  pv_validate :: "'p \<Rightarrow> 'w \<Rightarrow> unit res \<times> 'w"

section \<open>The registry\<close>

type_synonym 'c registry = "(string \<times> 'c) list"

definition register :: "('c \<Rightarrow> string) \<Rightarrow> 'c \<Rightarrow> 'c registry \<Rightarrow> 'c registry res" where
  "register cls_type cls reg =
     (let key = cls_type cls
      in case map_of reg key of
           Some c \<Rightarrow>
             if c \<noteq> cls then Inl (ValueError (''provider type '' @ py_repr key @ '' already registered''))
             else Inr (AList.update key cls reg)
         | None \<Rightarrow> Inr (AList.update key cls reg))"

definition get_provider :: "'c registry \<Rightarrow> string \<Rightarrow> 'c res" where
  "get_provider reg provider_type =
     (case map_of reg provider_type of
        Some c \<Rightarrow> Inr c
      | None \<Rightarrow> Inl (UnknownProvider (''unknown provider type '' @ py_repr provider_type
                  @ ''; registered: '' @ repr_strings (sort (map fst reg)))))"

text \<open>Registering classes one after the other, as importing their modules does.\<close>

fun register_all :: "('c \<Rightarrow> string) \<Rightarrow> 'c list \<Rightarrow> 'c registry \<Rightarrow> 'c registry res" where
  "register_all ty [] reg = Inr reg"
| "register_all ty (c # cs) reg =
     (case register ty c reg of Inl e \<Rightarrow> Inl e | Inr reg' \<Rightarrow> register_all ty cs reg')"

section \<open>Registry laws\<close>

definition registry_ok :: "('c \<Rightarrow> string) \<Rightarrow> 'c registry \<Rightarrow> bool" where
  "registry_ok ty reg \<longleftrightarrow> distinct (map fst reg) \<and> (\<forall>(k, c) \<in> set reg. ty c = k)"

lemma register_get:
  "register ty c reg = Inr reg' \<Longrightarrow> get_provider reg' (ty c) = Inr c"
  by (auto simp: register_def get_provider_def Let_def split: option.splits if_splits)

lemma register_keeps:
  "register ty c reg = Inr reg' \<Longrightarrow> get_provider reg t = Inr d \<Longrightarrow> get_provider reg' t = Inr d"
  by (auto simp: register_def get_provider_def Let_def split: option.splits if_splits)

lemma register_ok:
  assumes "register ty c reg = Inr reg'" and "registry_ok ty reg"
  shows "registry_ok ty reg'"
proof -
  have r: "reg' = AList.update (ty c) c reg"
    using assms(1) by (auto simp: register_def Let_def split: option.splits if_splits)
  have "distinct (map fst reg')"
    using assms(2) r by (simp add: registry_ok_def distinct_update)
  moreover have "\<forall>(k, d) \<in> set reg'. ty d = k"
  proof safe
    fix k d
    assume "(k, d) \<in> set reg'"
    then have "map_of reg' k = Some d" using calculation by simp
    then have "(k = ty c \<and> d = c) \<or> map_of reg k = Some d" using r by (auto split: if_splits)
    then show "ty d = k" using assms(2) map_of_SomeD by (fastforce simp: registry_ok_def)
  qed
  ultimately show ?thesis by (simp add: registry_ok_def)
qed

lemma register_all_ok:
  "registry_ok ty reg \<Longrightarrow> register_all ty cs reg = Inr reg' \<Longrightarrow> registry_ok ty reg'"
  by (induction cs arbitrary: reg) (auto split: sum.splits dest: register_ok)

lemma register_all_keeps:
  "register_all ty cs reg = Inr reg' \<Longrightarrow> get_provider reg t = Inr d \<Longrightarrow> get_provider reg' t = Inr d"
  by (induction cs arbitrary: reg) (auto split: sum.splits dest: register_keeps)

text \<open>
  After registering a list of classes, every class of the list is resolved by its own type
  key, and a key that resolves does so to a class with that type.
\<close>

theorem registered_classes_resolve:
  assumes "register_all ty cs [] = Inr reg"
  shows "(\<forall>c \<in> set cs. get_provider reg (ty c) = Inr c)
       \<and> (\<forall>t c. get_provider reg t = Inr c \<longrightarrow> ty c = t)"
proof -
  have "\<forall>c \<in> set cs. get_provider reg (ty c) = Inr c"
    if "register_all ty cs reg0 = Inr reg" for reg0
    using that
    by (induction cs arbitrary: reg0)
      (auto split: sum.splits dest: register_get register_all_keeps)
  moreover have "registry_ok ty reg"
    using register_all_ok [OF _ assms] by (simp add: registry_ok_def)
  then have "\<forall>t c. get_provider reg t = Inr c \<longrightarrow> ty c = t"
    by (auto simp: registry_ok_def get_provider_def split: option.splits dest!: map_of_SomeD)
  ultimately show ?thesis using assms by blast
qed

end
