(* ===== verification/Dispatcher.thy ===== *)
theory Dispatcher
  imports DnsNames Observability ProviderBase
begin

text \<open>
  \<^verbatim>\<open>data_plane/dispatcher.py\<close>: zone resolution, the routing table, the write-surface
  allowlist, TXT normalisation and \<^verbatim>\<open>Dispatcher.dispatch\<close> with its provider call, metrics
  and audit row. A parsed UPDATE is the record of the fields the dispatcher reads from dnspython's
  message. The dispatcher's collaborators (routing source, clock, performance counter, audit sink,
  TSIG key resolver) are the fields of \<^term>\<open>dispatcher\<close>. This theory treats one dispatch at a
  time; theory \<open>DispatchLocks\<close> treats the interleaving of several.

  The text of a WriteSurfaceViolation is never read by its only handler; the model keeps its fixed
  part.
\<close>

section \<open>Messages\<close>

datatype rdata = TXT "bytes list" | OtherRdata

record 'n rrset =
  rr_name :: 'n
  rr_type :: nat
  rr_deleting :: "nat option"
  rr_rdatas :: "rdata list"

record 'n update_msg =
  um_zone :: "'n rrset list"
  um_update :: "'n rrset list"
  um_keyname :: "'n option"

abbreviation RDTYPE_TXT :: nat where "RDTYPE_TXT \<equiv> 16"
abbreviation CLASS_NONE :: nat where "CLASS_NONE \<equiv> 254"
abbreviation CLASS_ANY :: nat where "CLASS_ANY \<equiv> 255"

datatype rcode = NOERROR | SERVFAIL | REFUSED | NOTAUTH

section \<open>Zone resolution and routing\<close>

definition zone_from_message :: "'n name_ops \<Rightarrow> 'n update_msg \<Rightarrow> 'n res" where
  "zone_from_message N msg =
     (case um_zone msg of
        [] \<Rightarrow> Inl (ZoneResolutionError ''UPDATE message has no ZONE section'')
      | z # _ \<Rightarrow> Inr (nm_canonicalize N (rr_name z)))"

record ('n, 'p) route =
  rt_zone :: 'n
  rt_provider :: 'p
  rt_record_name :: 'n

type_synonym ('n, 'p) routing_table = "(string list \<times> ('n, 'p) route) list"

fun table_insert ::
  "'n name_ops \<Rightarrow> ('n, 'p) routing_table \<Rightarrow> ('n, 'p) route list \<Rightarrow> ('n, 'p) routing_table" where
  "table_insert N t [] = t"
| "table_insert N t (r # rs) = table_insert N (AList.update (nm_labels N (rt_zone r)) r t) rs"

definition RoutingTable :: "'n name_ops \<Rightarrow> ('n, 'p) route list \<Rightarrow> ('n, 'p) routing_table" where
  "RoutingTable N routes = table_insert N [] routes"

text \<open>
  The \<^verbatim>\<open>while True\<close> walk to the parents. The fuel is the number of labels of the zone,
  plus one: every step removes a label (\<open>table_match_eq\<close> shows that it is enough).
\<close>

fun match_fuel ::
  "nat \<Rightarrow> 'n name_ops \<Rightarrow> ('n, 'p) routing_table \<Rightarrow> 'n \<Rightarrow> ('n, 'p) route option option" where
  "match_fuel 0 N t candidate = None"
| "match_fuel (Suc fuel) N t candidate =
     (case map_of t (nm_labels N candidate) of
        Some route \<Rightarrow> Some (Some route)
      | None \<Rightarrow>
          (case nm_parent N candidate of
             None \<Rightarrow> Some None
           | Some parent \<Rightarrow> match_fuel fuel N t parent))"

definition table_match ::
  "'n name_ops \<Rightarrow> ('n, 'p) routing_table \<Rightarrow> 'n \<Rightarrow> ('n, 'p) route option" where
  "table_match N t zone =
     (case match_fuel (Suc (length (nm_labels N zone))) N t zone of None \<Rightarrow> None | Some r \<Rightarrow> r)"

section \<open>The write surface\<close>

datatype action = PRESENT | CLEANUP

definition action_value :: "action \<Rightarrow> string" where
  "action_value a = (case a of PRESENT \<Rightarrow> ''present'' | CLEANUP \<Rightarrow> ''cleanup'')"

definition classify_action :: "'n rrset \<Rightarrow> action res" where
  "classify_action rrset =
     (case rr_deleting rrset of
        None \<Rightarrow> Inr PRESENT
      | Some d \<Rightarrow>
          if d \<in> {CLASS_NONE, CLASS_ANY} then Inr CLEANUP
          else Inl (ValueError ''unexpected update class''))"

definition validate_write_surface ::
  "'n name_ops \<Rightarrow> 'n update_msg \<Rightarrow> ('n, 'p) route \<Rightarrow> (action \<times> 'n rrset) res" where
  "validate_write_surface N msg route =
     (case um_update msg of
        [rrset] \<Rightarrow>
          if rr_type rrset \<noteq> RDTYPE_TXT
          then Inl (WriteSurfaceViolation ''only TXT rrsets are permitted'')
          else if \<not> name_eq N (nm_canonicalize N (rr_name rrset)) (rt_record_name route)
          then Inl (WriteSurfaceViolation ''owner is not the permitted _acme-challenge record'')
          else (case classify_action rrset of
                  Inl (ValueError m) \<Rightarrow> Inl (WriteSurfaceViolation m)
                | Inl e \<Rightarrow> Inl e
                | Inr action \<Rightarrow> Inr (action, rrset))
      | _ \<Rightarrow> Inl (WriteSurfaceViolation ''UPDATE section must contain exactly one rrset''))"

definition MAX_TXT_LEN :: nat where "MAX_TXT_LEN = 255"

definition txt_token :: "rdata \<Rightarrow> string res" where
  "txt_token rd =
     (case rd of
        OtherRdata \<Rightarrow> Inl (WriteSurfaceViolation ''rrset rdata is not TXT'')
      | TXT strings \<Rightarrow>
          (case decode_ascii (concat strings) of
             None \<Rightarrow> Inl (WriteSurfaceViolation ''TXT value is not ASCII'')
           | Some token \<Rightarrow>
               if token = [] then Inl (WriteSurfaceViolation ''empty TXT value'')
               else if MAX_TXT_LEN < length token
               then Inl (WriteSurfaceViolation ''TXT value exceeds 255 characters'')
               else Inr token))"

fun txt_tokens :: "rdata list \<Rightarrow> string list res" where
  "txt_tokens [] = Inr []"
| "txt_tokens (rd # rds) =
     (case txt_token rd of
        Inl e \<Rightarrow> Inl e
      | Inr token \<Rightarrow> (case txt_tokens rds of Inl e \<Rightarrow> Inl e | Inr ts \<Rightarrow> Inr (token # ts)))"

definition normalize_txt_values :: "'n rrset \<Rightarrow> action \<Rightarrow> bool \<Rightarrow> string list res" where
  "normalize_txt_values rrset action allow_multivalue =
     (let rdatas = rr_rdatas rrset
      in if rdatas = []
         then (if action = CLEANUP then Inr []
               else Inl (WriteSurfaceViolation ''present requires a TXT value''))
         else if 1 < length rdatas \<and> \<not> allow_multivalue
         then Inl (WriteSurfaceViolation ''multiple TXT values not permitted for a single-value provider'')
         else txt_tokens rdatas)"

section \<open>The dispatcher\<close>

record audit_record =
  ar_zone :: string
  ar_record_name :: string
  ar_action :: string
  ar_provider :: string
  ar_result :: string
  ar_latency_ms :: int
  ar_tsig_key_id :: "int option"
  ar_source :: string
  ar_error_detail :: "string option"

record ('n, 'p, 'w) dispatcher =
  d_routing :: "'n \<Rightarrow> ('n, 'p) route option"
  d_clock :: "'w \<Rightarrow> real \<times> 'w"
  d_perf_counter :: "'w \<Rightarrow> real \<times> 'w"
  d_audit :: "(audit_record \<Rightarrow> 'w \<Rightarrow> unit res \<times> 'w) option"
  d_tsig_resolver :: "('n \<Rightarrow> int option) option"

record 'w dstate =
  ds_metrics :: metrics
  ds_locks :: "string list"
  ds_world :: 'w

definition lock_for :: "string \<Rightarrow> 'w dstate \<Rightarrow> 'w dstate" where
  "lock_for record_key s =
     (if record_key \<in> set (ds_locks s) then s else s\<lparr>ds_locks := ds_locks s @ [record_key]\<rparr>)"

definition resolve_tsig_key_id :: "('n, 'p, 'w) dispatcher \<Rightarrow> 'n update_msg \<Rightarrow> int option" where
  "resolve_tsig_key_id D msg =
     (case (d_tsig_resolver D, um_keyname msg) of
        (Some resolve, Some keyname) \<Rightarrow> resolve keyname
      | _ \<Rightarrow> None)"

definition write_audit ::
  "('n, 'p, 'w) dispatcher \<Rightarrow> audit_record \<Rightarrow> 'w dstate \<Rightarrow> 'w dstate" where
  "write_audit D rec s =
     (case d_audit D of
        None \<Rightarrow> s
      | Some sink \<Rightarrow>
          (case sink rec (ds_world s) of
             (Inr _, w) \<Rightarrow> s\<lparr>ds_world := w\<rparr>
           | (Inl _, w) \<Rightarrow> s\<lparr>ds_world := w, ds_metrics := record_audit_failure (ds_metrics s)\<rparr>))"

text \<open>The answer and the audit fields for the outcome of a provider call.\<close>

definition call_result :: "action \<Rightarrow> string option \<Rightarrow> string \<times> rcode" where
  "call_result action error_detail =
     (case error_detail of
        None \<Rightarrow> (''ok'', NOERROR)
      | Some _ \<Rightarrow> (''error'', if action = CLEANUP then NOERROR else SERVFAIL))"

definition call_metrics ::
  "string \<Rightarrow> action \<Rightarrow> string \<Rightarrow> real \<Rightarrow> metrics \<Rightarrow> metrics" where
  "call_metrics ptype action result latency m =
     (let cleanup_suppressed = (result = ''error'' \<and> action = CLEANUP)
      in record_challenge ptype (action_value action)
           (if cleanup_suppressed then ''suppressed'' else result)
           (observe_duration ptype latency m))"

definition finish_call ::
  "'n name_ops \<Rightarrow> ('p, 'w) provider_ops \<Rightarrow> ('n, 'p, 'w) dispatcher \<Rightarrow> ('n, 'p) route \<Rightarrow> action \<Rightarrow>
   string \<Rightarrow> string \<Rightarrow> int option \<Rightarrow> real \<Rightarrow> string option \<Rightarrow> 'w dstate \<Rightarrow> rcode res \<times> 'w dstate" where
  "finish_call N P D route action record_name source key_id started error_detail s =
     (let ptype = pv_type P (rt_provider route);
          zone_text = nm_to_text N (rt_zone route);
          (result, rcode) = call_result action error_detail;
          (now, w) = d_perf_counter D (ds_world s);
          latency = now - started;
          s1 = s\<lparr>ds_world := w, ds_metrics := call_metrics ptype action result latency (ds_metrics s)\<rparr>;
          s2 = (if result = ''ok''
                then (let (ts, w') = d_clock D (ds_world s1)
                      in s1\<lparr>ds_world := w', ds_metrics := mark_zone_success zone_text ts (ds_metrics s1)\<rparr>)
                else s1)
      in (Inr rcode,
          write_audit D
            \<lparr>ar_zone = zone_text, ar_record_name = record_name, ar_action = action_value action,
             ar_provider = ptype, ar_result = result, ar_latency_ms = py_int (latency * 1000),
             ar_tsig_key_id = key_id, ar_source = source, ar_error_detail = error_detail\<rparr> s2))"

definition invoke_provider ::
  "'n name_ops \<Rightarrow> ('p, 'w) provider_ops \<Rightarrow> ('n, 'p, 'w) dispatcher \<Rightarrow> ('n, 'p) route \<Rightarrow> action \<Rightarrow>
   string \<Rightarrow> string list \<Rightarrow> string \<Rightarrow> int option \<Rightarrow> 'w dstate \<Rightarrow> rcode res \<times> 'w dstate" where
  "invoke_provider N P D route action record_name values source key_id s =
     (let zone_text = nm_to_text N (rt_zone route);
          (started, w) = d_perf_counter D (ds_world s);
          call = (if action = PRESENT then pv_present P else pv_cleanup P);
          (r, w') = call (rt_provider route) zone_text record_name values w;
          s' = s\<lparr>ds_world := w'\<rparr>
      in case r of
           Inl (ProviderError msg) \<Rightarrow>
             finish_call N P D route action record_name source key_id started (Some msg) s'
         | Inl e \<Rightarrow> (Inl e, s')
         | Inr _ \<Rightarrow> finish_call N P D route action record_name source key_id started None s')"

text \<open>What \<^verbatim>\<open>dispatch\<close> decides before it takes the record's lock.\<close>

definition admit ::
  "'n name_ops \<Rightarrow> ('p, 'w) provider_ops \<Rightarrow> ('n, 'p, 'w) dispatcher \<Rightarrow> 'n update_msg \<Rightarrow>
   (('n, 'p) route \<times> action \<times> 'n rrset \<times> string list) option" where
  "admit N P D msg =
     (case zone_from_message N msg of
        Inl _ \<Rightarrow> None
      | Inr zone \<Rightarrow>
          (case d_routing D zone of
             None \<Rightarrow> None
           | Some route \<Rightarrow>
               (case validate_write_surface N msg route of
                  Inl _ \<Rightarrow> None
                | Inr (action, rrset) \<Rightarrow>
                    (case normalize_txt_values rrset action
                            (pv_supports_multivalue P (rt_provider route)) of
                       Inl _ \<Rightarrow> None
                     | Inr values \<Rightarrow> Some (route, action, rrset, values)))))"

definition record_key :: "'n name_ops \<Rightarrow> 'n rrset \<Rightarrow> string" where
  "record_key N rrset = nm_to_text N (nm_canonicalize N (rr_name rrset))"

definition dispatch ::
  "'n name_ops \<Rightarrow> ('p, 'w) provider_ops \<Rightarrow> ('n, 'p, 'w) dispatcher \<Rightarrow> 'n update_msg \<Rightarrow> string \<Rightarrow>
   'w dstate \<Rightarrow> rcode res \<times> 'w dstate" where
  "dispatch N P D msg source s =
     (case admit N P D msg of
        None \<Rightarrow> (Inr REFUSED, s)
      | Some (route, action, rrset, values) \<Rightarrow>
          invoke_provider N P D route action (nm_to_text N (rr_name rrset)) values source
            (resolve_tsig_key_id D msg) (lock_for (record_key N rrset) s))"

section \<open>Routing is longest-suffix matching\<close>

lemma map_of_table_insert:
  "map_of (table_insert N t rs) ls =
     (case map_of (map (\<lambda>r. (nm_labels N (rt_zone r), r)) (rev rs)) ls of
        Some r \<Rightarrow> Some r | None \<Rightarrow> map_of t ls)"
  by (induction N t rs rule: table_insert.induct) (auto simp: map_add_def split: option.splits)

lemma table_route_configured:
  assumes "map_of (RoutingTable N routes) ls = Some r"
  shows "r \<in> set routes \<and> nm_labels N (rt_zone r) = ls"
proof -
  have "map_of (map (\<lambda>r. (nm_labels N (rt_zone r), r)) (rev routes)) ls = Some r"
    using assms by (auto simp: RoutingTable_def map_of_table_insert split: option.splits)
  then show ?thesis by (auto dest!: map_of_SomeD)
qed

text \<open>The suffix search, as a recursion on the labels.\<close>

fun suffix_search :: "(string list \<times> 'r) list \<Rightarrow> string list \<Rightarrow> 'r option" where
  "suffix_search t ls =
     (case map_of t ls of
        Some r \<Rightarrow> Some r
      | None \<Rightarrow> if topmost ls then None else suffix_search t (tl ls))"

declare suffix_search.simps [simp del]

lemma match_fuel_search:
  assumes "name_laws N"
  shows "length (nm_labels N z) < fuel \<Longrightarrow>
    match_fuel fuel N t z = Some (suffix_search t (nm_labels N z))"
proof (induction fuel arbitrary: z)
  case 0
  then show ?case by simp
next
  case (Suc fuel)
  show ?case
  proof (cases "nm_parent N z")
    case None
    then show ?thesis
      using parent_None [OF assms, of z] by (auto simp: suffix_search.simps split: option.splits)
  next
    case (Some p)
    have nt: "\<not> topmost (nm_labels N z)" using parent_None [OF assms, of z] Some by simp
    have "match_fuel fuel N t p = Some (suffix_search t (tl (nm_labels N z)))"
      using Suc.IH [of p] Suc.prems parent_shorter [OF assms Some] parent_Some [OF assms Some] by simp
    then show ?thesis
      using Some nt by (auto simp: suffix_search.simps [of t "nm_labels N z"] split: option.splits)
  qed
qed

lemma table_match_eq: "name_laws N \<Longrightarrow> table_match N t z = suffix_search t (nm_labels N z)"
  by (simp add: table_match_def match_fuel_search del: match_fuel.simps)

text \<open>Absolute names: the last label is the empty root label, and no other one is alone at the end.\<close>

definition absolute :: "string list \<Rightarrow> bool" where
  "absolute ls \<longleftrightarrow> ls \<noteq> [] \<and> last ls = ''''"

lemma suffix_search_Some:
  "absolute ls \<Longrightarrow> suffix_search t ls = Some r \<longleftrightarrow>
     (\<exists>k < length ls. map_of t (drop k ls) = Some r \<and> (\<forall>j<k. map_of t (drop j ls) = None))"
proof (induction ls)
  case Nil
  then show ?case by (simp add: absolute_def)
next
  case (Cons l ls)
  show ?case
  proof (cases "map_of t (l # ls)")
    case (Some r')
    then show ?thesis
      by (auto simp: suffix_search.simps [of t "l # ls"] less_Suc_eq_0_disj)
  next
    case None
    show ?thesis
    proof (cases "ls = []")
      case True
      then show ?thesis using None Cons.prems by (simp add: suffix_search.simps absolute_def)
    next
      case False
      then have a: "absolute ls" using Cons.prems by (simp add: absolute_def)
      have "suffix_search t (l # ls) = suffix_search t ls"
        using None False by (simp add: suffix_search.simps [of t "l # ls"])
      then show ?thesis
        unfolding list.size(4) using None Cons.IH [OF a]
        by (simp add: Ex_less_Suc2 All_less_Suc2)
    qed
  qed
qed

text \<open>
  C30: routing a zone returns a route exactly when it is the route configured (last) under the
  longest suffix of the zone's labels that has one; the walk to the parents always ends.
\<close>

theorem table_match_longest_suffix:
  assumes "name_laws N" and "absolute (nm_labels N zone)"
  shows "(table_match N t zone = Some r \<longleftrightarrow>
            (\<exists>k < length (nm_labels N zone). map_of t (drop k (nm_labels N zone)) = Some r
               \<and> (\<forall>j<k. map_of t (drop j (nm_labels N zone)) = None)))
       \<and> match_fuel (Suc (length (nm_labels N zone))) N t zone \<noteq> None"
  using assms
  by (simp add: table_match_eq suffix_search_Some match_fuel_search del: match_fuel.simps)

theorem table_match_longest_suffix_witness:
  "table_match sample_names
     (RoutingTable sample_names
        [\<lparr>rt_zone = [''org'', ''''], rt_provider = 1, rt_record_name = [''x'', '''']\<rparr>,
         \<lparr>rt_zone = [''a'', ''org'', ''''], rt_provider = (2::nat), rt_record_name = [''y'', '''']\<rparr>])
     [''b'', ''A'', ''org'', '''']
   = Some \<lparr>rt_zone = [''a'', ''org'', ''''], rt_provider = 2, rt_record_name = [''y'', '''']\<rparr>"
proof -
  let ?t = "RoutingTable sample_names
        [\<lparr>rt_zone = [''org'', ''''], rt_provider = 1, rt_record_name = [''x'', '''']\<rparr>,
         \<lparr>rt_zone = [''a'', ''org'', ''''], rt_provider = (2::nat), rt_record_name = [''y'', '''']\<rparr>]"
  let ?z = "[''b'', ''A'', ''org'', '''']"
  have a: "absolute (nm_labels sample_names ?z)" by code_simp
  have n: "1 < length (nm_labels sample_names ?z)" by code_simp
  have h: "map_of ?t (drop 1 (nm_labels sample_names ?z))
      = Some \<lparr>rt_zone = [''a'', ''org'', ''''], rt_provider = 2, rt_record_name = [''y'', '''']\<rparr>"
    by code_simp
  have "map_of ?t (drop 0 (nm_labels sample_names ?z)) = None" by code_simp
  then have m: "\<forall>j<1. map_of ?t (drop j (nm_labels sample_names ?z)) = None" by simp
  show ?thesis
    using table_match_longest_suffix [OF sample_name_laws a, of ?t] n h m by blast
qed

section \<open>TXT values\<close>

definition txt_ok :: "string \<Rightarrow> bool" where
  "txt_ok v \<longleftrightarrow> v \<noteq> [] \<and> length v \<le> 255 \<and> (\<forall>c \<in> set v. chr_code c < 128)"

lemma txt_token_Inr:
  "txt_token rd = Inr v \<longleftrightarrow>
     (\<exists>strings. rd = TXT strings \<and> decode_ascii (concat strings) = Some v \<and> txt_ok v)"
  by (auto simp: txt_token_def txt_ok_def MAX_TXT_LEN_def split: rdata.splits option.splits if_splits
      dest: decode_ascii_chars)

lemma txt_tokens_Inr:
  "txt_tokens rds = Inr vs \<longleftrightarrow> list_all2 (\<lambda>rd v. txt_token rd = Inr v) rds vs"
proof (induction rds arbitrary: vs)
  case Nil
  then show ?case by auto
next
  case (Cons rd rds)
  then show ?case by (auto simp: list_all2_Cons1 Cons.IH [symmetric] split: sum.splits)
qed

lemma txt_token_violation: "txt_token rd = Inl e \<Longrightarrow> \<exists>m. e = WriteSurfaceViolation m"
  by (auto simp: txt_token_def split: rdata.splits option.splits if_splits)

lemma txt_tokens_violation: "txt_tokens rds = Inl e \<Longrightarrow> \<exists>m. e = WriteSurfaceViolation m"
  by (induction rds) (auto split: sum.splits dest: txt_token_violation)

lemma normalize_violation:
  "normalize_txt_values rrset a mv = Inl e \<Longrightarrow> \<exists>m. e = WriteSurfaceViolation m"
  by (auto simp: normalize_txt_values_def Let_def split: if_splits dest: txt_tokens_violation)

text \<open>
  Normalisation succeeds exactly when the value count fits the action and the provider and
  every rdata is a TXT whose joined character-strings are 1 to 255 ASCII octets; the values are
  those octets, in order.
\<close>

theorem normalize_txt_values_iff:
  "normalize_txt_values rrset a mv = Inr vs \<longleftrightarrow>
     (rr_rdatas rrset = [] \<longrightarrow> a = CLEANUP)
     \<and> (\<not> mv \<longrightarrow> length (rr_rdatas rrset) \<le> 1)
     \<and> list_all2 (\<lambda>rd v. \<exists>strings. rd = TXT strings \<and> decode_ascii (concat strings) = Some v \<and> txt_ok v)
         (rr_rdatas rrset) vs"
  by (auto simp: normalize_txt_values_def Let_def txt_tokens_Inr txt_token_Inr not_less
      split: if_splits)

theorem normalize_txt_values_iff_witness:
  "normalize_txt_values \<lparr>rr_name = [''a'', ''''], rr_type = 16, rr_deleting = None,
       rr_rdatas = [TXT [[65, 66], [67]]]\<rparr> PRESENT False = Inr [''ABC'']"
proof -
  have d: "decode_ascii (concat [[65, 66], [67]]) = Some ''ABC''" by code_simp
  have t: "txt_ok ''ABC''" by code_simp
  show ?thesis using d t by (subst normalize_txt_values_iff) simp
qed

section \<open>The allowlist\<close>

lemma classify_action_Inr:
  "classify_action rrset = Inr a \<longleftrightarrow>
     (rr_deleting rrset = None \<and> a = PRESENT)
     \<or> (rr_deleting rrset \<in> {Some CLASS_NONE, Some CLASS_ANY} \<and> a = CLEANUP)"
  by (auto simp: classify_action_def split: option.splits if_splits)

lemma validate_violation:
  "validate_write_surface N msg route = Inl e \<Longrightarrow> \<exists>m. e = WriteSurfaceViolation m"
  by (auto simp: validate_write_surface_def classify_action_def
      split: list.splits if_splits option.splits)

lemma validate_write_surface_Inr:
  "validate_write_surface N msg route = Inr (a, rrset) \<longleftrightarrow>
     um_update msg = [rrset] \<and> rr_type rrset = RDTYPE_TXT
     \<and> name_eq N (nm_canonicalize N (rr_name rrset)) (rt_record_name route)
     \<and> classify_action rrset = Inr a"
  by (auto simp: validate_write_surface_def classify_action_def
      split: list.splits if_splits option.splits)

lemma admit_Some:
  "admit N P D msg = Some (route, a, rrset, vs) \<longleftrightarrow>
     (\<exists>z zs. um_zone msg = z # zs \<and> d_routing D (nm_canonicalize N (rr_name z)) = Some route)
     \<and> validate_write_surface N msg route = Inr (a, rrset)
     \<and> normalize_txt_values rrset a (pv_supports_multivalue P (rt_provider route)) = Inr vs"
  by (auto simp: admit_def zone_from_message_def split: list.splits sum.splits option.splits)

text \<open>What a message must look like for its dispatch to reach a provider.\<close>

definition on_write_surface ::
  "'n name_ops \<Rightarrow> ('n \<Rightarrow> ('n, 'p) route option) \<Rightarrow> ('p \<Rightarrow> bool) \<Rightarrow> 'n update_msg \<Rightarrow>
   ('n, 'p) route \<Rightarrow> action \<Rightarrow> 'n rrset \<Rightarrow> string list \<Rightarrow> bool" where
  "on_write_surface N routing multi msg route a rrset vs \<longleftrightarrow>
     (\<exists>z zs. um_zone msg = z # zs \<and> routing (nm_canonicalize N (rr_name z)) = Some route)
     \<and> um_update msg = [rrset] \<and> rr_type rrset = RDTYPE_TXT
     \<and> name_eq N (rr_name rrset) (rt_record_name route)
     \<and> (a = PRESENT \<longleftrightarrow> rr_deleting rrset = None)
     \<and> (a = CLEANUP \<longleftrightarrow> rr_deleting rrset \<in> {Some CLASS_NONE, Some CLASS_ANY})
     \<and> (a = PRESENT \<longrightarrow> vs \<noteq> []) \<and> (\<not> multi (rt_provider route) \<longrightarrow> length vs \<le> 1)
     \<and> (\<forall>v \<in> set vs. txt_ok v)"

lemma admit_on_write_surface:
  assumes "name_laws N" and "admit N P D msg = Some (route, a, rrset, vs)"
  shows "on_write_surface N (d_routing D) (pv_supports_multivalue P) msg route a rrset vs"
proof -
  have vals: "list_all2 (\<lambda>rd v. \<exists>strings. rd = TXT strings \<and> decode_ascii (concat strings) = Some v \<and> txt_ok v)
         (rr_rdatas rrset) vs"
    "rr_rdatas rrset = [] \<longrightarrow> a = CLEANUP"
    "\<not> pv_supports_multivalue P (rt_provider route) \<longrightarrow> length (rr_rdatas rrset) \<le> 1"
    using assms(2) by (simp_all add: admit_Some normalize_txt_values_iff)
  have "length vs = length (rr_rdatas rrset)" using vals(1) by (simp add: list_all2_lengthD)
  moreover have "\<forall>v \<in> set vs. txt_ok v"
    using vals(1) by (auto simp: list_all2_conv_all_nth in_set_conv_nth)
  ultimately show ?thesis
    using assms vals(2,3)
    by (auto simp: on_write_surface_def admit_Some validate_write_surface_Inr classify_action_Inr
        labels_canonicalize)
qed

section \<open>Observing a dispatch\<close>

text \<open>
  The provider operations and the dispatcher's collaborators over a world with a log: each
  provider call and each audit write is appended, nothing else is.
\<close>

datatype 'p devent =
    Called 'p action string string "string list"
  | Audited audit_record

definition with_log :: "('w \<Rightarrow> 'a \<times> 'w) \<Rightarrow> 'e list \<Rightarrow> 'w \<times> 'e list \<Rightarrow> 'a \<times> ('w \<times> 'e list)" where
  "with_log f es wl = (fst (f (fst wl)), (snd (f (fst wl)), snd wl @ es))"

definition spy_ops :: "('p, 'w) provider_ops \<Rightarrow> ('p, 'w \<times> 'p devent list) provider_ops" where
  "spy_ops P =
     \<lparr>pv_type = pv_type P, pv_supports_multivalue = pv_supports_multivalue P,
      pv_supports_delete = pv_supports_delete P,
      pv_present = (\<lambda>p z r v. with_log (pv_present P p z r v) [Called p PRESENT z r v]),
      pv_cleanup = (\<lambda>p z r v. with_log (pv_cleanup P p z r v) [Called p CLEANUP z r v]),
      pv_validate = (\<lambda>p. with_log (pv_validate P p) [])\<rparr>"

definition spy_dispatcher ::
  "('n, 'p, 'w) dispatcher \<Rightarrow> ('n, 'p, 'w \<times> 'p devent list) dispatcher" where
  "spy_dispatcher D =
     \<lparr>d_routing = d_routing D, d_clock = with_log (d_clock D) [],
      d_perf_counter = with_log (d_perf_counter D) [],
      d_audit = map_option (\<lambda>sink rec. with_log (sink rec) [Audited rec]) (d_audit D),
      d_tsig_resolver = d_tsig_resolver D\<rparr>"

abbreviation event_log :: "('w \<times> 'e list) dstate \<Rightarrow> 'e list" where
  "event_log s \<equiv> snd (ds_world s)"

text \<open>The outcome of the provider call of an admitted message.\<close>

definition provider_outcome ::
  "'n name_ops \<Rightarrow> ('p, 'w) provider_ops \<Rightarrow> ('n, 'p, 'w) dispatcher \<Rightarrow> ('n, 'p) route \<Rightarrow> action \<Rightarrow>
   'n rrset \<Rightarrow> string list \<Rightarrow> 'w \<Rightarrow> unit res" where
  "provider_outcome N P D route a rrset vs w =
     fst ((if a = PRESENT then pv_present P else pv_cleanup P) (rt_provider route)
            (nm_to_text N (rt_zone route)) (nm_to_text N (rr_name rrset)) vs
            (snd (d_perf_counter D w)))"

lemma spy_ops_fields [simp]:
  "pv_type (spy_ops P) = pv_type P"
  "pv_supports_multivalue (spy_ops P) = pv_supports_multivalue P"
  "pv_present (spy_ops P) p z r v = with_log (pv_present P p z r v) [Called p PRESENT z r v]"
  "pv_cleanup (spy_ops P) p z r v = with_log (pv_cleanup P p z r v) [Called p CLEANUP z r v]"
  by (simp_all add: spy_ops_def)

lemma spy_dispatcher_fields [simp]:
  "d_routing (spy_dispatcher D) = d_routing D"
  "d_clock (spy_dispatcher D) = with_log (d_clock D) []"
  "d_perf_counter (spy_dispatcher D) = with_log (d_perf_counter D) []"
  "d_audit (spy_dispatcher D) = map_option (\<lambda>sink rec. with_log (sink rec) [Audited rec]) (d_audit D)"
  "d_tsig_resolver (spy_dispatcher D) = d_tsig_resolver D"
  by (simp_all add: spy_dispatcher_def)

lemma with_log_parts [simp]:
  "fst (with_log f es wl) = fst (f (fst wl))"
  "snd (snd (with_log f es wl)) = snd wl @ es"
  "fst (snd (with_log f es wl)) = snd (f (fst wl))"
  by (simp_all add: with_log_def)

lemma admit_spy [simp]: "admit N (spy_ops P) (spy_dispatcher D) msg = admit N P D msg"
  unfolding admit_def spy_ops_fields spy_dispatcher_fields ..

lemma resolve_spy [simp]: "resolve_tsig_key_id (spy_dispatcher D) msg = resolve_tsig_key_id D msg"
  by (simp add: resolve_tsig_key_id_def)

lemma write_audit_log:
  "event_log (write_audit (spy_dispatcher D) rec s) =
     event_log s @ (if d_audit D = None then [] else [Audited rec])"
  by (auto simp: write_audit_def with_log_def split: option.splits sum.splits)

lemma finish_call_log:
  "\<exists>ms. event_log (snd (finish_call N (spy_ops P) (spy_dispatcher D) route a rn src kid t0 ed s)) =
     event_log s @
       (if d_audit D = None then [] else
        [Audited \<lparr>ar_zone = nm_to_text N (rt_zone route), ar_record_name = rn,
            ar_action = action_value a, ar_provider = pv_type P (rt_provider route),
            ar_result = (if ed = None then ''ok'' else ''error''), ar_latency_ms = ms,
            ar_tsig_key_id = kid, ar_source = src, ar_error_detail = ed\<rparr>])"
  by (rule exI [where x = "py_int ((fst (d_perf_counter D (fst (ds_world s))) - t0) * 1000)"],
      cases ed) (simp_all add: finish_call_def write_audit_log call_result_def Let_def with_log_def
      split_beta)

lemma finish_call_answer:
  "fst (finish_call N P D route a rn src kid t0 ed s) = Inr (snd (call_result a ed))"
  by (simp add: finish_call_def Let_def split: prod.splits)

section \<open>A sample deployment\<close>

text \<open>
  One zone, whose provider (a number) accepts a present and fails a cleanup, over the names of
  \<^const>\<open>sample_names\<close>; the witnesses evaluate it.
\<close>

definition sample_ops :: "(nat, unit) provider_ops" where
  "sample_ops =
     \<lparr>pv_type = (\<lambda>p. ''sample''), pv_supports_multivalue = (\<lambda>p. False),
      pv_supports_delete = (\<lambda>p. True),
      pv_present = (\<lambda>p z r v w. (Inr (), w)),
      pv_cleanup = (\<lambda>p z r v w. (Inl (ProviderError ''down''), w)),
      pv_validate = (\<lambda>p w. (Inr (), w))\<rparr>"

definition sample_table :: "(string list, nat) routing_table" where
  "sample_table = RoutingTable sample_names
     [\<lparr>rt_zone = [''a'', ''org'', ''''], rt_provider = 7,
       rt_record_name = [''_acme-challenge'', ''a'', ''org'', '''']\<rparr>]"

definition sample_dispatcher :: "(string list, nat, unit) dispatcher" where
  "sample_dispatcher =
     \<lparr>d_routing = table_match sample_names sample_table,
      d_clock = (\<lambda>w. (0, w)), d_perf_counter = (\<lambda>w. (0, w)), d_audit = None,
      d_tsig_resolver = None\<rparr>"

definition sample_update :: "string list \<Rightarrow> nat option \<Rightarrow> string list update_msg" where
  "sample_update owner deleting =
     \<lparr>um_zone = [\<lparr>rr_name = [''A'', ''org'', ''''], rr_type = 6, rr_deleting = None, rr_rdatas = []\<rparr>],
      um_update = [\<lparr>rr_name = owner, rr_type = 16, rr_deleting = deleting,
        rr_rdatas = [TXT [[65, 66], [67]]]\<rparr>],
      um_keyname = None\<rparr>"

definition sample_owner :: "string list" where
  "sample_owner = [''_ACME-challenge'', ''a'', ''org'', '''']"

definition sample_state :: "'w \<Rightarrow> 'w dstate" where
  "sample_state w = \<lparr>ds_metrics = init_metrics, ds_locks = [], ds_world = w\<rparr>"

text \<open>The answer that the outcome of a provider call gives.\<close>

definition outcome_rcode :: "action \<Rightarrow> unit res \<Rightarrow> rcode res" where
  "outcome_rcode a outcome =
     (case outcome of
        Inr _ \<Rightarrow> Inr NOERROR
      | Inl (ProviderError m) \<Rightarrow> Inr (if a = CLEANUP then NOERROR else SERVFAIL)
      | Inl e \<Rightarrow> Inl e)"

lemma lock_for_world [simp]: "ds_world (lock_for k s) = ds_world s"
  by (simp add: lock_for_def)

lemma lock_for_metrics [simp]: "ds_metrics (lock_for k s) = ds_metrics s"
  by (simp add: lock_for_def)

lemma admit_audit: "admit N P (D\<lparr>d_audit := sink\<rparr>) msg = admit N P D msg"
proof -
  have "d_routing (D\<lparr>d_audit := sink\<rparr>) = d_routing D" by simp
  then show ?thesis unfolding admit_def by (rule arg_cong)
qed

lemma fst_dispatch:
  "fst (dispatch N P D msg src s) =
     (case admit N P D msg of
        None \<Rightarrow> Inr REFUSED
      | Some (route, a, rrset, vs) \<Rightarrow>
          outcome_rcode a (provider_outcome N P D route a rrset vs (ds_world s)))"
  by (auto simp: dispatch_def invoke_provider_def provider_outcome_def finish_call_answer
      call_result_def outcome_rcode_def Let_def
      split: option.splits prod.splits sum.splits exn.splits if_splits)

text \<open>
  C26: the answer of a dispatch. A message that is not admitted is REFUSED and changes nothing;
  otherwise NOERROR when the provider succeeds, SERVFAIL when a present fails with a
  ProviderError, NOERROR when a cleanup fails with one, and any other exception propagates. What
  the audit sink does (write, fail or be absent) never changes the answer.
\<close>

theorem dispatch_answer:
  "fst (dispatch N P D msg src s) =
     (case admit N P D msg of
        None \<Rightarrow> Inr REFUSED
      | Some (route, a, rrset, vs) \<Rightarrow>
          (case provider_outcome N P D route a rrset vs (ds_world s) of
             Inr _ \<Rightarrow> Inr NOERROR
           | Inl (ProviderError m) \<Rightarrow> Inr (if a = CLEANUP then NOERROR else SERVFAIL)
           | Inl e \<Rightarrow> Inl e))
   \<and> (admit N P D msg = None \<longrightarrow> snd (dispatch N P D msg src s) = s)
   \<and> fst (dispatch N P (D\<lparr>d_audit := sink\<rparr>) msg src s) = fst (dispatch N P D msg src s)"
  unfolding fst_dispatch outcome_rcode_def [symmetric] admit_audit
  by (simp add: dispatch_def provider_outcome_def split: option.splits prod.splits)

theorem dispatch_answer_witness:
  "fst (dispatch sample_names sample_ops sample_dispatcher
      (sample_update [''www'', ''a'', ''org'', ''''] None) ''ip'' (sample_state ())) = Inr REFUSED
   \<and> fst (dispatch sample_names sample_ops sample_dispatcher
      (sample_update sample_owner (Some 255)) ''ip'' (sample_state ())) = Inr NOERROR
   \<and> snd (dispatch sample_names sample_ops sample_dispatcher
      (sample_update [''www'', ''a'', ''org'', ''''] None) ''ip'' (sample_state ())) = sample_state ()"
proof -
  have n: "admit sample_names sample_ops sample_dispatcher
      (sample_update [''www'', ''a'', ''org'', ''''] None) = None" by code_simp
  have c: "(case admit sample_names sample_ops sample_dispatcher (sample_update sample_owner (Some 255)) of
        None \<Rightarrow> Inr REFUSED
      | Some (route, a, rrset, vs) \<Rightarrow>
          (case provider_outcome sample_names sample_ops sample_dispatcher route a rrset vs () of
             Inr _ \<Rightarrow> Inr NOERROR
           | Inl (ProviderError m) \<Rightarrow> Inr (if a = CLEANUP then NOERROR else SERVFAIL)
           | Inl e \<Rightarrow> Inl e)) = Inr NOERROR" by code_simp
  have w: "ds_world (sample_state ()) = ()" by (simp add: sample_state_def)
  show ?thesis
    using dispatch_answer [of sample_names sample_ops sample_dispatcher
        "sample_update [''www'', ''a'', ''org'', ''''] None" "''ip''" "sample_state ()" None] n
      dispatch_answer [of sample_names sample_ops sample_dispatcher
        "sample_update sample_owner (Some 255)" "''ip''" "sample_state ()" None] c
    unfolding w by simp
qed

section \<open>What a dispatch does to the world\<close>

text \<open>Dropping the log gives back the dispatch of the code.\<close>

definition unlog :: "('w \<times> 'e list) dstate \<Rightarrow> 'w dstate" where
  "unlog s = \<lparr>ds_metrics = ds_metrics s, ds_locks = ds_locks s, ds_world = fst (ds_world s)\<rparr>"

lemma unlog_sel [simp]:
  "ds_metrics (unlog s) = ds_metrics s" "ds_locks (unlog s) = ds_locks s"
  "ds_world (unlog s) = fst (ds_world s)"
  by (simp_all add: unlog_def)

lemma unlog_upd [simp]:
  "unlog (s\<lparr>ds_world := w\<rparr>) = (unlog s)\<lparr>ds_world := fst w\<rparr>"
  "unlog (s\<lparr>ds_metrics := m\<rparr>) = (unlog s)\<lparr>ds_metrics := m\<rparr>"
  "unlog (s\<lparr>ds_world := w, ds_metrics := m\<rparr>) = (unlog s)\<lparr>ds_world := fst w, ds_metrics := m\<rparr>"
  by (simp_all add: unlog_def)

lemma unlog_lock_for [simp]: "unlog (lock_for k s) = lock_for k (unlog s)"
  by (simp add: lock_for_def unlog_def)

lemma unlog_write_audit [simp]:
  "unlog (write_audit (spy_dispatcher D) rec s) = write_audit D rec (unlog s)"
  by (cases "d_audit D")
     (auto simp: write_audit_def with_log_def split: prod.splits sum.splits)

lemma finish_call_unlog:
  "map_prod id unlog (finish_call N (spy_ops P) (spy_dispatcher D) route a rn src kid t0 ed s)
   = finish_call N P D route a rn src kid t0 ed (unlog s)"
  by (simp add: finish_call_def Let_def split_beta)

lemma invoke_provider_unlog:
  "map_prod id unlog (invoke_provider N (spy_ops P) (spy_dispatcher D) route a rn vs src kid s)
   = invoke_provider N P D route a rn vs src kid (unlog s)"
  by (auto simp: invoke_provider_def Let_def split_beta finish_call_unlog
      split: sum.splits exn.splits)

lemma dispatch_unlog:
  "map_prod id unlog (dispatch N (spy_ops P) (spy_dispatcher D) msg src s)
   = dispatch N P D msg src (unlog s)"
  by (simp add: dispatch_def invoke_provider_unlog split: option.splits prod.splits)

text \<open>The log of one provider call.\<close>

definition audit_rows ::
  "'n name_ops \<Rightarrow> ('p, 'w) provider_ops \<Rightarrow> ('n, 'p, 'w) dispatcher \<Rightarrow> 'n update_msg \<Rightarrow> string \<Rightarrow>
   ('n, 'p) route \<Rightarrow> action \<Rightarrow> 'n rrset \<Rightarrow> unit res \<Rightarrow> int \<Rightarrow> audit_record list" where
  "audit_rows N P D msg src route a rrset outcome ms =
     (let row = (\<lambda>result detail.
            \<lparr>ar_zone = nm_to_text N (rt_zone route), ar_record_name = nm_to_text N (rr_name rrset),
             ar_action = action_value a, ar_provider = pv_type P (rt_provider route),
             ar_result = result, ar_latency_ms = ms, ar_tsig_key_id = resolve_tsig_key_id D msg,
             ar_source = src, ar_error_detail = detail\<rparr>)
      in if d_audit D = None then [] else
         (case outcome of
            Inr _ \<Rightarrow> [row ''ok'' None]
          | Inl (ProviderError m) \<Rightarrow> [row ''error'' (Some m)]
          | Inl e \<Rightarrow> []))"

lemma dispatch_log:
  assumes "admit N P D msg = Some (route, a, rrset, vs)"
  shows "\<exists>ms. event_log (snd (dispatch N (spy_ops P) (spy_dispatcher D) msg src s)) =
     event_log s
     @ [Called (rt_provider route) a (nm_to_text N (rt_zone route)) (nm_to_text N (rr_name rrset)) vs]
     @ map Audited (audit_rows N P D msg src route a rrset
         (provider_outcome N P D route a rrset vs (fst (ds_world s))) ms)"
proof -
  let ?rn = "nm_to_text N (rr_name rrset)"
  let ?kid = "resolve_tsig_key_id D msg"
  let ?t0 = "fst (d_perf_counter D (fst (ds_world s)))"
  define es where "es = event_log s @
    [Called (rt_provider route) a (nm_to_text N (rt_zone route)) ?rn vs]"
  define w' where "w' = snd ((if a = PRESENT then pv_present P else pv_cleanup P)
    (rt_provider route) (nm_to_text N (rt_zone route)) ?rn vs (snd (d_perf_counter D (fst (ds_world s)))))"
  define out where "out = provider_outcome N P D route a rrset vs (fst (ds_world s))"
  define s1 where "s1 = (lock_for (record_key N rrset) s)\<lparr>ds_world := (w', es)\<rparr>"
  let ?fin = "finish_call N (spy_ops P) (spy_dispatcher D) route a ?rn src ?kid ?t0"
  have d: "dispatch N (spy_ops P) (spy_dispatcher D) msg src s =
      (case out of
         Inl (ProviderError m) \<Rightarrow> ?fin (Some m) s1
       | Inl e \<Rightarrow> (Inl e, s1)
       | Inr _ \<Rightarrow> ?fin None s1)"
    using assms unfolding s1_def w'_def es_def out_def
    by (cases a)
       (simp_all add: dispatch_def invoke_provider_def provider_outcome_def Let_def with_log_def
         split_beta split: sum.splits exn.splits)
  have log: "\<exists>ms. event_log (snd (?fin ed s1)) = es @ map Audited (if d_audit D = None then [] else
      [\<lparr>ar_zone = nm_to_text N (rt_zone route), ar_record_name = ?rn, ar_action = action_value a,
        ar_provider = pv_type P (rt_provider route),
        ar_result = (if ed = None then ''ok'' else ''error''), ar_latency_ms = ms,
        ar_tsig_key_id = ?kid, ar_source = src, ar_error_detail = ed\<rparr>])" for ed
    using finish_call_log [of N P D route a ?rn src ?kid ?t0 ed s1]
    by (rule ex_forward) (simp add: s1_def)
  have "\<exists>ms. event_log (snd (dispatch N (spy_ops P) (spy_dispatcher D) msg src s)) =
      es @ map Audited (audit_rows N P D msg src route a rrset out ms)"
  proof (cases "\<exists>e. out = Inl e \<and> (\<forall>m. e \<noteq> ProviderError m)")
    case True
    then show ?thesis by (auto simp: d audit_rows_def s1_def split: exn.splits)
  next
    case False
    then consider "out = Inr ()" | m where "out = Inl (ProviderError m)" by (cases out) auto
    then show ?thesis
    proof cases
      case 1
      from log [of None] show ?thesis by (rule ex_forward) (simp add: 1 d audit_rows_def Let_def)
    next
      case 2
      from log [of "Some m"] show ?thesis by (rule ex_forward) (simp add: 2 d audit_rows_def Let_def)
    qed
  qed
  then show ?thesis by (simp add: es_def out_def)
qed

text \<open>
  C1: the write surface is all that an authenticated client can reach. A dispatch makes at most
  one provider call, and only for a message whose single TXT rrset is owned by the record that
  the matched route permits, with the action its deletion class says and with 1 to 255 ASCII
  characters per value; a message off the write surface leaves metrics, locks and world alone.
\<close>

theorem dispatch_write_surface_safe:
  assumes "name_laws N"
  shows "\<exists>es. event_log (snd (dispatch N (spy_ops P) (spy_dispatcher D) msg src s)) = event_log s @ es
     \<and> (es = [] \<and> snd (dispatch N (spy_ops P) (spy_dispatcher D) msg src s) = s
        \<or> (\<exists>route a rrset vs rows.
             on_write_surface N (d_routing D) (pv_supports_multivalue P) msg route a rrset vs
             \<and> es = Called (rt_provider route) a (nm_to_text N (rt_zone route))
                      (nm_to_text N (rr_name rrset)) vs # map Audited rows))"
proof (cases "admit N P D msg")
  case None
  then show ?thesis by (simp add: dispatch_def)
next
  case (Some x)
  obtain route a rrset vs where x: "x = (route, a, rrset, vs)" by (cases x)
  have "on_write_surface N (d_routing D) (pv_supports_multivalue P) msg route a rrset vs"
    using admit_on_write_surface [OF assms] Some x by blast
  with dispatch_log [of N P D msg route a rrset vs src s] Some x show ?thesis by fastforce
qed

theorem dispatch_write_surface_safe_witness:
  "\<exists>route a rrset vs rows.
     on_write_surface sample_names (d_routing sample_dispatcher) (pv_supports_multivalue sample_ops)
       (sample_update sample_owner None) route a rrset vs
     \<and> [Called 7 PRESENT ''a.org.'' ''_ACME-challenge.a.org.'' [''ABC'']] =
        Called (rt_provider route) a (nm_to_text sample_names (rt_zone route))
          (nm_to_text sample_names (rr_name rrset)) vs # map Audited rows"
proof -
  let ?s = "sample_state ((), []) :: (unit \<times> nat devent list) dstate"
  have e: "event_log (snd (dispatch sample_names (spy_ops sample_ops) (spy_dispatcher sample_dispatcher)
      (sample_update sample_owner None) ''ip'' ?s))
    = [Called 7 PRESENT ''a.org.'' ''_ACME-challenge.a.org.'' [''ABC'']]" by code_simp
  have l: "event_log ?s = []" by (simp add: sample_state_def)
  show ?thesis
    using dispatch_write_surface_safe [OF sample_name_laws, of sample_ops sample_dispatcher
        "sample_update sample_owner None" "''ip''" ?s]
    unfolding e l by auto
qed

text \<open>
  An admitted message whose provider call returns or raises a ProviderError writes exactly
  one audit row, when there is a sink, with the zone, owner, action, provider, key id and source
  of the request and the result and error text of the call; it comes after the provider call. No
  other message writes one.
\<close>

theorem dispatch_audits_once:
  "\<exists>ms. [e \<leftarrow> drop (length (event_log s))
              (event_log (snd (dispatch N (spy_ops P) (spy_dispatcher D) msg src s))).
         case e of Audited _ \<Rightarrow> True | _ \<Rightarrow> False]
     = (case admit N P D msg of
          None \<Rightarrow> []
        | Some (route, a, rrset, vs) \<Rightarrow>
            map Audited (audit_rows N P D msg src route a rrset
              (provider_outcome N P D route a rrset vs (fst (ds_world s))) ms))"
proof (cases "admit N P D msg")
  case None
  then show ?thesis by (simp add: dispatch_def)
next
  case (Some x)
  obtain route a rrset vs where x: "x = (route, a, rrset, vs)" by (cases x)
  obtain ms where "event_log (snd (dispatch N (spy_ops P) (spy_dispatcher D) msg src s)) =
     event_log s
     @ [Called (rt_provider route) a (nm_to_text N (rt_zone route)) (nm_to_text N (rr_name rrset)) vs]
     @ map Audited (audit_rows N P D msg src route a rrset
         (provider_outcome N P D route a rrset vs (fst (ds_world s))) ms)"
    using dispatch_log Some x by blast
  then show ?thesis using Some x by (auto simp: filter_map comp_def)
qed

section \<open>Metrics of a dispatch\<close>

definition outcome_label :: "action \<Rightarrow> unit res \<Rightarrow> string option" where
  "outcome_label a outcome =
     (case outcome of
        Inr _ \<Rightarrow> Some ''ok''
      | Inl (ProviderError m) \<Rightarrow> Some (if a = CLEANUP then ''suppressed'' else ''error'')
      | Inl e \<Rightarrow> None)"

lemma write_audit_metrics:
  "challenges (ds_metrics (write_audit D rec s)) = challenges (ds_metrics s)"
  "tsig_failures (ds_metrics (write_audit D rec s)) = tsig_failures (ds_metrics s)"
  "tsig_badtime (ds_metrics (write_audit D rec s)) = tsig_badtime (ds_metrics s)"
  "zone_last_success (ds_metrics (write_audit D rec s)) = zone_last_success (ds_metrics s)"
  by (auto simp: write_audit_def record_audit_failure_def split: option.splits prod.splits sum.splits)

lemma finish_call_metrics:
  "challenges (ds_metrics (snd (finish_call N P D route a rn src kid t0 ed s))) =
     challenges (record_challenge (pv_type P (rt_provider route)) (action_value a)
       (if ed = None then ''ok'' else if a = CLEANUP then ''suppressed'' else ''error'') (ds_metrics s))"
  "tsig_failures (ds_metrics (snd (finish_call N P D route a rn src kid t0 ed s))) = tsig_failures (ds_metrics s)"
  "tsig_badtime (ds_metrics (snd (finish_call N P D route a rn src kid t0 ed s))) = tsig_badtime (ds_metrics s)"
  by (cases ed; simp add: finish_call_def call_result_def call_metrics_def write_audit_metrics
      metric_defs Let_def split_beta)+

text \<open>
  Every admitted message is counted once, under its provider and action, as ok, as error
  or, for a cleanup failure that is answered NOERROR, as suppressed (not at all when an exception
  that is not a ProviderError escapes); no other message is counted, and the TSIG counters never
  move in the dispatcher.
\<close>

theorem dispatch_counts_once:
  "challenges (ds_metrics (snd (dispatch N P D msg src s))) =
     (case admit N P D msg of
        None \<Rightarrow> challenges (ds_metrics s)
      | Some (route, a, rrset, vs) \<Rightarrow>
          (case outcome_label a (provider_outcome N P D route a rrset vs (ds_world s)) of
             None \<Rightarrow> challenges (ds_metrics s)
           | Some l \<Rightarrow> (challenges (ds_metrics s))
               ((pv_type P (rt_provider route), l, action_value a) :=
                 Suc (challenges (ds_metrics s) (pv_type P (rt_provider route), l, action_value a)))))
   \<and> tsig_failures (ds_metrics (snd (dispatch N P D msg src s))) = tsig_failures (ds_metrics s)
   \<and> tsig_badtime (ds_metrics (snd (dispatch N P D msg src s))) = tsig_badtime (ds_metrics s)"
  by (auto simp: dispatch_def invoke_provider_def provider_outcome_def outcome_label_def
      finish_call_metrics record_challenge_def Let_def
      split: option.splits prod.splits sum.splits exn.splits if_splits)

end
