(* ===== verification/DispatchLocks.thy ===== *)
theory DispatchLocks
  imports Dispatcher
begin

text \<open>
  Concurrent dispatches. \<^verbatim>\<open>Dispatcher.dispatch\<close> runs the provider call under one
  \<^verbatim>\<open>asyncio.Lock\<close> per record owner, so that overlapping challenges for one FQDN queue.
  The first part models the lock of the standard library (acquire, release, the wake-up of the
  first waiter, cancellation of a waiter before and after its wake-up); the second states what a
  client needs of such a lock as the locale \<open>task_lock\<close> and proves the serialisation invariant
  there; the third is the step relation of the dispatcher's tasks.
\<close>

section \<open>asyncio.Lock\<close>

text \<open>
  The state of a waiter's future: pending, its result set, cancelled, or its result set with a
  cancellation of the task pending on top (the future is then done but not cancelled).
\<close>

datatype wstat = Pending | Woken | Cancelled | WokenCancelled

record 't alock =
  al_locked :: bool
  al_waiters :: "('t \<times> wstat) list"

definition fresh_lock :: "'t alock" where
  "fresh_lock = \<lparr>al_locked = False, al_waiters = []\<rparr>"

definition wake_up_first :: "'t alock \<Rightarrow> 't alock" where
  "wake_up_first L =
     (case al_waiters L of
        [] \<Rightarrow> L
      | (t, st) # ws \<Rightarrow> if st = Pending then L\<lparr>al_waiters := (t, Woken) # ws\<rparr> else L)"

definition lock_acquire :: "'t \<Rightarrow> 't alock \<Rightarrow> bool \<times> 't alock" where
  "lock_acquire t L =
     (if \<not> al_locked L \<and> list_all (\<lambda>w. snd w = Cancelled) (al_waiters L)
      then (True, L\<lparr>al_locked := True\<rparr>)
      else (False, L\<lparr>al_waiters := al_waiters L @ [(t, Pending)]\<rparr>))"

definition lock_release :: "'t alock \<Rightarrow> 't alock option" where
  "lock_release L = (if al_locked L then Some (wake_up_first (L\<lparr>al_locked := False\<rparr>)) else None)"

definition request_cancel :: "wstat \<Rightarrow> wstat" where
  "request_cancel st = (case st of Pending \<Rightarrow> Cancelled | Woken \<Rightarrow> WokenCancelled | _ \<Rightarrow> st)"

definition lock_cancel :: "'t \<Rightarrow> 't alock \<Rightarrow> 't alock" where
  "lock_cancel t L =
     L\<lparr>al_waiters := map (\<lambda>(u, st). (u, if u = t then request_cancel st else st)) (al_waiters L)\<rparr>"

text \<open>
  The event loop resumes a waiter whose future is done: it leaves the queue and either takes the
  lock or, when cancelled, passes the wake-up on.
\<close>

definition lock_run :: "'t \<Rightarrow> 't alock \<Rightarrow> (bool \<times> 't alock) option" where
  "lock_run t L =
     (let L' = L\<lparr>al_waiters := filter (\<lambda>w. fst w \<noteq> t) (al_waiters L)\<rparr>
      in case map_of (al_waiters L) t of
           None \<Rightarrow> None
         | Some Pending \<Rightarrow> None
         | Some Woken \<Rightarrow> Some (True, L'\<lparr>al_locked := True\<rparr>)
         | Some _ \<Rightarrow> Some (False, if al_locked L' then L' else wake_up_first L'))"

definition asleep :: "'t \<times> wstat \<Rightarrow> bool" where
  "asleep w \<longleftrightarrow> snd w \<in> {Pending, Cancelled}"

text \<open>Only the head of a free lock's queue has been woken, and it always has.\<close>

definition lock_ok :: "'t alock \<Rightarrow> bool" where
  "lock_ok L \<longleftrightarrow> distinct (map fst (al_waiters L))
     \<and> (if al_locked L then list_all asleep (al_waiters L)
        else (case al_waiters L of [] \<Rightarrow> True | w # ws \<Rightarrow> snd w \<noteq> Pending \<and> list_all asleep ws))"

abbreviation lock_waiting :: "'t alock \<Rightarrow> 't list" where
  "lock_waiting L \<equiv> map fst (al_waiters L)"

section \<open>The interface\<close>

datatype 'j tstate = Waiting 'j | Calling 'j | Finished

text \<open>The tasks inside the critical section of a key, and those that queue for it.\<close>

definition callers :: "('j \<Rightarrow> 'k) \<Rightarrow> ('t \<Rightarrow> 'j tstate option) \<Rightarrow> 'k \<Rightarrow> 't set" where
  "callers key tasks k = {t. \<exists>j. tasks t = Some (Calling j) \<and> key j = k}"

definition queued :: "('j \<Rightarrow> 'k) \<Rightarrow> ('t \<Rightarrow> 'j tstate option) \<Rightarrow> 'k \<Rightarrow> 't set" where
  "queued key tasks k = {t. \<exists>j. tasks t = Some (Waiting j) \<and> key j = k}"

lemma callers_update [simp]:
  "callers key (tasks(t \<mapsto> Calling j)) k =
     (if key j = k then insert t (callers key tasks k) else callers key tasks k - {t})"
  "callers key (tasks(t \<mapsto> Waiting j)) k = callers key tasks k - {t}"
  "callers key (tasks(t \<mapsto> Finished)) k = callers key tasks k - {t}"
  by (auto simp: callers_def)

lemma queued_update [simp]:
  "queued key (tasks(t \<mapsto> Waiting j)) k =
     (if key j = k then insert t (queued key tasks k) else queued key tasks k - {t})"
  "queued key (tasks(t \<mapsto> Calling j)) k = queued key tasks k - {t}"
  "queued key (tasks(t \<mapsto> Finished)) k = queued key tasks k - {t}"
  by (auto simp: queued_def)

lemma task_sets:
  "tasks t = None \<Longrightarrow> t \<notin> callers key tasks k \<and> t \<notin> queued key tasks k"
  "tasks t = Some (Waiting j) \<Longrightarrow> t \<notin> callers key tasks k \<and> (t \<in> queued key tasks k \<longleftrightarrow> key j = k)"
  "tasks t = Some (Calling j) \<Longrightarrow> t \<notin> queued key tasks k \<and> (t \<in> callers key tasks k \<longleftrightarrow> key j = k)"
  by (auto simp: callers_def queued_def)

text \<open>What holds of one key: its lock, the tasks inside and the tasks in the queue.\<close>

definition key_inv ::
  "('l \<Rightarrow> bool) \<Rightarrow> ('l \<Rightarrow> bool) \<Rightarrow> ('l \<Rightarrow> 't list) \<Rightarrow> 'l \<Rightarrow> 't set \<Rightarrow> 't set \<Rightarrow> bool" where
  "key_inv ok locked waiting L C Q \<longleftrightarrow>
     ok L \<and> set (waiting L) = Q \<and> (if locked L then \<exists>t. C = {t} else C = {})"

definition lock_inv ::
  "('l \<Rightarrow> bool) \<Rightarrow> ('l \<Rightarrow> bool) \<Rightarrow> ('l \<Rightarrow> 't list) \<Rightarrow> ('j \<Rightarrow> 'k) \<Rightarrow> ('k \<Rightarrow> 'l) \<Rightarrow>
   ('t \<Rightarrow> 'j tstate option) \<Rightarrow> bool" where
  "lock_inv ok locked waiting key locks tasks \<longleftrightarrow>
     (\<forall>k. key_inv ok locked waiting (locks k) (callers key tasks k) (queued key tasks k))"

locale task_lock =
  fixes fresh :: 'l and ok :: "'l \<Rightarrow> bool" and locked :: "'l \<Rightarrow> bool" and waiting :: "'l \<Rightarrow> 't list"
    and acquire :: "'t \<Rightarrow> 'l \<Rightarrow> bool \<times> 'l" and release :: "'l \<Rightarrow> 'l option"
    and cancel :: "'t \<Rightarrow> 'l \<Rightarrow> 'l" and run :: "'t \<Rightarrow> 'l \<Rightarrow> (bool \<times> 'l) option"
  assumes fresh_ok: "ok fresh" "\<not> locked fresh" "waiting fresh = []"
    and acquire_now: "ok L \<Longrightarrow> acquire t L = (True, L') \<Longrightarrow>
          ok L' \<and> \<not> locked L \<and> locked L' \<and> waiting L' = waiting L"
    and acquire_queue: "ok L \<Longrightarrow> t \<notin> set (waiting L) \<Longrightarrow> acquire t L = (False, L') \<Longrightarrow>
          ok L' \<and> locked L' = locked L \<and> waiting L' = waiting L @ [t]"
    and release_locked: "ok L \<Longrightarrow> locked L \<Longrightarrow>
          \<exists>L'. release L = Some L' \<and> ok L' \<and> \<not> locked L' \<and> waiting L' = waiting L"
    and cancel_keeps: "ok L \<Longrightarrow>
          ok (cancel t L) \<and> locked (cancel t L) = locked L \<and> waiting (cancel t L) = waiting L"
    and run_takes: "ok L \<Longrightarrow> run t L = Some (True, L') \<Longrightarrow>
          ok L' \<and> \<not> locked L \<and> locked L' \<and> waiting L = t # waiting L' \<and> t \<notin> set (waiting L')"
    and run_leaves: "ok L \<Longrightarrow> run t L = Some (False, L') \<Longrightarrow>
          ok L' \<and> locked L' = locked L \<and> t \<in> set (waiting L) \<and> waiting L' = filter (\<lambda>u. u \<noteq> t) (waiting L)"
    and runnable: "ok L \<Longrightarrow> \<not> locked L \<Longrightarrow> waiting L \<noteq> [] \<Longrightarrow> run (hd (waiting L)) L \<noteq> None"
begin

abbreviation inv where "inv \<equiv> lock_inv ok locked waiting"
abbreviation kinv where "kinv \<equiv> key_inv ok locked waiting"

lemma inv_initial: "inv key (\<lambda>_. fresh) (\<lambda>_. None)"
  by (simp add: lock_inv_def key_inv_def fresh_ok callers_def queued_def)

text \<open>One task moves at one key; every other key keeps its lock and its tasks.\<close>

lemma inv_move:
  assumes "inv key locks tasks" and "kinv L' (callers key tasks' k) (queued key tasks' k)"
    and "\<And>k'. k' \<noteq> k \<Longrightarrow> callers key tasks' k' = callers key tasks k' \<and> queued key tasks' k' = queued key tasks k'"
  shows "inv key (locks(k := L')) tasks'"
  using assms unfolding lock_inv_def by simp

lemma inv_key: "inv key locks tasks \<Longrightarrow> kinv (locks k) (callers key tasks k) (queued key tasks k)"
  by (simp add: lock_inv_def)

lemma inv_ok: "inv key locks tasks \<Longrightarrow> ok (locks k)"
  by (simp add: lock_inv_def key_inv_def)

lemma inv_waiting: "inv key locks tasks \<Longrightarrow> set (waiting (locks k)) = queued key tasks k"
  by (simp add: lock_inv_def key_inv_def)

lemma inv_exclusive:
  assumes "inv key locks tasks" and "tasks t = Some (Calling j)" and "tasks t' = Some (Calling j')"
    and "key j = key j'"
  shows "t = t'"
proof -
  have "t \<in> callers key tasks (key j)" "t' \<in> callers key tasks (key j)"
    using assms(2-4) by (auto simp: callers_def)
  then show ?thesis using inv_key [OF assms(1), of "key j"] by (auto simp: key_inv_def split: if_splits)
qed

lemma inv_finished:
  assumes "inv key locks tasks" and "tasks t = None"
  shows "inv key locks (tasks(t \<mapsto> Finished))"
  using assms task_sets(1) [of tasks t key, OF assms(2)] unfolding lock_inv_def by simp

lemma inv_enter:
  assumes i: "inv key locks tasks" and n: "tasks t = None" and a: "acquire t (locks (key j)) = (True, L')"
  shows "inv key (locks(key j := L')) (tasks(t \<mapsto> Calling j))"
proof (rule inv_move [OF i])
  show "kinv L' (callers key (tasks(t \<mapsto> Calling j)) (key j)) (queued key (tasks(t \<mapsto> Calling j)) (key j))"
    using inv_key [OF i, of "key j"] acquire_now [OF inv_ok [OF i] a] task_sets(1) [of tasks t key "key j", OF n]
    by (simp add: key_inv_def)
qed (use task_sets(1) [of tasks t key, OF n] in auto)

lemma inv_queue:
  assumes i: "inv key locks tasks" and n: "tasks t = None" and a: "acquire t (locks (key j)) = (False, L')"
  shows "inv key (locks(key j := L')) (tasks(t \<mapsto> Waiting j))"
proof (rule inv_move [OF i])
  have w: "t \<notin> set (waiting (locks (key j)))" using inv_waiting [OF i] task_sets(1) [of tasks t key, OF n] by simp
  show "kinv L' (callers key (tasks(t \<mapsto> Waiting j)) (key j)) (queued key (tasks(t \<mapsto> Waiting j)) (key j))"
    using inv_key [OF i, of "key j"] acquire_queue [OF inv_ok [OF i] w a] task_sets(1) [of tasks t key "key j", OF n]
    by (simp add: key_inv_def)
qed (use task_sets(1) [of tasks t key, OF n] in auto)

lemma inv_cancel:
  assumes "inv key locks tasks"
  shows "inv key (locks(k := cancel t (locks k))) tasks"
  by (rule inv_move [OF assms])
     (use inv_key [OF assms, of k] cancel_keeps [OF inv_ok [OF assms], of t k] in \<open>auto simp: key_inv_def\<close>)

lemma inv_resume:
  assumes i: "inv key locks tasks" and w: "tasks t = Some (Waiting j)"
    and r: "run t (locks (key j)) = Some (True, L')"
  shows "inv key (locks(key j := L')) (tasks(t \<mapsto> Calling j))"
proof (rule inv_move [OF i])
  show "kinv L' (callers key (tasks(t \<mapsto> Calling j)) (key j)) (queued key (tasks(t \<mapsto> Calling j)) (key j))"
    using inv_key [OF i, of "key j"] run_takes [OF inv_ok [OF i] r] by (auto simp: key_inv_def)
qed (use task_sets(2) [of tasks t j key, OF w] in auto)

lemma inv_leave:
  assumes i: "inv key locks tasks" and w: "tasks t = Some (Waiting j)"
    and r: "run t (locks (key j)) = Some (False, L')"
  shows "inv key (locks(key j := L')) (tasks(t \<mapsto> Finished))"
proof (rule inv_move [OF i])
  show "kinv L' (callers key (tasks(t \<mapsto> Finished)) (key j)) (queued key (tasks(t \<mapsto> Finished)) (key j))"
    using inv_key [OF i, of "key j"] run_leaves [OF inv_ok [OF i] r] task_sets(2) [of tasks t j key "key j", OF w]
    by (auto simp: key_inv_def split: if_splits)
qed (use task_sets(2) [of tasks t j key, OF w] in auto)

lemma inv_release:
  assumes i: "inv key locks tasks" and c: "tasks t = Some (Calling j)"
  shows "\<exists>L'. release (locks (key j)) = Some L' \<and> inv key (locks(key j := L')) (tasks(t \<mapsto> Finished))"
proof -
  have t: "t \<in> callers key tasks (key j)" "t \<notin> queued key tasks (key j)" using task_sets(3) [of tasks t j key, OF c] by auto
  have k: "locked (locks (key j))" "callers key tasks (key j) = {t}"
    using inv_key [OF i, of "key j"] t by (auto simp: key_inv_def split: if_splits)
  obtain L' where L: "release (locks (key j)) = Some L'" "ok L'" "\<not> locked L'"
      "waiting L' = waiting (locks (key j))"
    using release_locked [OF inv_ok [OF i] k(1)] by blast
  have "inv key (locks(key j := L')) (tasks(t \<mapsto> Finished))"
    by (rule inv_move [OF i])
       (use task_sets(3) [of tasks t j key, OF c] L k inv_waiting [OF i, of "key j"] in \<open>auto simp: key_inv_def\<close>)
  with L(1) show ?thesis by blast
qed

lemma inv_not_stuck:
  assumes i: "inv key locks tasks" and w: "tasks t = Some (Waiting j)"
  shows "callers key tasks (key j) \<noteq> {}
       \<or> (\<exists>u \<in> queued key tasks (key j). run u (locks (key j)) \<noteq> None)"
proof (cases "locked (locks (key j))")
  case True
  then show ?thesis using inv_key [OF i, of "key j"] by (auto simp: key_inv_def)
next
  case False
  have "t \<in> set (waiting (locks (key j)))" using inv_waiting [OF i] task_sets(2) [of tasks t j key, OF w] by blast
  then have ne: "waiting (locks (key j)) \<noteq> []" by auto
  then have "hd (waiting (locks (key j))) \<in> queued key tasks (key j)"
    using inv_waiting [OF i, of "key j"] hd_in_set by blast
  then show ?thesis using runnable [OF inv_ok [OF i] False ne] by blast
qed

end

section \<open>The asyncio lock satisfies the interface\<close>

lemma wake_up_first_waiting [simp]: "lock_waiting (wake_up_first L) = lock_waiting L"
  by (auto simp: wake_up_first_def split: list.splits)

lemma wake_up_first_locked [simp]: "al_locked (wake_up_first L) = al_locked L"
  by (auto simp: wake_up_first_def split: list.splits)

lemma asleep_cases: "asleep w \<longleftrightarrow> snd w = Pending \<or> snd w = Cancelled"
  by (simp add: asleep_def)

lemma wake_up_first_ok:
  assumes "distinct (lock_waiting L)" "\<not> al_locked L" "list_all asleep (tl (al_waiters L))"
  shows "lock_ok (wake_up_first L)"
  using assms by (cases "al_waiters L") (auto simp: lock_ok_def wake_up_first_def image_iff)

lemma distinct_filter_fst: "distinct (map fst ws) \<Longrightarrow> distinct (map fst (filter P ws))"
  by (induction ws) auto

lemma map_fst_filter: "map fst (filter (\<lambda>w. fst w \<noteq> t) ws) = filter (\<lambda>u. u \<noteq> t) (map fst ws)"
  by (induction ws) auto

lemma list_all_tl: "list_all P xs \<Longrightarrow> list_all P (tl xs)"
  by (cases xs) auto

lemma lock_ok_asleep_tl: "lock_ok L \<Longrightarrow> list_all asleep (tl (al_waiters L))"
  by (cases "al_waiters L") (auto simp: lock_ok_def split: if_splits)

lemma asleep_tl_filter: "list_all asleep (tl ws) \<Longrightarrow> list_all asleep (tl (filter P ws))"
proof (cases ws)
  case (Cons w ws')
  assume "list_all asleep (tl ws)"
  then have "list_all asleep (filter P ws')" by (simp add: Cons list_all_iff)
  then show ?thesis by (simp add: Cons list_all_tl)
qed simp

lemma lock_acquire_now:
  "lock_ok L \<Longrightarrow> lock_acquire t L = (True, L') \<Longrightarrow>
     lock_ok L' \<and> \<not> al_locked L \<and> al_locked L' \<and> lock_waiting L' = lock_waiting L"
  by (auto simp: lock_acquire_def lock_ok_def asleep_def list_all_iff split: if_splits)

lemma lock_acquire_queue:
  "lock_ok L \<Longrightarrow> t \<notin> set (lock_waiting L) \<Longrightarrow> lock_acquire t L = (False, L') \<Longrightarrow>
     lock_ok L' \<and> al_locked L' = al_locked L \<and> lock_waiting L' = lock_waiting L @ [t]"
  by (cases "al_waiters L") (auto simp: lock_acquire_def lock_ok_def asleep_def split: if_splits)

lemma lock_release_locked:
  assumes "lock_ok L" "al_locked L"
  shows "\<exists>L'. lock_release L = Some L' \<and> lock_ok L' \<and> \<not> al_locked L' \<and> lock_waiting L' = lock_waiting L"
  using assms wake_up_first_ok [of "L\<lparr>al_locked := False\<rparr>"] lock_ok_asleep_tl [OF assms(1)]
  by (simp add: lock_release_def lock_ok_def)

lemma lock_cancel_keeps:
  assumes "lock_ok L"
  shows "lock_ok (lock_cancel t L) \<and> al_locked (lock_cancel t L) = al_locked L
    \<and> lock_waiting (lock_cancel t L) = lock_waiting L"
proof -
  let ?f = "\<lambda>(u, st). (u, if u = t then request_cancel st else st)"
  have f: "fst (?f w) = fst w" "asleep w \<Longrightarrow> asleep (?f w)" "snd w \<noteq> Pending \<Longrightarrow> snd (?f w) \<noteq> Pending" for w
    by (cases w; auto simp: asleep_def request_cancel_def split: wstat.splits)+
  have m: "lock_waiting (lock_cancel t L) = lock_waiting L"
    using f(1) by (simp add: lock_cancel_def)
  have "lock_ok (lock_cancel t L)"
    using assms f unfolding lock_ok_def m
    by (cases "al_waiters L") (auto simp: lock_cancel_def list_all_iff split: if_splits)
  with m show ?thesis by (simp add: lock_cancel_def)
qed

lemma lock_run_takes:
  assumes ok: "lock_ok L" and r: "lock_run t L = Some (True, L')"
  shows "lock_ok L' \<and> \<not> al_locked L \<and> al_locked L' \<and> lock_waiting L = t # lock_waiting L'
    \<and> t \<notin> set (lock_waiting L')"
proof -
  have w: "map_of (al_waiters L) t = Some Woken"
    and L': "L' = L\<lparr>al_waiters := filter (\<lambda>w. fst w \<noteq> t) (al_waiters L), al_locked := True\<rparr>"
    using r by (auto simp: lock_run_def Let_def split: option.splits wstat.splits)
  have i: "(t, Woken) \<in> set (al_waiters L)" using w by (rule map_of_SomeD)
  then obtain v ws where ws: "al_waiters L = v # ws" by (cases "al_waiters L") auto
  have "\<not> al_locked L" "list_all asleep ws" "distinct (fst v # map fst ws)"
    using ok i unfolding lock_ok_def ws by (auto simp: list_all_iff asleep_def split: if_splits)
  moreover from this have "v = (t, Woken)" using i ws by (auto simp: list_all_iff asleep_def)
  moreover from this calculation have "filter (\<lambda>w. fst w \<noteq> t) ws = ws"
    by (auto simp: filter_id_conv image_iff)
  ultimately show ?thesis using L' ws by (auto simp: lock_ok_def)
qed

lemma lock_run_leaves:
  assumes ok: "lock_ok L" and r: "lock_run t L = Some (False, L')"
  shows "lock_ok L' \<and> al_locked L' = al_locked L \<and> t \<in> set (lock_waiting L)
    \<and> lock_waiting L' = filter (\<lambda>u. u \<noteq> t) (lock_waiting L)"
proof -
  let ?F = "L\<lparr>al_waiters := filter (\<lambda>w. fst w \<noteq> t) (al_waiters L)\<rparr>"
  have L': "L' = (if al_locked L then ?F else wake_up_first ?F)" and t: "map_of (al_waiters L) t \<noteq> None"
    using r by (auto simp: lock_run_def Let_def split: option.splits wstat.splits if_splits)
  have d: "distinct (lock_waiting ?F)" using ok by (simp add: lock_ok_def distinct_filter_fst)
  have a: "list_all asleep (tl (al_waiters ?F))"
    using lock_ok_asleep_tl [OF ok] by (simp add: asleep_tl_filter)
  have "lock_ok L'"
    using ok d a wake_up_first_ok [OF d _ a] unfolding L'
    by (auto simp: lock_ok_def list_all_iff)
  with L' t show ?thesis by (auto simp: map_fst_filter map_of_eq_None_iff)
qed

lemma lock_runnable:
  assumes "lock_ok L" "\<not> al_locked L" "lock_waiting L \<noteq> []"
  shows "lock_run (hd (lock_waiting L)) L \<noteq> None"
  using assms by (cases "al_waiters L") (auto simp: lock_ok_def lock_run_def Let_def split: wstat.splits)

interpretation al: task_lock fresh_lock lock_ok al_locked lock_waiting lock_acquire lock_release
  lock_cancel lock_run
proof
  show "lock_ok fresh_lock" "\<not> al_locked fresh_lock" "lock_waiting fresh_lock = []"
    by (simp_all add: fresh_lock_def lock_ok_def)
qed (blast dest: lock_acquire_now lock_acquire_queue lock_release_locked lock_cancel_keeps
      lock_run_takes lock_run_leaves lock_runnable)+

section \<open>The dispatcher's tasks\<close>

text \<open>
  What a task carries past the checks of \<^const>\<open>dispatch\<close>, and the key of its lock. The locks are
  those of \<^verbatim>\<open>Dispatcher._locks\<close>; a key that is not in the dictionary yet stands for a
  fresh lock, which \<^verbatim>\<open>_lock_for\<close> would create.
\<close>

type_synonym ('n, 'p) job = "('n, 'p) route \<times> action \<times> 'n rrset \<times> string list"

definition job_key :: "'n name_ops \<Rightarrow> ('n, 'p) job \<Rightarrow> string" where
  "job_key N j = (case j of (route, action, rrset, values) \<Rightarrow> record_key N rrset)"

record ('n, 'p, 't) tasks_state =
  ts_locks :: "string \<Rightarrow> 't alock"
  ts_tasks :: "'t \<Rightarrow> ('n, 'p) job tstate option"

definition init_tasks :: "('n, 'p, 't) tasks_state" where
  "init_tasks = \<lparr>ts_locks = (\<lambda>_. fresh_lock), ts_tasks = (\<lambda>_. None)\<rparr>"

definition set_task ::
  "string \<Rightarrow> 't alock \<Rightarrow> 't \<Rightarrow> ('n, 'p) job tstate \<Rightarrow> ('n, 'p, 't) tasks_state \<Rightarrow> ('n, 'p, 't) tasks_state" where
  "set_task k L t st s = \<lparr>ts_locks = (ts_locks s)(k := L), ts_tasks = (ts_tasks s)(t \<mapsto> st)\<rparr>"

text \<open>
  The steps between two awaits. A refused message ends at once. An admitted one acquires its
  lock or queues; a task inside the critical section leaves it when its provider call and audit
  write return, raise or are cancelled (\<^verbatim>\<open>async with\<close> releases in each case); a queued
  task may be cancelled and is resumed by the event loop when its future is done.
\<close>

inductive task_step ::
  "'n name_ops \<Rightarrow> ('p, 'w) provider_ops \<Rightarrow> ('n, 'p, 'w) dispatcher \<Rightarrow>
   ('n, 'p, 't) tasks_state \<Rightarrow> ('n, 'p, 't) tasks_state \<Rightarrow> bool"
  for N P D where
  refuse: "ts_tasks s t = None \<Longrightarrow> admit N P D msg = None \<Longrightarrow>
     task_step N P D s (s\<lparr>ts_tasks := (ts_tasks s)(t \<mapsto> Finished)\<rparr>)"
| enter: "ts_tasks s t = None \<Longrightarrow> admit N P D msg = Some j \<Longrightarrow>
     lock_acquire t (ts_locks s (job_key N j)) = (True, L) \<Longrightarrow>
     task_step N P D s (set_task (job_key N j) L t (Calling j) s)"
| enqueue: "ts_tasks s t = None \<Longrightarrow> admit N P D msg = Some j \<Longrightarrow>
     lock_acquire t (ts_locks s (job_key N j)) = (False, L) \<Longrightarrow>
     task_step N P D s (set_task (job_key N j) L t (Waiting j) s)"
| leave: "ts_tasks s t = Some (Calling j) \<Longrightarrow> lock_release (ts_locks s (job_key N j)) = Some L \<Longrightarrow>
     task_step N P D s (set_task (job_key N j) L t Finished s)"
| cancel: "ts_tasks s t = Some (Waiting j) \<Longrightarrow>
     task_step N P D s (s\<lparr>ts_locks := (ts_locks s)(job_key N j := lock_cancel t (ts_locks s (job_key N j)))\<rparr>)"
| resume: "ts_tasks s t = Some (Waiting j) \<Longrightarrow> lock_run t (ts_locks s (job_key N j)) = Some (True, L) \<Longrightarrow>
     task_step N P D s (set_task (job_key N j) L t (Calling j) s)"
| abandon: "ts_tasks s t = Some (Waiting j) \<Longrightarrow> lock_run t (ts_locks s (job_key N j)) = Some (False, L) \<Longrightarrow>
     task_step N P D s (set_task (job_key N j) L t Finished s)"

inductive task_reachable ::
  "'n name_ops \<Rightarrow> ('p, 'w) provider_ops \<Rightarrow> ('n, 'p, 'w) dispatcher \<Rightarrow> ('n, 'p, 't) tasks_state \<Rightarrow> bool"
  for N P D where
  start: "task_reachable N P D init_tasks"
| step: "task_reachable N P D s \<Longrightarrow> task_step N P D s s' \<Longrightarrow> task_reachable N P D s'"

lemma task_step_inv:
  assumes "task_step N P D s s'" and "al.inv (job_key N) (ts_locks s) (ts_tasks s)"
  shows "al.inv (job_key N) (ts_locks s') (ts_tasks s')"
  using assms
proof (induction rule: task_step.induct)
  case (leave s t j L)
  with al.inv_release [OF leave.prems leave.hyps(1)] show ?case by (simp add: set_task_def fun_upd_def)
qed (simp_all add: set_task_def al.inv_finished al.inv_enter al.inv_queue al.inv_cancel al.inv_resume
      al.inv_leave)

lemma task_reachable_inv:
  "task_reachable N P D s \<Longrightarrow> al.inv (job_key N) (ts_locks s) (ts_tasks s)"
  by (induction rule: task_reachable.induct) (simp_all add: init_tasks_def al.inv_initial task_step_inv)

section \<open>Two overlapping challenges\<close>

text \<open>
  Two tasks for one record of \<^const>\<open>sample_dispatcher\<close>, whose owner names differ in case: the
  first is in its provider call, the second waits.
\<close>

definition sample_key_text :: string where "sample_key_text = ''_acme-challenge.a.org.''"

definition sample_job :: "string list \<Rightarrow> (string list, nat) job" where
  "sample_job owner =
     (\<lparr>rt_zone = [''a'', ''org'', ''''], rt_provider = 7,
       rt_record_name = [''_acme-challenge'', ''a'', ''org'', '''']\<rparr>, PRESENT,
      \<lparr>rr_name = owner, rr_type = 16, rr_deleting = None, rr_rdatas = [TXT [[65, 66], [67]]]\<rparr>, [''ABC''])"

definition sample_owner2 :: "string list" where
  "sample_owner2 = [''_acme-Challenge'', ''A'', ''org'', '''']"

definition sample_tasks1 :: "(string list, nat, nat) tasks_state" where
  "sample_tasks1 = set_task sample_key_text \<lparr>al_locked = True, al_waiters = []\<rparr> 1
     (Calling (sample_job sample_owner)) init_tasks"

definition sample_tasks2 :: "(string list, nat, nat) tasks_state" where
  "sample_tasks2 = set_task sample_key_text \<lparr>al_locked = True, al_waiters = [(2, Pending)]\<rparr> 2
     (Waiting (sample_job sample_owner2)) sample_tasks1"

lemma sample_job_admitted:
  "admit sample_names sample_ops sample_dispatcher (sample_update sample_owner None) = Some (sample_job sample_owner)"
  "admit sample_names sample_ops sample_dispatcher (sample_update sample_owner2 None) = Some (sample_job sample_owner2)"
  by code_simp+

lemma sample_job_keys [simp]:
  "job_key sample_names (sample_job sample_owner) = sample_key_text"
  "job_key sample_names (sample_job sample_owner2) = sample_key_text"
  by code_simp+

lemma sample_tasks1_reachable: "task_reachable sample_names sample_ops sample_dispatcher sample_tasks1"
proof -
  have n: "ts_tasks init_tasks (1::nat) = None" by (simp add: init_tasks_def)
  have a: "lock_acquire 1 (ts_locks init_tasks (job_key sample_names (sample_job sample_owner)))
      = (True, \<lparr>al_locked = True, al_waiters = []\<rparr>)"
    by (simp add: init_tasks_def fresh_lock_def lock_acquire_def)
  show ?thesis
    using task_reachable.step [OF task_reachable.start task_step.enter [OF n sample_job_admitted(1) a]]
    by (simp add: sample_tasks1_def)
qed

lemma sample_tasks2_reachable: "task_reachable sample_names sample_ops sample_dispatcher sample_tasks2"
proof -
  have n: "ts_tasks sample_tasks1 2 = None" by (simp add: sample_tasks1_def set_task_def init_tasks_def)
  have a: "lock_acquire 2 (ts_locks sample_tasks1 (job_key sample_names (sample_job sample_owner2)))
      = (False, \<lparr>al_locked = True, al_waiters = [(2, Pending)]\<rparr>)"
    by (simp add: sample_tasks1_def set_task_def lock_acquire_def)
  show ?thesis
    using task_reachable.step [OF sample_tasks1_reachable task_step.enqueue [OF n sample_job_admitted(2) a]]
    by (simp add: sample_tasks2_def)
qed

text \<open>
  C3: overlapping challenges for one record never reach the provider together. In every
  reachable state of any number of tasks, at most one task is inside the provider call of a
  record, where two owner names that differ only in case are the same record.
\<close>

theorem dispatch_serialized_per_record:
  assumes "name_laws N" and "task_reachable N P D s"
    and "ts_tasks s t = Some (Calling (route, a, rrset, vs))"
    and "ts_tasks s t' = Some (Calling (route', a', rrset', vs'))"
    and "name_eq N (rr_name rrset) (rr_name rrset')"
  shows "t = t'"
  by (rule al.inv_exclusive [OF task_reachable_inv [OF assms(2)] assms(3,4)])
     (simp add: job_key_def record_key_def canonical_text_cong [OF assms(1,5)])

theorem dispatch_serialized_per_record_witness:
  "{t. \<exists>route a rrset vs. ts_tasks sample_tasks2 t = Some (Calling (route, a, rrset, vs))
        \<and> name_eq sample_names sample_owner (rr_name rrset)} = {1}"
proof -
  obtain r a q v where j: "sample_job sample_owner = (r, a, q, v)" "rr_name q = sample_owner"
    by (auto simp: sample_job_def)
  have one: "ts_tasks sample_tasks2 1 = Some (Calling (r, a, q, v))"
    using j(1) by (simp add: sample_tasks2_def sample_tasks1_def set_task_def)
  show ?thesis
  proof (intro equalityI subsetI)
    fix t
    assume "t \<in> {t. \<exists>route a rrset vs. ts_tasks sample_tasks2 t = Some (Calling (route, a, rrset, vs))
        \<and> name_eq sample_names sample_owner (rr_name rrset)}"
    then show "t \<in> {1}"
      using dispatch_serialized_per_record [OF sample_name_laws sample_tasks2_reachable one] j(2) by auto
  next
    fix t :: nat
    assume "t \<in> {1}"
    then show "t \<in> {t. \<exists>route a rrset vs. ts_tasks sample_tasks2 t = Some (Calling (route, a, rrset, vs))
        \<and> name_eq sample_names sample_owner (rr_name rrset)}"
      using one j(2) by auto
  qed
qed

text \<open>
  C31: no wake-up is lost, whatever tasks are cancelled: while a task waits for a record, another
  one is inside the record's provider call (and can leave it) or some waiter of the record can
  run. A waiter that takes the lock is the one that has waited longest.
\<close>

theorem dispatch_queue_progress:
  assumes "task_reachable N P D s" and "ts_tasks s t = Some (Waiting j)"
  shows "((\<exists>u j'. ts_tasks s u = Some (Calling j') \<and> job_key N j' = job_key N j
              \<and> lock_release (ts_locks s (job_key N j)) \<noteq> None)
          \<or> (\<exists>u j'. ts_tasks s u = Some (Waiting j') \<and> job_key N j' = job_key N j
              \<and> lock_run u (ts_locks s (job_key N j)) \<noteq> None))
       \<and> (\<forall>u L. lock_run u (ts_locks s (job_key N j)) = Some (True, L)
              \<longrightarrow> hd (lock_waiting (ts_locks s (job_key N j))) = u)"
proof -
  note i = task_reachable_inv [OF assms(1)]
  have f: "\<forall>u L. lock_run u (ts_locks s (job_key N j)) = Some (True, L)
      \<longrightarrow> hd (lock_waiting (ts_locks s (job_key N j))) = u"
    using lock_run_takes [OF al.inv_ok [OF i]] by fastforce
  have "(\<exists>u. u \<in> callers (job_key N) (ts_tasks s) (job_key N j))
      \<or> (\<exists>u \<in> queued (job_key N) (ts_tasks s) (job_key N j). lock_run u (ts_locks s (job_key N j)) \<noteq> None)"
    using al.inv_not_stuck [OF i assms(2)] by blast
  then show ?thesis
  proof
    assume "\<exists>u. u \<in> callers (job_key N) (ts_tasks s) (job_key N j)"
    then obtain u j' where u: "ts_tasks s u = Some (Calling j')" "job_key N j' = job_key N j"
      by (auto simp: callers_def)
    with al.inv_release [OF i u(1)] have "lock_release (ts_locks s (job_key N j)) \<noteq> None" by auto
    with u f show ?thesis by blast
  next
    assume "\<exists>u \<in> queued (job_key N) (ts_tasks s) (job_key N j). lock_run u (ts_locks s (job_key N j)) \<noteq> None"
    with f show ?thesis unfolding queued_def by blast
  qed
qed

theorem dispatch_queue_progress_witness:
  "(\<exists>u j'. ts_tasks sample_tasks2 u = Some (Calling j') \<and> job_key sample_names j' = sample_key_text
      \<and> lock_release (ts_locks sample_tasks2 sample_key_text) \<noteq> None)
   \<or> (\<exists>u j'. ts_tasks sample_tasks2 u = Some (Waiting j') \<and> job_key sample_names j' = sample_key_text
      \<and> lock_run u (ts_locks sample_tasks2 sample_key_text) \<noteq> None)"
proof -
  have w: "ts_tasks sample_tasks2 2 = Some (Waiting (sample_job sample_owner2))"
    by (simp add: sample_tasks2_def set_task_def)
  show ?thesis
    using dispatch_queue_progress [OF sample_tasks2_reachable w] unfolding sample_job_keys by (rule conjunct1)
qed

end
