(* ===== verification/Correlation.thy ===== *)
theory Correlation
  imports Prelude
begin

text \<open>
  \<^verbatim>\<open>correlation.py\<close> and \<^verbatim>\<open>api/correlation_mw.py\<close>: the correlation id bound to the
  running task, the ids minted for a DNS message and for an API request, the log filter, and the
  middleware that accepts a client's id after cleaning it. The context variable is a component of
  the state; the random suffix (\<^verbatim>\<open>secrets.token_hex\<close>) is an argument.
\<close>

section \<open>The context variable\<close>

type_synonym correlation = "string option"

definition UNSET :: string where "UNSET = ''-''"

definition get_correlation_id :: "correlation \<Rightarrow> string option" where
  "get_correlation_id ctx = ctx"

text \<open>\<^verbatim>\<open>ContextVar.set\<close> returns a token that holds the previous value.\<close>

definition set_correlation_id :: "string \<Rightarrow> correlation \<Rightarrow> correlation \<times> correlation" where
  "set_correlation_id value ctx = (ctx, Some value)"

definition reset_correlation_id :: "correlation \<Rightarrow> correlation \<Rightarrow> correlation" where
  "reset_correlation_id token ctx = token"

text \<open>The body runs with the id bound; the variable is restored whether it returns or raises.\<close>

definition correlation_scope ::
  "string \<Rightarrow> (correlation \<Rightarrow> 's \<Rightarrow> 'r res \<times> correlation \<times> 's) \<Rightarrow> correlation \<Rightarrow> 's \<Rightarrow>
   'r res \<times> correlation \<times> 's" where
  "correlation_scope value body ctx s =
     (let (token, ctx1) = set_correlation_id value ctx;
          (r, ctx2, s') = body ctx1 s
      in (r, reset_correlation_id token ctx2, s'))"

text \<open>The filter stamps a log record; an empty id is falsy.\<close>

definition correlation_filter :: "correlation \<Rightarrow> string" where
  "correlation_filter ctx = (case ctx of Some c \<Rightarrow> if c = [] then UNSET else c | None \<Rightarrow> UNSET)"

section \<open>New ids\<close>

text \<open>\<^verbatim>\<open>f"{n:04x}"\<close> for a number below 65536.\<close>

definition hex4 :: "nat \<Rightarrow> string" where
  "hex4 n = [hex_digit (n div 4096 mod 16), hex_digit (n div 256 mod 16),
             hex_digit (n div 16 mod 16), hex_digit (n mod 16)]"

definition new_dns_correlation_id :: "string \<Rightarrow> nat \<Rightarrow> string" where
  "new_dns_correlation_id token request_id =
     ''dns-'' @ hex4 (request_id AND 0xFFFF) @ ''-'' @ token"

definition new_api_correlation_id :: "string \<Rightarrow> string" where
  "new_api_correlation_id token = ''api-'' @ token"

section \<open>The middleware\<close>

definition safe_char :: "char \<Rightarrow> bool" where
  "safe_char c \<longleftrightarrow>
     (let n = chr_code c
      in 65 \<le> n \<and> n \<le> 90 \<or> 97 \<le> n \<and> n \<le> 122 \<or> 48 \<le> n \<and> n \<le> 57
         \<or> c = CHR ''.'' \<or> c = CHR ''_'' \<or> c = CHR ''-'')"

definition MAX_LEN :: nat where "MAX_LEN = 64"

definition INBOUND_HEADERS :: "string list" where
  "INBOUND_HEADERS = [''x-correlation-id'', ''x-request-id'']"

text \<open>Header names and values are octet strings; Latin-1 decoding is the identity on codes.\<close>

fun incoming_correlation_id :: "string \<Rightarrow> (string \<times> string) list \<Rightarrow> string" where
  "incoming_correlation_id token [] = new_api_correlation_id token"
| "incoming_correlation_id token ((name, value) # hs) =
     (let candidate = take MAX_LEN (filter safe_char value)
      in if name \<in> set INBOUND_HEADERS \<and> candidate \<noteq> [] then candidate
         else incoming_correlation_id token hs)"

text \<open>
  The middleware call for a scope of the given type. The wrapped application gets a send function
  that stamps the response start; it is represented by the id it stamps (\<open>None\<close>: not wrapped).
\<close>

definition correlation_middleware ::
  "string \<Rightarrow> string \<Rightarrow> (string \<times> string) list \<Rightarrow>
   (string option \<Rightarrow> correlation \<Rightarrow> 's \<Rightarrow> 'r res \<times> correlation \<times> 's) \<Rightarrow> correlation \<Rightarrow> 's \<Rightarrow>
   'r res \<times> correlation \<times> 's" where
  "correlation_middleware token scope_type headers app ctx s =
     (if scope_type \<noteq> ''http'' then app None ctx s
      else (let cid = incoming_correlation_id token headers;
                (tok, ctx1) = set_correlation_id cid ctx;
                (r, ctx2, s') = app (Some cid) ctx1 s
            in (r, reset_correlation_id tok ctx2, s')))"

section \<open>Properties\<close>

lemma correlation_scope_restores: "fst (snd (correlation_scope v body ctx s)) = ctx"
  by (simp add: correlation_scope_def set_correlation_id_def reset_correlation_id_def split_beta)

definition hex_value :: "char \<Rightarrow> nat" where
  "hex_value c = (if chr_code c < 58 then chr_code c - 48 else chr_code c - 87)"

lemma hex_value_digit: "n < 16 \<Longrightarrow> hex_value (hex_digit n) = n"
  by (auto simp: hex_value_def hex_digit_def of_char_of take_bit_eq_mod)

definition hex4_value :: "string \<Rightarrow> nat" where
  "hex4_value s = foldl (\<lambda>acc c. acc * 16 + hex_value c) 0 s"

lemma hex4_roundtrip: "n < 65536 \<Longrightarrow> hex4_value (hex4 n) = n"
proof -
  assume n: "n < 65536"
  have "n = n div 16 * 16 + n mod 16" by simp
  moreover have "n div 16 = n div 256 * 16 + n div 16 mod 16"
    using div_mult_mod_eq [of "n div 16" 16] by (simp add: div_mult2_eq [symmetric])
  moreover have "n div 256 = n div 4096 * 16 + n div 256 mod 16"
    using div_mult_mod_eq [of "n div 256" 16] by (simp add: div_mult2_eq [symmetric])
  moreover have "n div 4096 < 16" using n by (simp add: div_less_iff_less_mult)
  ultimately show ?thesis by (simp add: hex4_value_def hex4_def hex_value_digit)
qed

text \<open>
  The id of a DNS message carries its 16-bit request id: the four digits after the prefix
  read back as the request id, whatever random suffix follows.
\<close>

theorem dns_correlation_id_traceable:
  assumes "request_id < 65536"
  shows "hex4_value (take 4 (drop 4 (new_dns_correlation_id token request_id))) = request_id"
proof -
  have m: "request_id AND 0xFFFF = request_id"
    using assms take_bit_eq_mask [of 16 request_id] by (simp add: mask_eq_exp_minus_1 take_bit_eq_mod)
  have l: "length (hex4 n) = 4" for n by (simp add: hex4_def)
  show ?thesis using assms l by (simp add: new_dns_correlation_id_def m hex4_roundtrip)
qed

theorem dns_correlation_id_traceable_witness:
  "hex4_value (take 4 (drop 4 (new_dns_correlation_id ''00ff00ff'' 48879))) = 48879"
  using dns_correlation_id_traceable [of 48879] by simp

lemma take_filter_all: "list_all P (take n (filter P xs))"
  by (auto simp: list_all_iff dest: in_set_takeD)

lemma api_prefix_safe: "list_all safe_char ''api-''"
  by code_simp

text \<open>
  Whatever headers a client sends, the id that is bound, logged and echoed is non-empty, at
  most 64 characters long and made of letters, digits, dot, underscore and dash only, so it can
  carry no line break into the log.
\<close>

theorem incoming_correlation_id_safe:
  assumes "list_all safe_char token" and "length token \<le> 60"
  shows "list_all safe_char (incoming_correlation_id token hs)
       \<and> incoming_correlation_id token hs \<noteq> [] \<and> length (incoming_correlation_id token hs) \<le> 64"
  using assms
proof (induction token hs rule: incoming_correlation_id.induct)
  case (1 token)
  have "list_all safe_char (new_api_correlation_id token)"
    unfolding new_api_correlation_id_def list_all_append using api_prefix_safe 1(1) by (rule conjI)
  then show ?case using 1(2) by (simp add: new_api_correlation_id_def)
next
  case (2 token name v hs)
  then show ?case by (simp add: Let_def MAX_LEN_def take_filter_all)
qed

theorem incoming_correlation_id_safe_witness:
  "length (incoming_correlation_id ''00ff'' [(''x-request-id'', ''a b'')]) \<le> 64"
proof -
  have t: "list_all safe_char ''00ff''" by code_simp
  show ?thesis using incoming_correlation_id_safe [OF t, of "[(''x-request-id'', ''a b'')]"] by simp
qed

end
