(* ===== verification/Protocol.thy ===== *)
theory Protocol
  imports Dispatcher Correlation
begin

text \<open>
  \<^verbatim>\<open>data_plane/protocol.py\<close>: one DNS message from wire to wire. dnspython is not part of
  the repository: its wire parser is the record \<open>wire_parser\<close>, its messages and
  \<^verbatim>\<open>from_wire\<close> (which verifies TSIG) are the record \<open>dns_lib\<close>, both arguments of the
  definitions; the outcomes of \<^verbatim>\<open>from_wire\<close> are the exception classes the pipeline tells
  apart. The dispatcher is an argument too, as in the code; the locale \<open>challenge_dispatcher\<close> states
  what the pipeline relies on and is interpreted on \<^const>\<open>dispatch\<close>.
\<close>

section \<open>Reading the TSIG context from the wire\<close>

record 'n tsig_wire =
  tw_id :: nat
  tw_opcode :: nat
  tw_keyname :: "'n option"
  tw_mac :: "bytes option"

text \<open>
  \<^verbatim>\<open>dns.wire.Parser\<close>: a read returns the value and the advanced parser or raises.
  \<open>wp_rdata\<close> is \<^verbatim>\<open>dns.rdata.from_wire_parser\<close>, with the MAC when the result is a TSIG rdata.
\<close>

record ('n, 'q) wire_parser =
  wp_start :: "bytes \<Rightarrow> 'q"
  wp_get_bytes :: "nat \<Rightarrow> 'q \<Rightarrow> (bytes \<times> 'q) res"
  wp_get_name :: "'q \<Rightarrow> ('n \<times> 'q) res"
  wp_get_HH :: "'q \<Rightarrow> ((nat \<times> nat) \<times> 'q) res"
  wp_get_HHIH :: "'q \<Rightarrow> ((nat \<times> nat \<times> nat \<times> nat) \<times> 'q) res"
  wp_restrict_to :: "nat \<Rightarrow> ('q \<Rightarrow> (bytes option \<times> 'q) res) \<Rightarrow> 'q \<Rightarrow> (bytes option \<times> 'q) res"
  wp_rdata :: "nat \<Rightarrow> nat \<Rightarrow> 'q \<Rightarrow> (bytes option \<times> 'q) res"

definition bind_res :: "'a res \<Rightarrow> ('a \<Rightarrow> 'b res) \<Rightarrow> 'b res" where
  "bind_res r f = (case r of Inl e \<Rightarrow> Inl e | Inr x \<Rightarrow> f x)"

abbreviation RDTYPE_TSIG :: nat where "RDTYPE_TSIG \<equiv> 250"

definition unpack_HHHHHH :: "bytes \<Rightarrow> (nat \<times> nat \<times> nat \<times> nat \<times> nat \<times> nat) res" where
  "unpack_HHHHHH bs =
     (case bs of
        [a, b, c, d, e, f, g, h, i, j, k, l] \<Rightarrow>
          Inr (unpack_H a b, unpack_H c d, unpack_H e f, unpack_H g h, unpack_H i j, unpack_H k l)
      | _ \<Rightarrow> Inl (StructError ''unpack requires a buffer of 12 bytes''))"

fun skip_questions :: "('n, 'q) wire_parser \<Rightarrow> nat \<Rightarrow> 'q \<Rightarrow> 'q res" where
  "skip_questions W 0 p = Inr p"
| "skip_questions W (Suc n) p =
     bind_res (wp_get_name W p) (\<lambda>(_, p1).
     bind_res (wp_get_HH W p1) (\<lambda>(_, p2). skip_questions W n p2))"

definition record_body ::
  "('n, 'q) wire_parser \<Rightarrow> nat \<Rightarrow> nat \<Rightarrow> nat \<Rightarrow> 'q \<Rightarrow> (bytes option \<times> 'q) res" where
  "record_body W rdtype rdclass rdlen p =
     (if rdtype = RDTYPE_TSIG then wp_rdata W rdclass rdtype p
      else bind_res (wp_get_bytes W rdlen p) (\<lambda>(_, p'). Inr (None, p')))"

fun scan_records ::
  "('n, 'q) wire_parser \<Rightarrow> nat \<Rightarrow> 'n option \<Rightarrow> bytes option \<Rightarrow> 'q \<Rightarrow> ('n option \<times> bytes option) res" where
  "scan_records W 0 keyname mac p = Inr (keyname, mac)"
| "scan_records W (Suc n) keyname mac p =
     bind_res (wp_get_name W p) (\<lambda>(name, p1).
     bind_res (wp_get_HHIH W p1) (\<lambda>((rdtype, rdclass, ttl, rdlen), p2).
     bind_res (wp_restrict_to W rdlen (record_body W rdtype rdclass rdlen) p2) (\<lambda>(found, p3).
       case found of
         Some m \<Rightarrow> scan_records W n (Some name) (Some m) p3
       | None \<Rightarrow> scan_records W n keyname mac p3)))"

definition parse_tsig_context :: "('n, 'q) wire_parser \<Rightarrow> bytes \<Rightarrow> 'n tsig_wire res" where
  "parse_tsig_context W wire =
     bind_res (wp_get_bytes W 12 (wp_start W wire)) (\<lambda>(header, _).
     bind_res (unpack_HHHHHH header) (\<lambda>(msg_id, flags, qd, an, ns, ar).
     bind_res (wp_get_bytes W 12 (wp_start W wire)) (\<lambda>(_, p).
     bind_res (skip_questions W qd p) (\<lambda>p1.
     bind_res (scan_records W (an + ns + ar) None None p1) (\<lambda>(keyname, mac).
       Inr \<lparr>tw_id = msg_id, tw_opcode = drop_bit 11 flags AND 0xF, tw_keyname = keyname, tw_mac = mac\<rparr>)))))"

text \<open>\<^verbatim>\<open>except (DNSException, struct.error, ValueError, IndexError)\<close>.\<close>

definition unparseable :: "exn \<Rightarrow> bool" where
  "unparseable e =
     (case e of
        DNSException _ \<Rightarrow> True | StructError _ \<Rightarrow> True | ValueError _ \<Rightarrow> True | UnicodeError _ \<Rightarrow> True
      | IndexError _ \<Rightarrow> True | _ \<Rightarrow> False)"

definition extract_tsig_context :: "('n, 'q) wire_parser \<Rightarrow> bytes \<Rightarrow> 'n tsig_wire option res" where
  "extract_tsig_context W wire =
     (case parse_tsig_context W wire of
        Inr ctx \<Rightarrow> Inr (Some ctx)
      | Inl e \<Rightarrow> if unparseable e then Inr None else Inl e)"

section \<open>Replies\<close>

datatype wire_exn =
    UnknownTSIGKey | BadSignature | BadTime | BadKey | BadAlgorithm | BadMessage | Escapes exn

type_synonym 'k keys = "(string list \<times> 'k) list"

text \<open>
  The message operations of dnspython. \<open>dl_set_flags_qr\<close> is the assignment
  \<^verbatim>\<open>response.flags = dns.flags.QR\<close>; \<open>dl_use_tsig\<close> takes key, fudge, original id and error.
\<close>

record ('n, 'k, 'm, 'r, 'w) dns_lib =
  dl_from_wire :: "bytes \<Rightarrow> 'k keys \<Rightarrow> 'w \<Rightarrow> (wire_exn + 'm) \<times> 'w"
  dl_had_tsig :: "'m \<Rightarrow> bool"
  dl_opcode :: "'m \<Rightarrow> nat"
  dl_update :: "'m \<Rightarrow> 'n update_msg option"
  dl_make_response :: "'m \<Rightarrow> 'r"
  dl_query_message :: "nat \<Rightarrow> 'r"
  dl_set_flags_qr :: "'r \<Rightarrow> 'r"
  dl_set_opcode :: "nat \<Rightarrow> 'r \<Rightarrow> 'r"
  dl_set_rcode :: "rcode \<Rightarrow> 'r \<Rightarrow> 'r"
  dl_use_tsig :: "'k \<Rightarrow> nat \<Rightarrow> nat \<Rightarrow> nat \<Rightarrow> 'r \<Rightarrow> 'r"
  dl_set_request_mac :: "bytes \<Rightarrow> 'r \<Rightarrow> 'r"
  dl_to_wire :: "'r \<Rightarrow> 'w \<Rightarrow> bytes res \<times> 'w"

abbreviation BADSIG :: nat where "BADSIG \<equiv> 16"
abbreviation BADKEY :: nat where "BADKEY \<equiv> 17"
abbreviation BADTIME :: nat where "BADTIME \<equiv> 18"
abbreviation OPCODE_UPDATE :: nat where "OPCODE_UPDATE \<equiv> 5"

type_synonym 'w answer = "bytes option res \<times> 'w dstate"

text \<open>\<^verbatim>\<open>response.to_wire()\<close>; signing reads the clock.\<close>

definition send_wire :: "('n, 'k, 'm, 'r, 'w) dns_lib \<Rightarrow> 'r \<Rightarrow> 'w dstate \<Rightarrow> 'w answer" where
  "send_wire L r s =
     (case dl_to_wire L r (ds_world s) of
        (Inr b, w) \<Rightarrow> (Inr (Some b), s\<lparr>ds_world := w\<rparr>)
      | (Inl e, w) \<Rightarrow> (Inl e, s\<lparr>ds_world := w\<rparr>))"

definition reply_from_ctx :: "('n, 'k, 'm, 'r, 'w) dns_lib \<Rightarrow> 'n tsig_wire \<Rightarrow> rcode \<Rightarrow> 'r" where
  "reply_from_ctx L ctx rcode =
     dl_set_rcode L rcode
       (dl_set_opcode L (tw_opcode ctx) (dl_set_flags_qr L (dl_query_message L (tw_id ctx))))"

definition plain_error_reply ::
  "('n, 'q) wire_parser \<Rightarrow> ('n, 'k, 'm, 'r, 'w) dns_lib \<Rightarrow> bytes \<Rightarrow> rcode \<Rightarrow> 'w dstate \<Rightarrow> 'w answer" where
  "plain_error_reply W L wire rcode s =
     (case extract_tsig_context W wire of
        Inl e \<Rightarrow> (Inl e, s)
      | Inr None \<Rightarrow> (Inr None, s)
      | Inr (Some ctx) \<Rightarrow> send_wire L (reply_from_ctx L ctx rcode) s)"

text \<open>The response \<^verbatim>\<open>_signed_error_reply\<close> builds from a recovered context.\<close>

definition signed_error_response ::
  "'n name_ops \<Rightarrow> ('n, 'k, 'm, 'r, 'w) dns_lib \<Rightarrow> 'k keys \<Rightarrow> rcode \<Rightarrow> nat \<Rightarrow> 'n tsig_wire \<Rightarrow> 'r" where
  "signed_error_response N L keyring rcode tsig_error ctx =
     (case (tw_keyname ctx, tw_mac ctx) of
        (Some keyname, Some mac) \<Rightarrow>
          (case map_of keyring (nm_labels N keyname) of
             None \<Rightarrow> reply_from_ctx L ctx rcode
           | Some key \<Rightarrow>
               dl_set_request_mac L mac
                 (dl_use_tsig L key 300 (tw_id ctx) tsig_error (reply_from_ctx L ctx rcode)))
      | _ \<Rightarrow> reply_from_ctx L ctx rcode)"

definition signed_error_reply ::
  "'n name_ops \<Rightarrow> ('n, 'q) wire_parser \<Rightarrow> ('n, 'k, 'm, 'r, 'w) dns_lib \<Rightarrow> bytes \<Rightarrow> 'k keys \<Rightarrow> rcode \<Rightarrow>
   nat \<Rightarrow> 'w dstate \<Rightarrow> 'w answer" where
  "signed_error_reply N W L wire keyring rcode tsig_error s =
     (case extract_tsig_context W wire of
        Inl e \<Rightarrow> (Inl e, s)
      | Inr None \<Rightarrow> (Inr None, s)
      | Inr (Some ctx) \<Rightarrow> send_wire L (signed_error_response N L keyring rcode tsig_error ctx) s)"

definition reply :: "('n, 'k, 'm, 'r, 'w) dns_lib \<Rightarrow> 'm \<Rightarrow> rcode \<Rightarrow> 'w dstate \<Rightarrow> 'w answer" where
  "reply L query rcode s = send_wire L (dl_set_rcode L rcode (dl_make_response L query)) s"

section \<open>The pipeline\<close>

type_synonym ('n, 'w) dispatch_fn = "'n update_msg \<Rightarrow> string \<Rightarrow> 'w dstate \<Rightarrow> rcode res \<times> 'w dstate"

definition count_tsig :: "string \<Rightarrow> 'w dstate \<Rightarrow> 'w dstate" where
  "count_tsig reason s = s\<lparr>ds_metrics := record_tsig_failure reason (ds_metrics s)\<rparr>"

definition process_query ::
  "'n name_ops \<Rightarrow> ('n, 'q) wire_parser \<Rightarrow> ('n, 'k, 'm, 'r, 'w) dns_lib \<Rightarrow> ('n, 'w) dispatch_fn \<Rightarrow>
   bytes \<Rightarrow> 'k keys \<Rightarrow> string \<Rightarrow> 'w dstate \<Rightarrow> 'w answer" where
  "process_query N W L disp wire keyring source s0 =
     (let (parsed, w) = dl_from_wire L wire keyring (ds_world s0); s = s0\<lparr>ds_world := w\<rparr>
      in case parsed of
           Inl UnknownTSIGKey \<Rightarrow> plain_error_reply W L wire NOTAUTH (count_tsig TSIG_UNKNOWNKEY s)
         | Inl BadSignature \<Rightarrow>
             signed_error_reply N W L wire keyring NOTAUTH BADSIG (count_tsig TSIG_BADSIG s)
         | Inl BadTime \<Rightarrow>
             signed_error_reply N W L wire keyring NOTAUTH BADTIME (count_tsig TSIG_BADTIME s)
         | Inl BadKey \<Rightarrow>
             signed_error_reply N W L wire keyring NOTAUTH BADKEY (count_tsig TSIG_BADKEY s)
         | Inl BadAlgorithm \<Rightarrow>
             signed_error_reply N W L wire keyring NOTAUTH BADKEY (count_tsig TSIG_BADKEY s)
         | Inl BadMessage \<Rightarrow> (Inr None, s)
         | Inl (Escapes e) \<Rightarrow> (Inl e, s)
         | Inr msg \<Rightarrow>
             if \<not> dl_had_tsig L msg then reply L msg NOTAUTH (count_tsig TSIG_ABSENT s)
             else if dl_opcode L msg \<noteq> OPCODE_UPDATE then reply L msg REFUSED s
             else (case dl_update L msg of
                     None \<Rightarrow> (Inl (OtherError ''AssertionError''), s)
                   | Some um \<Rightarrow>
                       (case disp um source s of
                          (Inl e, s') \<Rightarrow> (Inl e, s')
                        | (Inr rcode, s') \<Rightarrow> reply L msg rcode s')))"

definition handle_query ::
  "'n name_ops \<Rightarrow> ('n, 'q) wire_parser \<Rightarrow> ('n, 'k, 'm, 'r, 'w) dns_lib \<Rightarrow> ('n, 'w) dispatch_fn \<Rightarrow>
   string \<Rightarrow> bytes \<Rightarrow> 'k keys \<Rightarrow> string \<Rightarrow> correlation \<Rightarrow> 'w dstate \<Rightarrow>
   bytes option res \<times> correlation \<times> 'w dstate" where
  "handle_query N W L disp token wire keyring source ctx s =
     (let request_id = (case wire of hi # lo # _ \<Rightarrow> unpack_H hi lo | _ \<Rightarrow> 0)
      in correlation_scope (new_dns_correlation_id token request_id)
           (\<lambda>ctx' s'. let (r, s'') = process_query N W L disp wire keyring source s' in (r, ctx', s''))
           ctx s)"

section \<open>The auth gate\<close>

definition verified_update :: "('n, 'k, 'm, 'r, 'w) dns_lib \<Rightarrow> wire_exn + 'm \<Rightarrow> bool" where
  "verified_update L parsed \<longleftrightarrow>
     (case parsed of Inr m \<Rightarrow> dl_had_tsig L m \<and> dl_opcode L m = OPCODE_UPDATE | Inl _ \<Rightarrow> False)"

lemma send_wire_keeps [simp]:
  "ds_metrics (snd (send_wire L r s)) = ds_metrics s" "ds_locks (snd (send_wire L r s)) = ds_locks s"
  by (auto simp: send_wire_def split: prod.splits sum.splits)

lemma error_reply_keeps [simp]:
  "ds_metrics (snd (plain_error_reply W L wire rc s)) = ds_metrics s"
  "ds_locks (snd (plain_error_reply W L wire rc s)) = ds_locks s"
  "ds_metrics (snd (signed_error_reply N W L wire kr rc err s)) = ds_metrics s"
  "ds_locks (snd (signed_error_reply N W L wire kr rc err s)) = ds_locks s"
  by (auto simp: plain_error_reply_def signed_error_reply_def split: sum.splits option.splits)

lemma reply_keeps [simp]:
  "ds_metrics (snd (reply L m rc s)) = ds_metrics s" "ds_locks (snd (reply L m rc s)) = ds_locks s"
  by (simp_all add: reply_def)

lemma count_tsig_keeps [simp]:
  "challenges (ds_metrics (count_tsig reason s)) = challenges (ds_metrics s)"
  "ds_locks (count_tsig reason s) = ds_locks s"
  by (simp_all add: count_tsig_def record_tsig_failure_def Let_def)

lemma count_tsig_failures:
  "tsig_failures (ds_metrics (count_tsig r s)) =
     (tsig_failures (ds_metrics s))(r := Suc (tsig_failures (ds_metrics s) r))"
  by (simp add: count_tsig_def record_tsig_failure_def Let_def)

lemma reply_Inr:
  "fst (reply L m rc s) = Inr (Some b) \<Longrightarrow>
     fst (dl_to_wire L (dl_set_rcode L rc (dl_make_response L m)) (ds_world s)) = Inr b"
  by (auto simp: reply_def send_wire_def split: prod.splits sum.splits)

lemma handle_query_eq:
  "handle_query N W L disp token wire kr src ctx s =
     (fst (process_query N W L disp wire kr src s), ctx, snd (process_query N W L disp wire kr src s))"
  by (simp add: handle_query_def correlation_scope_def set_correlation_id_def reset_correlation_id_def
      Let_def split_beta)

text \<open>
  C2: the auth gate. Unless \<^verbatim>\<open>from_wire\<close> accepts the message, it carries a verified
  TSIG and it is an UPDATE, the dispatcher is not called: whatever the dispatcher would do, the
  answer and the state are the same, no challenge is counted and no lock is created.
\<close>

theorem unverified_never_dispatched:
  assumes "\<not> verified_update L (fst (dl_from_wire L wire kr (ds_world s)))"
  shows "handle_query N W L disp token wire kr src ctx s = handle_query N W L disp' token wire kr src ctx s
       \<and> challenges (ds_metrics (snd (snd (handle_query N W L disp token wire kr src ctx s))))
           = challenges (ds_metrics s)
       \<and> ds_locks (snd (snd (handle_query N W L disp token wire kr src ctx s))) = ds_locks s"
  using assms unfolding handle_query_eq
  by (auto simp: process_query_def verified_update_def Let_def split_beta
      split: sum.splits wire_exn.splits)

section \<open>TSIG failures\<close>

text \<open>The metric reason and, when the reply is to be signed, the TSIG error of a failure.\<close>

definition tsig_failure :: "wire_exn \<Rightarrow> (string \<times> nat option) option" where
  "tsig_failure x =
     (case x of
        UnknownTSIGKey \<Rightarrow> Some (TSIG_UNKNOWNKEY, None)
      | BadSignature \<Rightarrow> Some (TSIG_BADSIG, Some 16)
      | BadTime \<Rightarrow> Some (TSIG_BADTIME, Some 18)
      | BadKey \<Rightarrow> Some (TSIG_BADKEY, Some 17)
      | BadAlgorithm \<Rightarrow> Some (TSIG_BADKEY, Some 17)
      | _ \<Rightarrow> None)"

text \<open>What a response says on the wire, as dnspython documents its setters.\<close>

record 'k response_view =
  rv_id :: nat
  rv_qr :: bool
  rv_opcode :: nat
  rv_rcode :: rcode
  rv_tsig :: "('k \<times> nat \<times> nat \<times> nat) option"
  rv_request_mac :: bytes

definition reply_laws ::
  "('n, 'k, 'm, 'r, 'w) dns_lib \<Rightarrow> ('r \<Rightarrow> 'k response_view) \<Rightarrow> bool" where
  "reply_laws L v \<longleftrightarrow>
     (\<forall>i. rv_id (v (dl_query_message L i)) = i \<and> rv_tsig (v (dl_query_message L i)) = None
        \<and> rv_request_mac (v (dl_query_message L i)) = [])
     \<and> (\<forall>r. v (dl_set_flags_qr L r) = (v r)\<lparr>rv_qr := True, rv_opcode := 0, rv_rcode := NOERROR\<rparr>)
     \<and> (\<forall>r c. c < 16 \<longrightarrow> v (dl_set_opcode L c r) = (v r)\<lparr>rv_opcode := c\<rparr>)
     \<and> (\<forall>r c. v (dl_set_rcode L c r) = (v r)\<lparr>rv_rcode := c\<rparr>)
     \<and> (\<forall>r k f i e. v (dl_use_tsig L k f i e r) = (v r)\<lparr>rv_tsig := Some (k, f, i, e)\<rparr>)
     \<and> (\<forall>r m. v (dl_set_request_mac L m r) = (v r)\<lparr>rv_request_mac := m\<rparr>)"

text \<open>Reading at the start of a message returns its first octets.\<close>

definition reads_header :: "('n, 'q) wire_parser \<Rightarrow> bool" where
  "reads_header W \<longleftrightarrow>
     (\<forall>wire b p. wp_get_bytes W 12 (wp_start W wire) = Inr (b, p) \<longrightarrow> b = take 12 wire)"

lemma bind_res_Inr: "bind_res r f = Inr y \<longleftrightarrow> (\<exists>x. r = Inr x \<and> f x = Inr y)"
  by (cases r) (simp_all add: bind_res_def)

lemma and_mask4: "(x::nat) AND 15 = x mod 16"
  using take_bit_eq_mask [of 4 x] by (simp add: mask_eq_exp_minus_1 take_bit_eq_mod)

lemma opcode_of_flags:
  "drop_bit 11 (unpack_H f1 f2) AND 0xF = unat f1 div 8 mod 16"
proof -
  have b: "unat f2 < 256" using unsigned_less [of f2, where ?'a = nat] by simp
  have "unpack_H f1 f2 div 256 = unat f1" using b by (simp add: unpack_H_def)
  then have "unpack_H f1 f2 div 256 div 8 = unat f1 div 8" by simp
  then have "unpack_H f1 f2 div 2048 = unat f1 div 8" by (simp add: div_mult2_eq [symmetric])
  then show ?thesis by (simp add: and_mask4 drop_bit_eq_div)
qed

lemma unpack_HHHHHH_header:
  assumes "unpack_HHHHHH (take 12 wire) = Inr (msg_id, flags, counts)"
  shows "\<exists>a b c d rest. wire = a # b # c # d # rest \<and> msg_id = unpack_H a b \<and> flags = unpack_H c d"
proof -
  obtain a b c d rest where t: "take 12 wire = a # b # c # d # rest"
      "msg_id = unpack_H a b" "flags = unpack_H c d"
    using assms by (auto simp: unpack_HHHHHH_def split: list.splits)
  have "wire = (a # b # c # d # rest) @ drop 12 wire"
    using append_take_drop_id [of 12 wire] t(1) by simp
  then have "wire = a # b # c # d # (rest @ drop 12 wire)" by simp
  with t(2,3) show ?thesis by blast
qed

lemma parse_tsig_context_header:
  assumes "reads_header W" and "parse_tsig_context W wire = Inr ctx"
  shows "\<exists>a b c d rest. wire = a # b # c # d # rest \<and> tw_id ctx = unpack_H a b
       \<and> tw_opcode ctx = unat c div 8 mod 16"
proof -
  obtain h p msg_id flags counts where h: "wp_get_bytes W 12 (wp_start W wire) = Inr (h, p)"
      "unpack_HHHHHH h = Inr (msg_id, flags, counts)"
      "tw_id ctx = msg_id" "tw_opcode ctx = drop_bit 11 flags AND 0xF"
    using assms(2) by (auto simp: parse_tsig_context_def bind_res_Inr)
  have "h = take 12 wire" using assms(1) h(1) unfolding reads_header_def by blast
  with unpack_HHHHHH_header h(2-4) opcode_of_flags show ?thesis by metis
qed

lemma reply_from_ctx_view:
  assumes "reply_laws L v" and "tw_opcode ctx < 16"
  shows "v (reply_from_ctx L ctx rc) =
     \<lparr>rv_id = tw_id ctx, rv_qr = True, rv_opcode = tw_opcode ctx, rv_rcode = rc, rv_tsig = None,
      rv_request_mac = []\<rparr>"
  using assms unfolding reply_laws_def reply_from_ctx_def
  by (cases "v (dl_query_message L (tw_id ctx))") (metis (no_types, lifting) response_view.simps)

definition error_view ::
  "'n name_ops \<Rightarrow> 'k keys \<Rightarrow> nat option \<Rightarrow> 'n tsig_wire \<Rightarrow> 'k response_view" where
  "error_view N kr err ctx =
     (let plain = \<lparr>rv_id = tw_id ctx, rv_qr = True, rv_opcode = tw_opcode ctx, rv_rcode = NOTAUTH,
                   rv_tsig = None, rv_request_mac = []\<rparr>
      in case (err, tw_keyname ctx, tw_mac ctx) of
           (Some code, Some keyname, Some mac) \<Rightarrow>
             (case map_of kr (nm_labels N keyname) of
                Some key \<Rightarrow> plain\<lparr>rv_tsig := Some (key, 300, tw_id ctx, code), rv_request_mac := mac\<rparr>
              | None \<Rightarrow> plain)
         | _ \<Rightarrow> plain)"

lemma signed_error_response_view:
  assumes "reply_laws L v" and "tw_opcode ctx < 16"
  shows "v (signed_error_response N L kr NOTAUTH code ctx) = error_view N kr (Some code) ctx"
proof -
  have u: "v (dl_set_request_mac L m (dl_use_tsig L k f i e r)) =
      (v r)\<lparr>rv_tsig := Some (k, f, i, e), rv_request_mac := m\<rparr>" for m k f i e r
    using assms(1) by (simp add: reply_laws_def)
  show ?thesis
    by (simp add: signed_error_response_def error_view_def Let_def u reply_from_ctx_view [OF assms]
        split: option.splits)
qed

section \<open>A sample library\<close>

text \<open>
  A parser over the remaining octets whose names are one root octet, and a library whose
  responses are their own views and whose \<^verbatim>\<open>from_wire\<close> has a given outcome.
\<close>

definition sample_take :: "nat \<Rightarrow> bytes \<Rightarrow> (bytes \<times> bytes) res" where
  "sample_take n p = (if n \<le> length p then Inr (take n p, drop n p) else Inl (DNSException ''short''))"

definition sample_parser :: "(string list, bytes) wire_parser" where
  "sample_parser =
     \<lparr>wp_start = (\<lambda>wire. wire), wp_get_bytes = sample_take,
      wp_get_name = (\<lambda>p. bind_res (sample_take 1 p) (\<lambda>(_, p'). Inr ([''''], p'))),
      wp_get_HH = (\<lambda>p. case p of a # b # c # d # p' \<Rightarrow> Inr ((unpack_H a b, unpack_H c d), p')
                      | _ \<Rightarrow> Inl (DNSException ''short'')),
      wp_get_HHIH = (\<lambda>p. case p of
           a # b # c # d # e # f # g # h # i # j # p' \<Rightarrow> Inr ((unpack_H a b, unpack_H c d, 0, unpack_H i j), p')
         | _ \<Rightarrow> Inl (DNSException ''short'')),
      wp_restrict_to = (\<lambda>n f p. bind_res (sample_take n p) (\<lambda>(q, p'). bind_res (f q) (\<lambda>(m, _). Inr (m, p')))),
      wp_rdata = (\<lambda>c t p. Inr (Some p, []))\<rparr>"

lemma sample_parser_reads_header: "reads_header sample_parser"
  by (auto simp: reads_header_def sample_parser_def sample_take_def)

definition sample_lib ::
  "(wire_exn + bool \<times> nat) \<Rightarrow> (string list, nat, bool \<times> nat, nat response_view, unit) dns_lib" where
  "sample_lib x =
     \<lparr>dl_from_wire = (\<lambda>b k w. (x, w)), dl_had_tsig = fst, dl_opcode = snd,
      dl_update = (\<lambda>m. Some (sample_update sample_owner None)),
      dl_make_response = (\<lambda>m. \<lparr>rv_id = 0, rv_qr = True, rv_opcode = snd m, rv_rcode = NOERROR,
         rv_tsig = None, rv_request_mac = []\<rparr>),
      dl_query_message = (\<lambda>i. \<lparr>rv_id = i, rv_qr = False, rv_opcode = 0, rv_rcode = NOERROR,
         rv_tsig = None, rv_request_mac = []\<rparr>),
      dl_set_flags_qr = (\<lambda>r. r\<lparr>rv_qr := True, rv_opcode := 0, rv_rcode := NOERROR\<rparr>),
      dl_set_opcode = (\<lambda>c r. r\<lparr>rv_opcode := c\<rparr>), dl_set_rcode = (\<lambda>c r. r\<lparr>rv_rcode := c\<rparr>),
      dl_use_tsig = (\<lambda>k f i e r. r\<lparr>rv_tsig := Some (k, f, i, e)\<rparr>),
      dl_set_request_mac = (\<lambda>m r. r\<lparr>rv_request_mac := m\<rparr>),
      dl_to_wire = (\<lambda>r w. (Inr [word_of_nat (rv_id r)], w))\<rparr>"

lemma sample_lib_laws: "reply_laws (sample_lib x) id"
  by (simp add: reply_laws_def sample_lib_def)

text \<open>An UPDATE header with id 0x1234 and one additional record, a TSIG with MAC 7 7.\<close>

definition sample_wire :: bytes where
  "sample_wire = [18, 52, 40, 0, 0, 0, 0, 0, 0, 0, 0, 1, 0, 0, 250, 0, 255, 0, 0, 0, 0, 0, 2, 7, 7]"

text \<open>
  C27: every inbound TSIG failure is counted under its own reason and answered NOTAUTH, with the
  id and the opcode of the request's own header; the answer is signed with the server's key and
  carries the TSIG error (BADSIG 16, BADKEY 17, BADTIME 18) and the request MAC exactly when the
  failure is not an unknown key and the key and the MAC can be recovered from the wire.
\<close>

theorem tsig_failure_reply:
  assumes "reply_laws L v" and "reads_header W"
    and "dl_from_wire L wire kr (ds_world s) = (Inl x, w)" and "tsig_failure x = Some (reason, err)"
    and "parse_tsig_context W wire = Inr ctx"
  shows "(\<exists>r. process_query N W L disp wire kr src s
              = send_wire L r (count_tsig reason (s\<lparr>ds_world := w\<rparr>)) \<and> v r = error_view N kr err ctx)
       \<and> (\<exists>a b c d rest. wire = a # b # c # d # rest \<and> tw_id ctx = unpack_H a b
              \<and> tw_opcode ctx = unat c div 8 mod 16)"
proof -
  note h = parse_tsig_context_header [OF assms(2,5)]
  then have o: "tw_opcode ctx < 16" by auto
  have e: "extract_tsig_context W wire = Inr (Some ctx)" using assms(5) by (simp add: extract_tsig_context_def)
  have p: "v (reply_from_ctx L ctx NOTAUTH) = error_view N kr None ctx"
    by (simp add: error_view_def Let_def reply_from_ctx_view [OF assms(1) o])
  have "\<exists>r. process_query N W L disp wire kr src s
      = send_wire L r (count_tsig reason (s\<lparr>ds_world := w\<rparr>)) \<and> v r = error_view N kr err ctx"
    using assms(3,4) p signed_error_response_view [OF assms(1) o, of N kr]
    by (cases x) (auto simp: process_query_def tsig_failure_def plain_error_reply_def
        signed_error_reply_def e Let_def)
  with h show ?thesis by blast
qed

theorem tsig_failure_reply_witness:
  "\<exists>r. process_query sample_names sample_parser (sample_lib (Inl BadTime)) (\<lambda>um src s. (Inr NOERROR, s)) sample_wire [([''''], 9)]
        ''ip'' (sample_state ())
      = send_wire (sample_lib (Inl BadTime)) r (count_tsig TSIG_BADTIME (sample_state ()))
    \<and> r = \<lparr>rv_id = 4660, rv_qr = True, rv_opcode = 5, rv_rcode = NOTAUTH,
           rv_tsig = Some (9, 300, 4660, 18), rv_request_mac = [7, 7]\<rparr>"
proof -
  let ?ctx = "\<lparr>tw_id = 4660, tw_opcode = 5, tw_keyname = Some [''''], tw_mac = Some [7, 7]\<rparr>"
  have p: "parse_tsig_context sample_parser sample_wire = Inr ?ctx" by code_simp
  have v: "error_view sample_names [([''''], 9::nat)] (Some 18) ?ctx =
      \<lparr>rv_id = 4660, rv_qr = True, rv_opcode = 5, rv_rcode = NOTAUTH,
           rv_tsig = Some (9, 300, 4660, 18), rv_request_mac = [7, 7]\<rparr>" by code_simp
  have f: "dl_from_wire (sample_lib (Inl BadTime)) sample_wire [([''''], 9)] (ds_world (sample_state ()))
      = (Inl BadTime, ())" by (simp add: sample_lib_def sample_state_def)
  have t: "tsig_failure BadTime = Some (TSIG_BADTIME, Some 18)" by (simp add: tsig_failure_def)
  have s: "(sample_state ())\<lparr>ds_world := ()\<rparr> = sample_state ()" by (simp add: sample_state_def)
  show ?thesis
    using tsig_failure_reply [OF sample_lib_laws sample_parser_reads_header f t p, where N = sample_names
        and disp = "\<lambda>um src s. (Inr NOERROR, s)" and src = "''ip''"]
    unfolding v s by auto
qed

section \<open>The dispatcher interface\<close>

text \<open>
  What the pipeline relies on: the reply code of a dispatch is one of the three the protocol
  documents, and a dispatch does not touch the TSIG counters.
\<close>

locale challenge_dispatcher =
  fixes disp :: "('n, 'w) dispatch_fn"
  assumes disp_rcode: "disp um src s = (Inr rc, s') \<Longrightarrow> rc \<in> {NOERROR, REFUSED, SERVFAIL}"
    and disp_tsig: "tsig_failures (ds_metrics (snd (disp um src s))) = tsig_failures (ds_metrics s)"
    and disp_badtime: "tsig_badtime (ds_metrics (snd (disp um src s))) = tsig_badtime (ds_metrics s)"
begin

lemma process_query_tsig:
  "tsig_failures (ds_metrics (snd (process_query N W L disp wire kr src s))) =
     (let n = tsig_failures (ds_metrics s)
      in case fst (dl_from_wire L wire kr (ds_world s)) of
           Inl x \<Rightarrow> (case tsig_failure x of None \<Rightarrow> n | Some (reason, _) \<Rightarrow> n(reason := Suc (n reason)))
         | Inr m \<Rightarrow> if dl_had_tsig L m then n else n(TSIG_ABSENT := Suc (n TSIG_ABSENT)))"
proof -
  obtain parsed w where f: "dl_from_wire L wire kr (ds_world s) = (parsed, w)" by fastforce
  show ?thesis
  proof (cases parsed)
    case (Inl x)
    then show ?thesis by (cases x) (simp_all add: process_query_def f tsig_failure_def count_tsig_failures Let_def)
  next
    case (Inr m)
    obtain um where um: "dl_update L m = None \<or> dl_update L m = Some um" by (cases "dl_update L m") auto
    have "tsig_failures (ds_metrics (snd (disp um src (s\<lparr>ds_world := w\<rparr>)))) = tsig_failures (ds_metrics s)"
      using disp_tsig [of um src "s\<lparr>ds_world := w\<rparr>"] by simp
    with Inr um show ?thesis
      by (auto simp: process_query_def f count_tsig_failures Let_def split: prod.splits sum.splits)
  qed
qed

lemma process_query_verified:
  assumes "fst (dl_from_wire L wire kr (ds_world s)) = Inr m" and "dl_had_tsig L m"
    and "fst (process_query N W L disp wire kr src s) = Inr (Some b)"
  shows "\<exists>rc s' . rc \<in> {NOERROR, REFUSED, SERVFAIL} \<and> process_query N W L disp wire kr src s = reply L m rc s'"
proof -
  obtain w where f: "dl_from_wire L wire kr (ds_world s) = (Inr m, w)"
    using assms(1) by (cases "dl_from_wire L wire kr (ds_world s)") auto
  show ?thesis
  proof (cases "dl_opcode L m = OPCODE_UPDATE")
    case False
    then show ?thesis using assms(2) by (auto simp: process_query_def f Let_def)
  next
    case True
    then obtain um where um: "dl_update L m = Some um"
      using assms by (cases "dl_update L m") (auto simp: process_query_def f Let_def)
    obtain rc s' where d: "disp um src (s\<lparr>ds_world := w\<rparr>) = (Inr rc, s')"
      using assms True um by (auto simp: process_query_def f Let_def split: prod.splits sum.splits)
    then have "process_query N W L disp wire kr src s = reply L m rc s'"
      using True um assms(2) by (simp add: process_query_def f Let_def)
    with disp_rcode [OF d] show ?thesis by blast
  qed
qed

end

lemma dispatch_tsig_counters:
  "tsig_failures (ds_metrics (snd (dispatch N P D um src s))) = tsig_failures (ds_metrics s)"
  "tsig_badtime (ds_metrics (snd (dispatch N P D um src s))) = tsig_badtime (ds_metrics s)"
  by (auto simp: dispatch_def invoke_provider_def finish_call_metrics Let_def
      split: option.splits prod.splits sum.splits exn.splits)

interpretation dd: challenge_dispatcher "dispatch N P D" for N P D
proof
  fix um src s rc s'
  assume "dispatch N P D um src s = (Inr rc, s')"
  then have "fst (dispatch N P D um src s) = Inr rc" by simp
  then show "rc \<in> {NOERROR, REFUSED, SERVFAIL}"
    by (auto simp: fst_dispatch outcome_rcode_def
        split: option.splits prod.splits sum.splits exn.splits if_splits)
qed (rule dispatch_tsig_counters)+

text \<open>
  Over the whole pipeline with the code's dispatcher, each message moves at most one TSIG
  counter, by one: the one of its failure, or "absent" for a message without TSIG; a verified
  message moves none, whatever its provider call does.
\<close>

theorem handle_query_counts_tsig:
  "tsig_failures (ds_metrics (snd (snd (handle_query N W L (dispatch N P D) token wire kr src ctx s)))) =
     (let n = tsig_failures (ds_metrics s)
      in case fst (dl_from_wire L wire kr (ds_world s)) of
           Inl x \<Rightarrow> (case tsig_failure x of None \<Rightarrow> n | Some (reason, _) \<Rightarrow> n(reason := Suc (n reason)))
         | Inr m \<Rightarrow> if dl_had_tsig L m then n else n(TSIG_ABSENT := Suc (n TSIG_ABSENT)))"
  by (simp add: handle_query_eq dd.process_query_tsig)

text \<open>
  A message that carries a verified TSIG and is answered gets the response that
  \<^verbatim>\<open>make_response\<close> derives from it (signed, for a verified query) with NOERROR, REFUSED or
  SERVFAIL; NOTAUTH is never sent to it.
\<close>

theorem verified_message_answer:
  assumes "fst (dl_from_wire L wire kr (ds_world s)) = Inr m" and "dl_had_tsig L m"
    and "fst (handle_query N W L (dispatch N P D) token wire kr src ctx s) = Inr (Some b)"
  shows "\<exists>rc w. rc \<in> {NOERROR, REFUSED, SERVFAIL}
     \<and> fst (dl_to_wire L (dl_set_rcode L rc (dl_make_response L m)) w) = Inr b"
proof -
  have a: "fst (process_query N W L (dispatch N P D) wire kr src s) = Inr (Some b)"
    using assms(3) by (simp add: handle_query_eq)
  obtain rc s' where "rc \<in> {NOERROR, REFUSED, SERVFAIL}"
      and r: "process_query N W L (dispatch N P D) wire kr src s = reply L m rc s'"
    using dd.process_query_verified [OF assms(1,2) a] by blast
  moreover have "fst (dl_to_wire L (dl_set_rcode L rc (dl_make_response L m)) (ds_world s')) = Inr b"
    by (rule reply_Inr) (use a r in simp)
  ultimately show ?thesis by blast
qed

theorem unverified_never_dispatched_witness:
  "handle_query sample_names sample_parser (sample_lib (Inr (False, 5))) (\<lambda>um src s. (Inr NOERROR, s))
     ''00'' sample_wire [] ''ip'' None (sample_state ())
   = handle_query sample_names sample_parser (sample_lib (Inr (False, 5))) (\<lambda>um src s. (Inl InvalidToken, s))
     ''00'' sample_wire [] ''ip'' None (sample_state ())"
proof -
  have n: "\<not> verified_update (sample_lib (Inr (False, 5)))
      (fst (dl_from_wire (sample_lib (Inr (False, 5))) sample_wire [] (ds_world (sample_state ()))))"
    by (simp add: verified_update_def sample_lib_def)
  show ?thesis
    using unverified_never_dispatched [OF n, of sample_names sample_parser "\<lambda>um src s. (Inr NOERROR, s)"
        "''00''" "''ip''" None "\<lambda>um src s. (Inl InvalidToken, s)"]
    by (rule conjunct1)
qed

theorem verified_message_answer_witness:
  "\<exists>rc w. rc \<in> {NOERROR, REFUSED, SERVFAIL}
     \<and> fst (dl_to_wire (sample_lib (Inr (True, 5)))
          (dl_set_rcode (sample_lib (Inr (True, 5))) rc (dl_make_response (sample_lib (Inr (True, 5))) (True, 5))) w)
       = Inr [0]"
proof -
  let ?L = "sample_lib (Inr (True, 5))"
  have f: "fst (dl_from_wire ?L sample_wire [] (ds_world (sample_state ()))) = Inr (True, 5)"
    by (simp add: sample_lib_def)
  have t: "dl_had_tsig ?L (True, 5)" by (simp add: sample_lib_def)
  have p: "fst (process_query sample_names sample_parser ?L (dispatch sample_names sample_ops sample_dispatcher)
      sample_wire [] ''ip'' (sample_state ())) = Inr (Some [0])" by code_simp
  have a: "fst (handle_query sample_names sample_parser ?L (dispatch sample_names sample_ops sample_dispatcher)
      ''00'' sample_wire [] ''ip'' None (sample_state ())) = Inr (Some [0])"
    using p by (simp add: handle_query_eq)
  show ?thesis using verified_message_answer [OF f t a] .
qed

end
