(* ===== verification/Server.thy ===== *)
theory Server
  imports Protocol
begin

text \<open>
  \<^verbatim>\<open>data_plane/server.py\<close>: the UDP and TCP listener. The event loop's socket calls are
  the record \<open>net\<close>; a socket is a number, and the state of the sockets is part of the world. The
  handler of one message is an argument (\<^const>\<open>handle_query\<close> with its parameters fixed): it may
  change the state, in particular the accepting flag, because other tasks run while it awaits.
\<close>

section \<open>State\<close>

datatype 'r keyring_arg = StaticKeyring 'r | KeyringProvider "unit \<Rightarrow> 'r"

definition as_provider :: "'r keyring_arg \<Rightarrow> unit \<Rightarrow> 'r" where
  "as_provider keyring = (case keyring of KeyringProvider f \<Rightarrow> f | StaticKeyring kr \<Rightarrow> (\<lambda>_. kr))"

record 't udp_protocol =
  up_transport :: "nat option"
  up_tasks :: "'t set"
  up_accepting :: bool

record 't server =
  sv_port :: nat
  sv_udp_transport :: "nat option"
  sv_udp_protocol :: "'t udp_protocol option"
  sv_tcp_server :: "nat option"
  sv_tcp_conns :: "'t set"
  sv_accepting :: bool

text \<open>
  \<open>net_udp\<close> is \<^verbatim>\<open>create_datagram_endpoint\<close>: the socket and the port of its
  \<^verbatim>\<open>sockname\<close>, when there is one. \<open>net_close\<close> closes a socket.
\<close>

record 'w net =
  net_udp :: "nat \<Rightarrow> 'w \<Rightarrow> (nat \<times> nat option) res \<times> 'w"
  net_tcp :: "nat \<Rightarrow> 'w \<Rightarrow> nat res \<times> 'w"
  net_close :: "nat \<Rightarrow> 'w \<Rightarrow> 'w"

definition server_init :: "nat \<Rightarrow> 't server" where
  "server_init port =
     \<lparr>sv_port = port, sv_udp_transport = None, sv_udp_protocol = None, sv_tcp_server = None,
      sv_tcp_conns = {}, sv_accepting = False\<rparr>"

definition udp_protocol_init :: "'t udp_protocol" where
  "udp_protocol_init = \<lparr>up_transport = None, up_tasks = {}, up_accepting = True\<rparr>"

definition connection_made :: "nat \<Rightarrow> 't udp_protocol \<Rightarrow> 't udp_protocol" where
  "connection_made transport u = u\<lparr>up_transport := Some transport\<rparr>"

section \<open>Datagrams\<close>

text \<open>The callback spawns the handler task \<open>t\<close>, or drops the datagram; it returns whether it spawned.\<close>

definition datagram_received :: "'t \<Rightarrow> 't udp_protocol \<Rightarrow> bool \<times> 't udp_protocol" where
  "datagram_received t u =
     (if \<not> up_accepting u then (False, u) else (True, u\<lparr>up_tasks := insert t (up_tasks u)\<rparr>))"

definition udp_task_done :: "'t \<Rightarrow> 't udp_protocol \<Rightarrow> 't udp_protocol" where
  "udp_task_done t u = u\<lparr>up_tasks := up_tasks u - {t}\<rparr>"

text \<open>
  The handler task: the datagrams it sends. An exception of the handler is logged and swallowed;
  the transport is read after the handler's await.
\<close>

definition udp_handle ::
  "(bytes \<Rightarrow> string \<Rightarrow> 's \<Rightarrow> bytes option res \<times> 's) \<Rightarrow> ('s \<Rightarrow> nat option) \<Rightarrow> bytes \<Rightarrow> string \<times> nat \<Rightarrow> 's \<Rightarrow>
   (nat \<times> bytes \<times> (string \<times> nat)) list \<times> 's" where
  "udp_handle handler transport_of data addr s =
     (case handler data (fst addr) s of
        (Inl e, s') \<Rightarrow> ([], s')
      | (Inr rep, s') \<Rightarrow>
          (case (rep, transport_of s') of
             (Some b, Some tr) \<Rightarrow> ([(tr, b, addr)], s')
           | _ \<Rightarrow> ([], s')))"

section \<open>Connections\<close>

text \<open>
  The message loop of \<^verbatim>\<open>_handle_tcp\<close> on the octets the peer sends before it closes.
  \<open>readexactly\<close> raises IncompleteReadError when fewer octets are left, which ends the loop; \<open>wdrain\<close>
  is \<^verbatim>\<open>writer.drain()\<close>. The result is what the loop raises out, the octets written and the state.
\<close>

definition readexactly :: "nat \<Rightarrow> bytes \<Rightarrow> (bytes \<times> bytes) option" where
  "readexactly n stream = (if n \<le> length stream then Some (take n stream, drop n stream) else None)"

definition unpack_length :: "bytes \<Rightarrow> nat" where
  "unpack_length header = (case header of [hi, lo] \<Rightarrow> unpack_H hi lo | _ \<Rightarrow> 0)"

function tcp_loop ::
  "(bytes \<Rightarrow> 's \<Rightarrow> bytes option res \<times> 's) \<Rightarrow> ('s \<Rightarrow> unit res \<times> 's) \<Rightarrow> ('s \<Rightarrow> bool) \<Rightarrow> bytes \<Rightarrow> bytes \<Rightarrow> 's \<Rightarrow>
   unit res \<times> bytes \<times> 's" where
  "tcp_loop handler wdrain draining stream out s =
     (case readexactly 2 stream of
        None \<Rightarrow> (Inr (), out, s)
      | Some (header, stream1) \<Rightarrow>
          (case readexactly (unpack_length header) stream1 of
             None \<Rightarrow> (Inr (), out, s)
           | Some (payload, stream2) \<Rightarrow>
               (case handler payload s of
                  (Inl e, s1) \<Rightarrow> (Inr (), out, s1)
                | (Inr None, s1) \<Rightarrow> (Inr (), out, s1)
                | (Inr (Some rep), s1) \<Rightarrow>
                    (case pack_H (length rep) of
                       None \<Rightarrow> (Inl (StructError ''ushort format requires 0 <= number <= 65535''), out, s1)
                     | Some pre \<Rightarrow>
                         (case wdrain s1 of
                            (Inl e, s2) \<Rightarrow> (Inl e, out @ pre @ rep, s2)
                          | (Inr _, s2) \<Rightarrow>
                              if draining s2 then (Inr (), out @ pre @ rep, s2)
                              else tcp_loop handler wdrain draining stream2 (out @ pre @ rep) s2)))))"
  by pat_completeness auto
termination
  by (relation "measure (\<lambda>(h, wd, d, stream, out, s). length stream)")
     (auto simp: readexactly_def split: if_splits)

declare tcp_loop.simps [simp del]

text \<open>
  \<^verbatim>\<open>_handle_tcp\<close>: a connection opened while the server drains is closed unanswered. The
  connection's task is registered before the loop; its removal is the task's done callback.
\<close>

definition handle_tcp ::
  "(bytes \<Rightarrow> string \<Rightarrow> 's \<Rightarrow> bytes option res \<times> 's) \<Rightarrow> ('s \<Rightarrow> unit res \<times> 's) \<Rightarrow> ('s \<Rightarrow> bool) \<Rightarrow>
   ('s \<Rightarrow> 's) \<Rightarrow> string option \<Rightarrow> bytes \<Rightarrow> 's \<Rightarrow> unit res \<times> bytes \<times> 's" where
  "handle_tcp handler wdrain draining add_conn peer stream s =
     (let source = (case peer of Some p \<Rightarrow> p | None \<Rightarrow> ''?'')
      in if draining s then (Inr (), [], s)
         else tcp_loop (\<lambda>payload. handler payload source) wdrain draining stream [] (add_conn s))"

section \<open>Lifecycle\<close>

definition server_close :: "'w net \<Rightarrow> 't server \<Rightarrow> 'w \<Rightarrow> 't server \<times> 'w" where
  "server_close E s w =
     (let w1 = (case sv_udp_transport s of Some u \<Rightarrow> net_close E u w | None \<Rightarrow> w);
          w2 = (case sv_tcp_server s of Some t \<Rightarrow> net_close E t w1 | None \<Rightarrow> w1)
      in (s\<lparr>sv_accepting := False, sv_udp_transport := None, sv_udp_protocol := None,
           sv_tcp_server := None\<rparr>, w2))"

text \<open>The part of \<^verbatim>\<open>serve\<close> before \<^verbatim>\<open>serve_forever\<close>: both binds, then the flag.\<close>

definition serve_bind :: "'w net \<Rightarrow> 't server \<Rightarrow> 'w \<Rightarrow> unit res \<times> 't server \<times> 'w" where
  "serve_bind E s w =
     (case net_udp E (sv_port s) w of
        (Inl e, w1) \<Rightarrow> (Inl e, s, w1)
      | (Inr (sock, sockname), w1) \<Rightarrow>
          let s1 = s\<lparr>sv_udp_transport := Some sock,
                     sv_udp_protocol := Some (connection_made sock udp_protocol_init),
                     sv_port := (case sockname of Some p \<Rightarrow> p | None \<Rightarrow> sv_port s)\<rparr>
          in case net_tcp E (sv_port s1) w1 of
               (Inl e, w2) \<Rightarrow> (Inl e, s1, w2)
             | (Inr tcp, w2) \<Rightarrow> (Inr (), s1\<lparr>sv_tcp_server := Some tcp, sv_accepting := True\<rparr>, w2))"

text \<open>
  The whole of \<^verbatim>\<open>serve\<close>; \<open>forever\<close> stands for \<^verbatim>\<open>serve_forever\<close>, which ends
  by an exception (cancellation included) and during which other tasks change the state.
\<close>

definition serve ::
  "'w net \<Rightarrow> ('t server \<Rightarrow> 'w \<Rightarrow> unit res \<times> 't server \<times> 'w) \<Rightarrow> 't server \<Rightarrow> 'w \<Rightarrow>
   unit res \<times> 't server \<times> 'w" where
  "serve E forever s w =
     (case serve_bind E s w of
        (Inl e, s1, w1) \<Rightarrow> (Inl e, s1, w1)
      | (Inr _, s1, w1) \<Rightarrow>
          (case forever s1 w1 of (r, s2, w2) \<Rightarrow> (case server_close E s2 w2 of (s3, w3) \<Rightarrow> (r, s3, w3))))"

definition is_draining :: "'t server \<Rightarrow> bool" where
  "is_draining s \<longleftrightarrow> \<not> sv_accepting s"

definition stop_accepting :: "'t server \<Rightarrow> 't server" where
  "stop_accepting s =
     s\<lparr>sv_accepting := False,
       sv_udp_protocol := map_option (\<lambda>u. u\<lparr>up_accepting := False\<rparr>) (sv_udp_protocol s)\<rparr>"

definition inflight :: "'t server \<Rightarrow> 't set" where
  "inflight s = sv_tcp_conns s \<union> (case sv_udp_protocol s of Some u \<Rightarrow> up_tasks u | None \<Rightarrow> {})"

text \<open>
  The tasks of the event loop, as far as \<^verbatim>\<open>drain\<close> sees them. \<open>Working l c\<close> ends by itself after \<open>l\<close> more
  rounds of the loop (\<open>None\<close>: it hangs) and would need \<open>c\<close> rounds to end after a cancellation (the handlers catch
  \<^verbatim>\<open>Exception\<close> only, so the CancelledError leaves them; a connection still closes its writer).
  \<open>Ended\<close> says whether the task was cancelled.
\<close>

datatype task = Working "nat option" "nat option" | Cancelling "nat option" | Ended bool

type_synonym 't loop = "('t \<Rightarrow> task) \<times> nat"

fun task_done :: "task \<Rightarrow> bool" where
  "task_done (Ended _) = True"
| "task_done _ = False"

fun task_cancel :: "task \<Rightarrow> task" where
  "task_cancel (Working _ c) = Cancelling c"
| "task_cancel x = x"

fun tick :: "task \<Rightarrow> task" where
  "tick (Working (Some 0) c) = Ended False"
| "tick (Working (Some (Suc n)) c) = Working (Some n) c"
| "tick (Cancelling (Some 0)) = Ended True"
| "tick (Cancelling (Some (Suc n))) = Cancelling (Some n)"
| "tick x = x"

text \<open>
  \<^verbatim>\<open>asyncio.wait\<close> with a timeout, given as the rounds that the loop makes until then, and
  \<^verbatim>\<open>asyncio.gather\<close> with exceptions as results, which has no time limit: \<open>None\<close> is that it never returns.
\<close>

fun wait_tasks :: "nat \<Rightarrow> 't set \<Rightarrow> 't loop \<Rightarrow> 't loop" where
  "wait_tasks 0 tasks lp = lp"
| "wait_tasks (Suc rounds) tasks lp =
     (if \<forall>t \<in> tasks. task_done (fst lp t) then lp
      else wait_tasks rounds tasks (\<lambda>t. tick (fst lp t), Suc (snd lp)))"

partial_function (option) gather_tasks :: "'t set \<Rightarrow> 't loop \<Rightarrow> 't loop option" where
  "gather_tasks tasks lp =
     (if \<forall>t \<in> tasks. task_done (fst lp t) then Some lp
      else gather_tasks tasks (\<lambda>t. tick (fst lp t), Suc (snd lp)))"

definition drain :: "'t option \<Rightarrow> nat \<Rightarrow> 't server \<Rightarrow> 't loop \<Rightarrow> 't loop option" where
  "drain current rounds s lp =
     (let tasks = {t \<in> inflight s. Some t \<noteq> current \<and> \<not> task_done (fst lp t)}
      in if tasks = {} then Some lp
         else (let lp1 = wait_tasks rounds tasks lp;
                   pending = {t \<in> tasks. \<not> task_done (fst lp1 t)};
                   lp2 = (\<lambda>t. if t \<in> pending then task_cancel (fst lp1 t) else fst lp1 t, snd lp1)
               in if pending = {} then Some lp2 else gather_tasks pending lp2))"

section \<open>Framing\<close>

definition frame :: "bytes \<Rightarrow> bytes" where
  "frame m = (case pack_H (length m) of Some pre \<Rightarrow> pre @ m | None \<Rightarrow> [])"

abbreviation framed :: "bytes list \<Rightarrow> bytes" where
  "framed ms \<equiv> concat (map frame ms)"

definition fits :: "bytes \<Rightarrow> bool" where
  "fits m \<longleftrightarrow> length m < 65536"

text \<open>What is left of a stream that ends inside a frame.\<close>

definition cut_short :: "bytes \<Rightarrow> bool" where
  "cut_short rest \<longleftrightarrow>
     (case readexactly 2 rest of
        None \<Rightarrow> True
      | Some (header, tail) \<Rightarrow> readexactly (unpack_length header) tail = None)"

lemma pack_unpack_length: "pack_H n = Some pre \<Longrightarrow> unpack_length pre = n \<and> length pre = 2"
  by (auto simp: pack_H_def unpack_length_def pack_unpack_H split: if_splits)

lemma read_frame:
  assumes "fits m"
  shows "\<exists>pre. readexactly 2 (frame m @ tail) = Some (pre, m @ tail) \<and> unpack_length pre = length m
    \<and> readexactly (length m) (m @ tail) = Some (m, tail)"
proof -
  obtain pre where p: "pack_H (length m) = Some pre"
    using assms pack_H_Some_iff [of "length m"] by (auto simp: fits_def)
  with pack_unpack_length [OF p] show ?thesis by (auto simp: frame_def readexactly_def)
qed

text \<open>The exchange at the level of messages, without octets.\<close>

fun session ::
  "(bytes \<Rightarrow> 's \<Rightarrow> bytes option res \<times> 's) \<Rightarrow> ('s \<Rightarrow> unit res \<times> 's) \<Rightarrow> ('s \<Rightarrow> bool) \<Rightarrow> bytes list \<Rightarrow> 's \<Rightarrow>
   unit res \<times> bytes list \<times> 's" where
  "session handler wdrain draining [] s = (Inr (), [], s)"
| "session handler wdrain draining (m # ms) s =
     (case handler m s of
        (Inr (Some rep), s1) \<Rightarrow>
          if \<not> fits rep
          then (Inl (StructError ''ushort format requires 0 <= number <= 65535''), [], s1)
          else (case wdrain s1 of
                  (Inl e, s2) \<Rightarrow> (Inl e, [rep], s2)
                | (Inr _, s2) \<Rightarrow>
                    if draining s2 then (Inr (), [rep], s2)
                    else (let (r, reps, s3) = session handler wdrain draining ms s2
                          in (r, rep # reps, s3)))
      | (_, s1) \<Rightarrow> (Inr (), [], s1))"

lemma session_fits: "session h wd d ms s = (r, reps, s') \<Longrightarrow> list_all fits reps"
  by (induction ms arbitrary: s r reps s')
     (auto split: prod.splits sum.splits option.splits if_splits simp: Let_def)

lemma tcp_loop_session:
  assumes "list_all fits ms" and "cut_short rest"
  shows "tcp_loop h wd d (framed ms @ rest) out s =
     (case session h wd d ms s of (r, reps, s') \<Rightarrow> (r, out @ framed reps, s'))"
  using assms(1)
proof (induction ms arbitrary: out s)
  case Nil
  then show ?case
    using assms(2) by (subst tcp_loop.simps) (auto simp: cut_short_def split: option.splits prod.splits)
next
  case (Cons m ms)
  obtain pre where pre: "readexactly 2 (frame m @ framed ms @ rest) = Some (pre, m @ framed ms @ rest)"
      "unpack_length pre = length m"
      "readexactly (length m) (m @ framed ms @ rest) = Some (m, framed ms @ rest)"
    using read_frame [of m "framed ms @ rest"] Cons.prems by auto
  have unfits: "pack_H (length rep) = None \<longleftrightarrow> \<not> fits rep"
      "pack_H (length rep) = Some p \<Longrightarrow> fits rep \<and> frame rep = p @ rep" for rep p
    by (auto simp: pack_H_def fits_def frame_def split: if_splits)
  show ?case
    using Cons.IH Cons.prems pre
    by (subst tcp_loop.simps)
       (auto simp: unfits(1) Let_def split: prod.splits sum.splits option.splits dest: unfits(2))
qed

text \<open>Reading frames back.\<close>

function unframe :: "bytes \<Rightarrow> bytes list \<times> bytes" where
  "unframe stream =
     (case readexactly 2 stream of
        None \<Rightarrow> ([], stream)
      | Some (header, stream1) \<Rightarrow>
          (case readexactly (unpack_length header) stream1 of
             None \<Rightarrow> ([], stream)
           | Some (payload, stream2) \<Rightarrow> (let (ms, rest) = unframe stream2 in (payload # ms, rest))))"
  by pat_completeness auto
termination
  by (relation "measure length") (auto simp: readexactly_def split: if_splits)

declare unframe.simps [simp del]

lemma unframe_framed: "list_all fits ms \<Longrightarrow> cut_short rest \<Longrightarrow> unframe (framed ms @ rest) = (ms, rest)"
proof (induction ms)
  case Nil
  then show ?case
    by (subst unframe.simps) (auto simp: cut_short_def split: option.splits prod.splits)
next
  case (Cons m ms)
  then show ?case
    using read_frame [of m "framed ms @ rest"] by (subst unframe.simps) auto
qed

text \<open>
  C33: a TCP connection refines the exchange of messages. Whatever the peer sends as a sequence
  of length-prefixed messages, followed by an incomplete one, the loop answers exactly as the
  message-level session does: in order, one reply per message, up to the first message that is
  dropped, raises, cannot be sent or is answered while draining; the octets written are the
  replies' frames, which read back as the replies. The loop always ends.
\<close>

theorem tcp_connection_refines_session:
  assumes "list_all fits ms" and "cut_short rest"
  shows "\<exists>r reps s'. session h wd d ms s = (r, reps, s')
     \<and> tcp_loop h wd d (framed ms @ rest) [] s = (r, framed reps, s')
     \<and> unframe (framed reps) = (reps, []) \<and> length reps \<le> length ms"
proof -
  obtain r reps s' where e: "session h wd d ms s = (r, reps, s')" by (cases "session h wd d ms s")
  have l: "session h wd d ms s = (r, reps, s') \<Longrightarrow> length reps \<le> length ms" for s r reps s'
    by (induction ms arbitrary: s r reps s')
       (auto split: prod.splits sum.splits option.splits if_splits simp: Let_def)
  have c: "cut_short []" by (simp add: cut_short_def readexactly_def)
  show ?thesis
    using e tcp_loop_session [OF assms, of h wd d "[]" s] unframe_framed [OF session_fits [OF e] c] l [OF e]
    by auto
qed

theorem tcp_connection_refines_session_witness:
  "tcp_loop (\<lambda>m n. (Inr (Some (rev m)), Suc n)) (\<lambda>n. (Inr (), n)) (\<lambda>n. n = 2)
     ([0, 2, 1, 2, 0, 1, 3, 0, 1, 4] @ [0]) [] (0::nat) = (Inr (), [0, 2, 2, 1, 0, 1, 3], 2)"
proof -
  have f: "list_all fits [[1, 2], [3], [4]]" by (simp add: fits_def)
  have c: "cut_short [0]" by (simp add: cut_short_def readexactly_def)
  have e: "framed [[1, 2], [3], [4]] = [0, 2, 1, 2, 0, 1, 3, 0, 1, 4]" "framed [[2, 1], [3]] = [0, 2, 2, 1, 0, 1, 3]"
    by (simp_all add: frame_def pack_H_def)
  have v: "session (\<lambda>m n. (Inr (Some (rev m)), Suc n)) (\<lambda>n. (Inr (), n)) (\<lambda>n. n = 2)
      [[1, 2], [3], [4]] (0::nat) = (Inr (), [[2, 1], [3]], 2)" by (simp add: fits_def)
  have "\<exists>r reps s'. (Inr (), [[2, 1], [3]], 2) = (r, reps, s')
      \<and> tcp_loop (\<lambda>m n. (Inr (Some (rev m)), Suc n)) (\<lambda>n. (Inr (), n)) (\<lambda>n. n = 2)
          ([0, 2, 1, 2, 0, 1, 3, 0, 1, 4] @ [0]) [] (0::nat) = (r, framed reps, s')"
    using tcp_connection_refines_session [OF f c, of "\<lambda>m n. (Inr (Some (rev m)), Suc n)"
        "\<lambda>n. (Inr (), n)" "\<lambda>n. n = 2" "0::nat"] unfolding v e(1) by blast
  then show ?thesis using e(2) by (elim exE conjE) (simp only: prod.inject)
qed

section \<open>Sockets\<close>

text \<open>What the operating system promises of sockets, in terms of the set of open ones.\<close>

definition net_contract :: "'w net \<Rightarrow> ('w \<Rightarrow> nat set) \<Rightarrow> bool" where
  "net_contract E opened \<longleftrightarrow>
     (\<forall>p w sock nm w'. net_udp E p w = (Inr (sock, nm), w') \<longrightarrow>
        sock \<notin> opened w \<and> opened w' = insert sock (opened w))
     \<and> (\<forall>p w e w'. net_udp E p w = (Inl e, w') \<longrightarrow> opened w' = opened w)
     \<and> (\<forall>p w sock w'. net_tcp E p w = (Inr sock, w') \<longrightarrow>
        sock \<notin> opened w \<and> opened w' = insert sock (opened w))
     \<and> (\<forall>p w e w'. net_tcp E p w = (Inl e, w') \<longrightarrow> opened w' = opened w)
     \<and> (\<forall>n w. opened (net_close E n w) = opened w - {n})"

lemma net_contractD:
  assumes "net_contract E opened"
  shows "net_udp E p w = (Inr (sock, nm), w') \<Longrightarrow> sock \<notin> opened w \<and> opened w' = insert sock (opened w)"
    and "net_udp E p w = (Inl e, w') \<Longrightarrow> opened w' = opened w"
    and "net_tcp E p w = (Inr t, w') \<Longrightarrow> t \<notin> opened w \<and> opened w' = insert t (opened w)"
    and "net_tcp E p w = (Inl e, w') \<Longrightarrow> opened w' = opened w"
    and "opened (net_close E n w) = opened w - {n}"
  using assms unfolding net_contract_def by auto

text \<open>While the server runs, other tasks may flip the flags but nobody opens or closes a socket.\<close>

definition keeps_sockets ::
  "('w \<Rightarrow> nat set) \<Rightarrow> ('t server \<Rightarrow> 'w \<Rightarrow> unit res \<times> 't server \<times> 'w) \<Rightarrow> bool" where
  "keeps_sockets opened forever \<longleftrightarrow>
     (\<forall>s w r s' w'. forever s w = (r, s', w') \<longrightarrow>
        sv_udp_transport s' = sv_udp_transport s \<and> sv_tcp_server s' = sv_tcp_server s
        \<and> opened w' = opened w)"

lemma serve_bind_ok:
  assumes "net_contract E opened" and "serve_bind E s w = (Inr (), s1, w1)"
  shows "\<exists>u t. sv_udp_transport s1 = Some u \<and> sv_tcp_server s1 = Some t \<and> sv_accepting s1
     \<and> u \<notin> opened w \<and> t \<notin> opened w \<and> opened w1 = {u, t} \<union> opened w"
  using assms(2) net_contractD [OF assms(1)]
  by (fastforce simp: serve_bind_def Let_def split: prod.splits sum.splits)

text \<open>
  Once both sockets are bound the server accepts, and however \<^verbatim>\<open>serve_forever\<close> ends
  (an exception or a cancellation), exactly the two sockets it opened are closed and the server
  no longer accepts; its result is passed on.
\<close>

theorem serve_releases_sockets:
  assumes "net_contract E opened" and "keeps_sockets opened forever"
    and "serve_bind E s w = (Inr (), s1, w1)" and "serve E forever s w = (r, s', w')"
  shows "sv_accepting s1 \<and> opened w' = opened w \<and> \<not> sv_accepting s'
     \<and> sv_udp_transport s' = None \<and> sv_tcp_server s' = None \<and> r = fst (forever s1 w1)"
proof -
  obtain u t where b: "sv_udp_transport s1 = Some u" "sv_tcp_server s1 = Some t" "sv_accepting s1"
      "u \<notin> opened w" "t \<notin> opened w" "opened w1 = {u, t} \<union> opened w"
    using serve_bind_ok [OF assms(1,3)] by blast
  obtain r2 s2 w2 where f: "forever s1 w1 = (r2, s2, w2)" by (cases "forever s1 w1")
  have k: "sv_udp_transport s2 = Some u" "sv_tcp_server s2 = Some t" "opened w2 = {u, t} \<union> opened w"
    using assms(2) f b unfolding keeps_sockets_def by auto
  have e: "r = r2" "(s', w') = server_close E s2 w2"
    using assms(4) by (auto simp: serve_def assms(3) f split: prod.splits)
  then show ?thesis
    using b k f net_contractD(5) [OF assms(1)] by (auto simp: server_close_def Let_def)
qed

text \<open>
  When the TCP bind fails after the UDP bind, \<^verbatim>\<open>serve\<close> raises without closing
  anything: the UDP socket stays open, and a later successful \<^verbatim>\<open>serve\<close> of the same
  server replaces its reference and leaves it open for good.
\<close>

theorem serve_tcp_bind_failure_leaks:
  assumes "net_contract E opened" and "keeps_sockets opened forever"
    and "net_udp E (sv_port s) w = (Inr (u, Some p), w1)" and "net_tcp E p w1 = (Inl e, w2)"
    and "serve E forever s w = (r, s', w')"
    and "serve_bind E s' w' = (Inr (), s2, v)" and "serve E forever s' w' = (r', s'', w'')"
  shows "r = Inl e \<and> u \<in> opened w' \<and> sv_udp_transport s'' = None \<and> u \<in> opened w''"
proof -
  have f: "r = Inl e \<and> w' = w2"
    using assms(5) by (simp add: serve_def serve_bind_def assms(3,4) Let_def)
  have u: "u \<in> opened w'"
    using f net_contractD(1) [OF assms(1,3)] net_contractD(4) [OF assms(1,4)] by simp
  obtain a b where ab: "sv_udp_transport s2 = Some a" "sv_tcp_server s2 = Some b"
      "a \<notin> opened w'" "b \<notin> opened w'" "opened v = {a, b} \<union> opened w'"
    using serve_bind_ok [OF assms(1,6)] by blast
  obtain r3 s3 w3 where g: "forever s2 v = (r3, s3, w3)" by (cases "forever s2 v")
  have k: "sv_udp_transport s3 = Some a" "sv_tcp_server s3 = Some b" "opened w3 = {a, b} \<union> opened w'"
    using assms(2) g ab unfolding keeps_sockets_def by auto
  have "(s'', w'') = server_close E s3 w3"
    using assms(7) by (auto simp: serve_def assms(6) g split: prod.splits)
  then show ?thesis
    using f u ab k net_contractD(5) [OF assms(1)] by (auto simp: server_close_def Let_def)
qed

section \<open>Shutdown\<close>

fun receive_all :: "'t list \<Rightarrow> 't udp_protocol \<Rightarrow> 't udp_protocol" where
  "receive_all [] u = u"
| "receive_all (t # ts) u = receive_all ts (snd (datagram_received t u))"

lemma receive_all_refused: "\<not> up_accepting u \<Longrightarrow> receive_all ts u = u"
  by (induction ts arbitrary: u) (simp_all add: datagram_received_def)

text \<open>A task after some rounds of the loop.\<close>

lemma tick_rounds:
  "(tick ^^ n) (Ended b) = Ended b"
  "(tick ^^ n) (Working None c) = Working None c"
  "(tick ^^ n) (Working (Some k) c) = (if n \<le> k then Working (Some (k - n)) c else Ended False)"
  "(tick ^^ n) (Cancelling (Some k)) = (if n \<le> k then Cancelling (Some (k - n)) else Ended True)"
proof -
  show "(tick ^^ n) (Ended b) = Ended b" "(tick ^^ n) (Working None c) = Working None c"
    by (induction n) auto
  have step: "tick (Working (Some m) c) = (if m = 0 then Ended False else Working (Some (m - 1)) c)"
    "tick (Cancelling (Some m)) = (if m = 0 then Ended True else Cancelling (Some (m - 1)))" for m
    by (cases m; simp)+
  show "(tick ^^ n) (Working (Some k) c) = (if n \<le> k then Working (Some (k - n)) c else Ended False)"
    by (induction n) (auto simp: step)
  show "(tick ^^ n) (Cancelling (Some k)) = (if n \<le> k then Cancelling (Some (k - n)) else Ended True)"
    by (induction n) (auto simp: step)
qed

lemma wait_tasks_rounds:
  "\<exists>j \<le> rounds. wait_tasks rounds T (m, n) = (\<lambda>t. (tick ^^ j) (m t), n + j)
     \<and> (j = rounds \<or> (\<forall>t \<in> T. task_done ((tick ^^ j) (m t))))"
proof (induction rounds arbitrary: m n)
  case (Suc rounds)
  show ?case
  proof (cases "\<forall>t \<in> T. task_done (m t)")
    case True
    then show ?thesis by (intro exI [of _ 0]) auto
  next
    case False
    obtain j where "j \<le> rounds" "wait_tasks rounds T (\<lambda>t. tick (m t), Suc n) = (\<lambda>t. (tick ^^ j) (tick (m t)), Suc n + j)"
        "j = rounds \<or> (\<forall>t \<in> T. task_done ((tick ^^ j) (tick (m t))))"
      using Suc [of "\<lambda>t. tick (m t)" "Suc n"] by blast
    with False show ?thesis by (intro exI [of _ "Suc j"]) (auto simp: funpow_swap1)
  qed
qed simp

lemma gather_tasks_rounds:
  "\<forall>t \<in> T. task_done ((tick ^^ k) (m t)) \<Longrightarrow>
   \<exists>j \<le> k. gather_tasks T (m, n) = Some (\<lambda>t. (tick ^^ j) (m t), n + j) \<and> (\<forall>t \<in> T. task_done ((tick ^^ j) (m t)))"
proof (induction k arbitrary: m n)
  case 0
  then show ?case by (subst gather_tasks.simps) simp
next
  case (Suc k)
  show ?case
  proof (cases "\<forall>t \<in> T. task_done (m t)")
    case True
    then show ?thesis by (subst gather_tasks.simps) (auto intro: exI [of _ 0])
  next
    case False
    have "\<forall>t \<in> T. task_done ((tick ^^ k) (tick (m t)))" using Suc.prems by (simp add: funpow_swap1)
    then obtain j where "j \<le> k" "gather_tasks T (\<lambda>t. tick (m t), Suc n) = Some (\<lambda>t. (tick ^^ j) (tick (m t)), Suc n + j)"
        "\<forall>t \<in> T. task_done ((tick ^^ j) (tick (m t)))"
      using Suc.IH [of "\<lambda>t. tick (m t)" "Suc n"] by blast
    with False show ?thesis
      by (subst gather_tasks.simps) (auto simp: funpow_swap1 intro!: exI [of _ "Suc j"])
  qed
qed

text \<open>A task that ends within \<open>bound\<close> rounds once it is cancelled.\<close>

fun stoppable :: "nat \<Rightarrow> task \<Rightarrow> bool" where
  "stoppable bound (Working _ (Some c)) = (c \<le> bound)"
| "stoppable bound (Cancelling (Some c)) = (c \<le> bound)"
| "stoppable bound (Ended _) = True"
| "stoppable bound _ = False"

lemma stoppable_cancelling:
  assumes "stoppable bound x" and "\<not> task_done ((tick ^^ j) x)"
  shows "\<exists>c \<le> bound. task_cancel ((tick ^^ j) x) = Cancelling (Some c)"
proof (cases x)
  case (Working l c)
  then show ?thesis using assms by (cases c; cases l) (auto simp: tick_rounds split: if_splits)
next
  case (Cancelling c)
  then show ?thesis using assms by (cases c) (auto simp: tick_rounds split: if_splits)
next
  case (Ended b)
  then show ?thesis using assms by (simp add: tick_rounds)
qed

lemma stoppable_cancelled:
  assumes "stoppable bound x" and "\<not> task_done ((tick ^^ j) x)"
  shows "task_done ((tick ^^ Suc bound) (task_cancel ((tick ^^ j) x)))"
    and "task_done ((tick ^^ i) (task_cancel ((tick ^^ j) x))) \<Longrightarrow> (tick ^^ i) (task_cancel ((tick ^^ j) x)) = Ended True"
proof -
  obtain c where "c \<le> bound" "task_cancel ((tick ^^ j) x) = Cancelling (Some c)"
    using stoppable_cancelling [OF assms] by blast
  then show "task_done ((tick ^^ Suc bound) (task_cancel ((tick ^^ j) x)))"
    "task_done ((tick ^^ i) (task_cancel ((tick ^^ j) x))) \<Longrightarrow> (tick ^^ i) (task_cancel ((tick ^^ j) x)) = Ended True"
    by (simp_all add: tick_rounds del: funpow.simps split: if_splits)
qed

text \<open>What becomes of a task: it ends by itself before the timeout, or it is cancelled.\<close>

definition drained :: "nat \<Rightarrow> task \<Rightarrow> task \<Rightarrow> bool" where
  "drained rounds x x' \<longleftrightarrow>
     task_done x' \<and> (\<forall>l c. x = Working l c \<longrightarrow> x' = Ended (\<not> (\<exists>k < rounds. l = Some k)))"

lemma drained_cases:
  assumes "j \<le> rounds" and "stoppable bound x"
  shows "task_done ((tick ^^ j) x) \<Longrightarrow> drained rounds x ((tick ^^ i) ((tick ^^ j) x))"
    and "j = rounds \<Longrightarrow> \<not> task_done ((tick ^^ j) x) \<Longrightarrow> task_done ((tick ^^ i) (task_cancel ((tick ^^ j) x))) \<Longrightarrow>
      drained rounds x ((tick ^^ i) (task_cancel ((tick ^^ j) x)))"
proof -
  assume d: "task_done ((tick ^^ j) x)"
  then obtain b where b: "(tick ^^ j) x = Ended b" by (cases "(tick ^^ j) x" rule: task_done.cases) auto
  have "b = (\<not> (\<exists>k < rounds. l = Some k))" if "x = Working l c" for l c
    using b that assms(1) by (cases l) (auto simp: tick_rounds split: if_splits)
  with b show "drained rounds x ((tick ^^ i) ((tick ^^ j) x))" by (simp add: drained_def tick_rounds)
next
  assume j: "j = rounds" and n: "\<not> task_done ((tick ^^ j) x)" and d: "task_done ((tick ^^ i) (task_cancel ((tick ^^ j) x)))"
  have "\<not> (\<exists>k < rounds. l = Some k)" if "x = Working l c" for l c
    using n j that by (auto simp: tick_rounds)
  with stoppable_cancelled(2) [OF assms(2) n d] show "drained rounds x ((tick ^^ i) (task_cancel ((tick ^^ j) x)))"
    by (auto simp: drained_def)
qed

lemma done_rounds: "task_done x \<Longrightarrow> (tick ^^ i) x = x"
  by (cases x) (simp_all add: tick_rounds)

lemma drain_ends:
  assumes "\<forall>t \<in> inflight s. Some t \<noteq> current \<longrightarrow> stoppable bound (m t)"
  shows "\<exists>m' n'. drain current rounds s (m, n) = Some (m', n') \<and> n' \<le> n + rounds + Suc bound
     \<and> (\<forall>t \<in> inflight s. Some t \<noteq> current \<longrightarrow> drained rounds (m t) (m' t))
     \<and> (\<forall>t. t \<notin> inflight s \<or> Some t = current \<longrightarrow> (\<exists>i. m' t = (tick ^^ i) (m t)))"
proof -
  define T where "T = {t \<in> inflight s. Some t \<noteq> current \<and> \<not> task_done (m t)}"
  obtain j where j: "j \<le> rounds" "wait_tasks rounds T (m, n) = (\<lambda>t. (tick ^^ j) (m t), n + j)"
      "j = rounds \<or> (\<forall>t \<in> T. task_done ((tick ^^ j) (m t)))"
    using wait_tasks_rounds [of rounds T m n] by blast
  define P where "P = {t \<in> T. \<not> task_done ((tick ^^ j) (m t))}"
  define m2 where "m2 = (\<lambda>t. if t \<in> P then task_cancel ((tick ^^ j) (m t)) else (tick ^^ j) (m t))"
  have P: "j = rounds" "stoppable bound (m t)" "\<not> task_done ((tick ^^ j) (m t))" if "t \<in> P" for t
    using that j(3) assms by (auto simp: P_def T_def)
  have e: "drain current rounds s (m, n) =
      (if T = {} then Some (m, n) else if P = {} then Some (m2, n + j) else gather_tasks P (m2, n + j))"
    unfolding drain_def fst_conv T_def [symmetric] Let_def j(2) snd_conv P_def [symmetric] m2_def ..
  have "\<forall>t \<in> P. task_done ((tick ^^ Suc bound) (m2 t))" using P stoppable_cancelled(1) by (simp add: m2_def del: funpow.simps)
  then obtain k where k: "k \<le> Suc bound" "gather_tasks P (m2, n + j) = Some (\<lambda>t. (tick ^^ k) (m2 t), n + j + k)"
      "\<forall>t \<in> P. task_done ((tick ^^ k) (m2 t))"
    using gather_tasks_rounds [of P "Suc bound" m2 "n + j"] by blast
  have after: "drained rounds (m t) ((tick ^^ i) (m2 t))"
    if t: "t \<in> inflight s" "Some t \<noteq> current" and i: "t \<in> P \<Longrightarrow> task_done ((tick ^^ i) (m2 t))" for t i
  proof (cases "t \<in> P")
    case True
    then show ?thesis using drained_cases(2) [OF j(1), of bound "m t" i] P [OF True] i by (simp add: m2_def)
  next
    case False
    have "task_done ((tick ^^ j) (m t))"
      using False t done_rounds [of "m t" j] by (cases "task_done (m t)") (auto simp: P_def T_def)
    then show ?thesis using drained_cases(1) [OF j(1), of bound "m t" i] assms t False by (simp add: m2_def)
  qed
  have other: "\<exists>i. (tick ^^ i') (m2 t) = (tick ^^ i) (m t)" if "t \<notin> inflight s \<or> Some t = current" for t i'
    using that by (intro exI [of _ "i' + j"]) (auto simp: m2_def P_def T_def funpow_add)
  consider "T = {}" | "T \<noteq> {}" "P = {}" | "T \<noteq> {}" "P \<noteq> {}" by blast
  then show ?thesis
  proof cases
    case 1
    have "drained rounds (m t) (m t)" if "t \<in> inflight s" "Some t \<noteq> current" for t
    proof -
      have "task_done (m t)" using 1 that by (auto simp: T_def)
      then show ?thesis using drained_cases(1) [of 0 rounds bound "m t" 0] assms that by simp
    qed
    with 1 show ?thesis by (intro exI [of _ m] exI [of _ n]) (auto simp: e intro: exI [of _ 0])
  next
    case 2
    with j(1) show ?thesis
      using after [where i = 0] other [where i' = 0] by (intro exI [of _ m2] exI [of _ "n + j"]) (auto simp: e)
  next
    case 3
    with j(1) k(1) show ?thesis
      using after [where i = k] other [where i' = k] k(2,3)
      by (intro exI [of _ "\<lambda>t. (tick ^^ k) (m2 t)"] exI [of _ "n + j + k"]) (auto simp: e)
  qed
qed


section \<open>A sample network\<close>

text \<open>The world is the list of open sockets and the number of TCP binds that still fail.\<close>

definition sample_net :: "(nat list \<times> nat) net" where
  "sample_net =
     \<lparr>net_udp = (\<lambda>p (opened, k). let n = Suc (sum_list opened) in (Inr (n, Some 53), (n # opened, k))),
      net_tcp = (\<lambda>p (opened, k).
        if 0 < k then (Inl (OtherError ''OSError''), (opened, k - 1))
        else let n = Suc (sum_list opened) in (Inr n, (n # opened, k))),
      net_close = (\<lambda>n (opened, k). (filter (\<lambda>x. x \<noteq> n) opened, k))\<rparr>"

definition sample_forever :: "'t server \<Rightarrow> 'w \<Rightarrow> unit res \<times> 't server \<times> 'w" where
  "sample_forever s w = (Inl (OtherError ''CancelledError''), s, w)"

abbreviation sample_opened :: "nat list \<times> nat \<Rightarrow> nat set" where
  "sample_opened w \<equiv> set (fst w)"

lemma fresh_socket: "Suc (sum_list (xs :: nat list)) \<notin> set xs"
  using member_le_sum_list [of "Suc (sum_list xs)" xs] by auto

lemma sample_net_contract: "net_contract sample_net (\<lambda>w. set (fst w))"
  by (auto simp: net_contract_def sample_net_def Let_def fresh_socket split: if_splits)

lemma sample_forever_keeps: "keeps_sockets (\<lambda>w. set (fst w)) sample_forever"
  by (simp add: keeps_sockets_def sample_forever_def)

definition sample_server :: "nat server" where "sample_server = server_init 53"

lemma sample_serve_bind:
  "serve_bind sample_net sample_server ([], 0) = (Inr (),
     \<lparr>sv_port = 53, sv_udp_transport = Some 1,
      sv_udp_protocol = Some \<lparr>up_transport = Some 1, up_tasks = {}, up_accepting = True\<rparr>,
      sv_tcp_server = Some 2, sv_tcp_conns = {}, sv_accepting = True\<rparr>, ([2, 1], 0))"
  by (simp add: serve_bind_def sample_net_def sample_server_def server_init_def connection_made_def
      udp_protocol_init_def Let_def)

theorem serve_releases_sockets_witness:
  "set (fst (snd (snd (serve sample_net sample_forever sample_server ([], 0))))) = {}"
proof -
  obtain r s' w' where e: "serve sample_net sample_forever sample_server ([], 0) = (r, s', w')"
    by (cases "serve sample_net sample_forever sample_server ([], 0)")
  show ?thesis
    using serve_releases_sockets [OF sample_net_contract sample_forever_keeps sample_serve_bind e] e by simp
qed

theorem serve_tcp_bind_failure_leaks_witness:
  "1 \<in> set (fst (snd (snd (serve sample_net sample_forever
      (fst (snd (serve sample_net sample_forever sample_server ([], 1))))
      (snd (snd (serve sample_net sample_forever sample_server ([], 1))))))))"
proof -
  have a: "net_udp sample_net (sv_port sample_server) ([], 1) = (Inr (1, Some 53), ([1], 1))"
    by (simp add: sample_net_def)
  have b: "net_tcp sample_net 53 ([1], 1) = (Inl (OtherError ''OSError''), ([1], 0))"
    by (simp add: sample_net_def)
  obtain r s' w' where e: "serve sample_net sample_forever sample_server ([], 1) = (r, s', w')"
    by (cases "serve sample_net sample_forever sample_server ([], 1)")
  have w: "w' = ([1], 0)"
    using e by (simp add: serve_def serve_bind_def sample_net_def Let_def)
  obtain s2 v where g: "serve_bind sample_net s' w' = (Inr (), s2, v)"
    by (simp add: w serve_bind_def sample_net_def Let_def)
  obtain r2 s3 w3 where h: "serve sample_net sample_forever s' w' = (r2, s3, w3)"
    by (cases "serve sample_net sample_forever s' w'")
  show ?thesis
    using serve_tcp_bind_failure_leaks [OF sample_net_contract sample_forever_keeps a b e g h] e h by simp
qed


end
