(* ===== verification/HttpRetry.thy ===== *)
theory HttpRetry
  imports Prelude
begin

text \<open>
  \<^verbatim>\<open>providers/_http.py\<close>: the status-level retry \<^verbatim>\<open>post_with_retry\<close>. The HTTP
  client, the sleep and the random generator are fields of \<^term>\<open>http_env\<close>, over an unspecified
  world \<^typ>\<open>'w\<close> that each call may change. Building the pooled client is configuration of
  httpx and is not modelled.
\<close>

record http_response =
  status_code :: int
  resp_text :: string

type_synonym form = "(string \<times> string) list"

record 'w http_env =
  http_post :: "string \<Rightarrow> form \<Rightarrow> 'w \<Rightarrow> http_response res \<times> 'w"
  http_sleep :: "real \<Rightarrow> 'w \<Rightarrow> 'w"
  http_uniform :: "real \<Rightarrow> real \<Rightarrow> 'w \<Rightarrow> real \<times> 'w"

definition RETRYABLE_STATUS :: "int list" where
  "RETRYABLE_STATUS = [429, 500, 502, 503, 504]"

record retry_config =
  max_attempts :: int
  base_backoff :: real
  max_backoff :: real
  retry_status :: "int list"

definition default_retry :: retry_config where
  "default_retry =
     \<lparr>max_attempts = 3, base_backoff = 1 / 2, max_backoff = 8, retry_status = RETRYABLE_STATUS\<rparr>"

text \<open>The delay before attempt \<open>attempt + 1\<close>, without and with its jitter.\<close>

definition backoff_delay :: "retry_config \<Rightarrow> nat \<Rightarrow> real" where
  "backoff_delay c attempt = min (max_backoff c) (base_backoff c * 2 ^ (attempt - 1))"

text \<open>The \<^verbatim>\<open>while True\<close> loop, entered with the number of attempts made so far.\<close>

function retry_loop ::
  "'w http_env \<Rightarrow> string \<Rightarrow> form \<Rightarrow> retry_config \<Rightarrow> nat \<Rightarrow> 'w \<Rightarrow> http_response res \<times> 'w" where
  "retry_loop E url data c n w =
     (let attempt = Suc n; (r, w1) = http_post E url data w
      in case r of
           Inl e \<Rightarrow> (Inl e, w1)
         | Inr response \<Rightarrow>
             if status_code response \<notin> set (retry_status c) \<or> max_attempts c \<le> int attempt
             then (Inr response, w1)
             else (let backoff = backoff_delay c attempt;
                       (jitter, w2) = http_uniform E 0 (base_backoff c) w1
                   in retry_loop E url data c attempt (http_sleep E (backoff + jitter) w2)))"
  by pat_completeness auto
termination
  by (relation "measure (\<lambda>(E, url, data, c, n, w). nat (max_attempts c - int n))") auto

declare retry_loop.simps [simp del]

definition post_with_retry ::
  "'w http_env \<Rightarrow> string \<Rightarrow> form \<Rightarrow> retry_config \<Rightarrow> 'w \<Rightarrow> http_response res \<times> 'w" where
  "post_with_retry E url data c w =
     (if max_attempts c < 1 then (Inl (ValueError ''max_attempts must be >= 1''), w)
      else retry_loop E url data c 0 w)"

section \<open>Observing the calls\<close>

text \<open>
  The same environment with a log of its calls, so that statements can speak of what the loop
  does to the outside and not only of its result.
\<close>

datatype http_event = Posted string form "http_response res" | Slept real

definition logged :: "'w http_env \<Rightarrow> ('w \<times> http_event list) http_env" where
  "logged E =
     \<lparr>http_post = (\<lambda>url data (w, l).
        let (r, w1) = http_post E url data w in (r, (w1, l @ [Posted url data r]))),
      http_sleep = (\<lambda>t (w, l). (http_sleep E t w, l @ [Slept t])),
      http_uniform = (\<lambda>a b (w, l). let (x, w1) = http_uniform E a b w in (x, (w1, l)))\<rparr>"

definition is_post :: "http_event \<Rightarrow> bool" where
  "is_post e = (case e of Posted _ _ _ \<Rightarrow> True | Slept _ \<Rightarrow> False)"

definition posts_of :: "http_event list \<Rightarrow> nat" where
  "posts_of l = length (filter is_post l)"

fun sleep_times :: "http_event list \<Rightarrow> real list" where
  "sleep_times [] = []"
| "sleep_times (Slept t # l) = t # sleep_times l"
| "sleep_times (Posted _ _ _ # l) = sleep_times l"

text \<open>What \<^verbatim>\<open>random.uniform\<close> promises.\<close>

definition uniform_in_range :: "'w http_env \<Rightarrow> bool" where
  "uniform_in_range E \<longleftrightarrow>
     (\<forall>a b w. a \<le> b \<longrightarrow> a \<le> fst (http_uniform E a b w) \<and> fst (http_uniform E a b w) \<le> b)"

lemma posts_of_simps [simp]:
  "posts_of [] = 0"
  "posts_of (Posted u d r # l) = Suc (posts_of l)"
  "posts_of (Slept t # l) = posts_of l"
  "posts_of (l @ m) = posts_of l + posts_of m"
  by (simp_all add: posts_of_def is_post_def)

lemma sleep_times_append [simp]: "sleep_times (l @ m) = sleep_times l @ sleep_times m"
  by (induction l rule: sleep_times.induct) auto

lemma logged_post [simp]:
  "http_post (logged E) url data (w, l) =
     (fst (http_post E url data w),
      (snd (http_post E url data w), l @ [Posted url data (fst (http_post E url data w))]))"
  by (simp add: logged_def split: prod.split)

lemma logged_sleep [simp]: "http_sleep (logged E) t (w, l) = (http_sleep E t w, l @ [Slept t])"
  by (simp add: logged_def)

lemma logged_uniform [simp]:
  "http_uniform (logged E) a b (w, l) =
     (fst (http_uniform E a b w), (snd (http_uniform E a b w), l))"
  by (simp add: logged_def split: prod.split)

text \<open>One unfolding of the loop on the logged environment, by the outcome of the attempt.\<close>

lemma retry_loop_stop:
  assumes "case fst (http_post E url data w) of
             Inl e \<Rightarrow> True
           | Inr r \<Rightarrow> status_code r \<notin> set (retry_status c) \<or> max_attempts c \<le> int (Suc n)"
  shows "retry_loop (logged E) url data c n (w, l) =
           (fst (http_post E url data w),
            (snd (http_post E url data w), l @ [Posted url data (fst (http_post E url data w))]))"
  using assms by (subst retry_loop.simps) (auto simp: Let_def split: sum.splits)

lemma retry_loop_again:
  assumes "fst (http_post E url data w) = Inr r" and "status_code r \<in> set (retry_status c)"
    and "int (Suc n) < max_attempts c"
  shows "\<exists>j w'. j = fst (http_uniform E 0 (base_backoff c) (snd (http_post E url data w))) \<and>
           retry_loop (logged E) url data c n (w, l) =
           retry_loop (logged E) url data c (Suc n)
             (w', l @ [Posted url data (Inr r), Slept (backoff_delay c (Suc n) + j)])"
  using assms
  by (subst retry_loop.simps) (auto simp: Let_def split: prod.splits)

section \<open>The retry discipline\<close>

text \<open>
  The events the loop adds: at least one POST, at most the attempts that are left, each to the
  given URL with the given form, one sleep between two POSTs, and a result that is the outcome of
  the last POST.
\<close>

definition retry_trace ::
  "string \<Rightarrow> form \<Rightarrow> retry_config \<Rightarrow> nat \<Rightarrow> http_response res \<Rightarrow> http_event list \<Rightarrow> bool" where
  "retry_trace url data c n r es \<longleftrightarrow>
     1 \<le> posts_of es
     \<and> int (n + posts_of es) \<le> max (max_attempts c) (int (Suc n))
     \<and> length (sleep_times es) + 1 = posts_of es
     \<and> (\<forall>u d x. Posted u d x \<in> set es \<longrightarrow> u = url \<and> d = data)
     \<and> last es = Posted url data r
     \<and> (\<forall>u d x. Posted u d x \<in> set (butlast es) \<longrightarrow>
          (\<exists>resp. x = Inr resp \<and> status_code resp \<in> set (retry_status c)))
     \<and> (\<forall>resp. r = Inr resp \<longrightarrow> status_code resp \<in> set (retry_status c) \<longrightarrow>
          max_attempts c \<le> int (n + posts_of es))"

lemma retry_trace_single:
  assumes "case r of Inl e \<Rightarrow> True
           | Inr resp \<Rightarrow> status_code resp \<notin> set (retry_status c) \<or> max_attempts c \<le> int (Suc n)"
  shows "retry_trace url data c n r [Posted url data r]"
  using assms by (auto simp: retry_trace_def split: sum.splits)

lemma retry_trace_step:
  assumes "retry_trace url data c (Suc n) r es" and "status_code resp \<in> set (retry_status c)"
    and "int (Suc n) < max_attempts c"
  shows "retry_trace url data c n r (Posted url data (Inr resp) # Slept t # es)"
proof -
  have ne: "es \<noteq> []" using assms(1) by (auto simp: retry_trace_def)
  then show ?thesis using assms by (auto simp: retry_trace_def)
qed

text \<open>
  The induction over the attempts, once for every predicate on what is left of the run: it holds
  for a final attempt and is kept by an attempt that is retried.
\<close>

lemma retry_loop_run:
  assumes single: "\<And>n r. (case r of Inl e \<Rightarrow> True
      | Inr x \<Rightarrow> status_code x \<notin> set (retry_status c) \<or> max_attempts c \<le> int (Suc n))
      \<Longrightarrow> P n r [Posted url data r]"
    and step: "\<And>n r x j w es. P (Suc n) r es \<Longrightarrow> status_code x \<in> set (retry_status c)
      \<Longrightarrow> int (Suc n) < max_attempts c \<Longrightarrow> j = fst (http_uniform E 0 (base_backoff c) w)
      \<Longrightarrow> P n r (Posted url data (Inr x) # Slept (backoff_delay c (Suc n) + j) # es)"
  shows "\<exists>r w' es. retry_loop (logged E) url data c n (w, l) = (r, (w', l @ es)) \<and> P n r es"
proof (induction "nat (max_attempts c - int n)" arbitrary: n w l rule: less_induct)
  case less
  let ?p = "fst (http_post E url data w)"
  let ?stop = "case ?p of Inl e \<Rightarrow> True
      | Inr r \<Rightarrow> status_code r \<notin> set (retry_status c) \<or> max_attempts c \<le> int (Suc n)"
  show ?case
  proof (cases ?stop)
    case True
    then show ?thesis using retry_loop_stop [OF True] single [OF True] by blast
  next
    case False
    then obtain r where r: "?p = Inr r" "status_code r \<in> set (retry_status c)"
      "int (Suc n) < max_attempts c" by (auto split: sum.splits)
    from retry_loop_again [OF r] obtain j w' where
      j: "j = fst (http_uniform E 0 (base_backoff c) (snd (http_post E url data w)))" and
      go: "retry_loop (logged E) url data c n (w, l) =
        retry_loop (logged E) url data c (Suc n)
          (w', l @ [Posted url data (Inr r), Slept (backoff_delay c (Suc n) + j)])" by blast
    have "nat (max_attempts c - int (Suc n)) < nat (max_attempts c - int n)" using r(3) by simp
    from less [OF this, of w' "l @ [Posted url data (Inr r), Slept (backoff_delay c (Suc n) + j)]"]
    obtain r' w'' es where
      "retry_loop (logged E) url data c n (w, l) =
       (r', (w'', l @ (Posted url data (Inr r) # Slept (backoff_delay c (Suc n) + j) # es)))"
      "P (Suc n) r' es" using go by auto
    then show ?thesis using step [OF _ r(2,3) j] by blast
  qed
qed

lemma retry_loop_trace:
  "\<exists>r w' es. retry_loop (logged E) url data c n (w, l) = (r, (w', l @ es))
     \<and> retry_trace url data c n r es"
  by (rule retry_loop_run) (auto intro: retry_trace_single retry_trace_step)

lemma backoff_delay_range:
  "0 \<le> base_backoff c \<Longrightarrow> 0 \<le> max_backoff c \<Longrightarrow>
     0 \<le> backoff_delay c n \<and> backoff_delay c n \<le> max_backoff c"
  by (auto simp: backoff_delay_def)

definition sleeps_bounded :: "retry_config \<Rightarrow> http_event list \<Rightarrow> bool" where
  "sleeps_bounded c es \<longleftrightarrow>
     (\<forall>t \<in> set (sleep_times es). 0 \<le> t \<and> t \<le> max_backoff c + base_backoff c)"

lemma retry_loop_trace_sleeps:
  assumes "uniform_in_range E" and "0 \<le> base_backoff c" and "0 \<le> max_backoff c"
  shows "\<exists>r w' es. retry_loop (logged E) url data c n (w, l) = (r, (w', l @ es))
           \<and> (retry_trace url data c n r es \<and> sleeps_bounded c es)"
proof (rule retry_loop_run)
  fix n r j w es
  fix x :: http_response
  assume IH: "retry_trace url data c (Suc n) r es \<and> sleeps_bounded c es"
    and x: "status_code x \<in> set (retry_status c)" "int (Suc n) < max_attempts c"
    and j: "j = fst (http_uniform E 0 (base_backoff c) w)"
  have "0 \<le> j" "j \<le> base_backoff c" using assms j by (auto simp: uniform_in_range_def)
  then show "retry_trace url data c n r
       (Posted url data (Inr x) # Slept (backoff_delay c (Suc n) + j) # es)
     \<and> sleeps_bounded c (Posted url data (Inr x) # Slept (backoff_delay c (Suc n) + j) # es)"
    using IH retry_trace_step [OF _ x] backoff_delay_range [OF assms(2,3), of "Suc n"]
    by (auto simp: sleeps_bounded_def)
qed (auto simp: sleeps_bounded_def intro: retry_trace_single)

text \<open>
  C32: with the default configuration a call makes between one and three POSTs, all with the given
  URL and form, sleeps at most 8.5 seconds between two of them, and ends with the response of the
  last one, which is a retryable status only when all three attempts were used.
\<close>

theorem post_with_retry_bounded:
  assumes "uniform_in_range E"
  shows "\<exists>r w' es. post_with_retry (logged E) url data default_retry (w, []) = (r, (w', es))
           \<and> retry_trace url data default_retry 0 r es
           \<and> posts_of es \<le> 3
           \<and> (\<forall>t \<in> set (sleep_times es). 0 \<le> t \<and> t \<le> 17 / 2)"
proof -
  have c: "0 \<le> base_backoff default_retry" "0 \<le> max_backoff default_retry"
    by (simp_all add: default_retry_def)
  obtain r w' es where
    run: "retry_loop (logged E) url data default_retry 0 (w, []) = (r, (w', [] @ es))" and
    tr: "retry_trace url data default_retry 0 r es" "sleeps_bounded default_retry es"
    using retry_loop_trace_sleeps [OF assms c] by blast
  have "posts_of es \<le> 3" using tr(1) by (simp add: retry_trace_def default_retry_def)
  moreover have "post_with_retry (logged E) url data default_retry (w, []) = (r, (w', es))"
    using run by (simp add: post_with_retry_def default_retry_def)
  ultimately show ?thesis using tr by (auto simp: sleeps_bounded_def default_retry_def)
qed

text \<open>A server that answers 503 once and then 200.\<close>

definition flaky_env :: "nat http_env" where
  "flaky_env =
     \<lparr>http_post = (\<lambda>url data k.
        (Inr \<lparr>status_code = (if k = 0 then 503 else 200), resp_text = ''good''\<rparr>, Suc k)),
      http_sleep = (\<lambda>t k. k),
      http_uniform = (\<lambda>a b k. (a, k))\<rparr>"

theorem post_with_retry_bounded_witness:
  "uniform_in_range flaky_env
   \<and> (\<exists>r w' es. post_with_retry (logged flaky_env) ''u'' [] default_retry (0, []) = (r, (w', es))
        \<and> posts_of es \<le> 3)"
proof -
  have u: "uniform_in_range flaky_env" by (simp add: uniform_in_range_def flaky_env_def)
  from post_with_retry_bounded [OF u, of "''u''" "[]" 0] show ?thesis using u by blast
qed

end
