(* ===== verification/Hurricane.thy ===== *)
theory Hurricane
  imports HttpRetry ProviderBase
begin

text \<open>
  \<^verbatim>\<open>providers/hurricane.py\<close>: the Hurricane Electric provider. Its state is the table of
  per-record dynamic keys and the placeholder written on cleanup; the shared HTTP client is the
  \<^typ>\<open>'w http_env\<close> argument. The parsing of the backend configuration by pydantic is the
  argument \<^verbatim>\<open>validate\<close> of \<open>hurricane_from_config\<close>.
\<close>

section \<open>Definitions\<close>

definition OK_RESPONSES :: "string list" where
  "OK_RESPONSES = [''good'', ''nochg'']"

definition HARD_ERROR_RESPONSES :: "string list" where
  "HARD_ERROR_RESPONSES = [''badauth'', ''nohost'', ''!yours'', ''notfqdn'', ''abuse'']"

definition CLEANUP_BENIGN_RESPONSES :: "string list" where
  "CLEANUP_BENIGN_RESPONSES = [''noipv4'', ''noipv6'']"

record hurricane_config =
  hc_cleanup_placeholder :: string

definition default_placeholder :: string where
  "default_placeholder = ''acme-challenge-cleared''"

record hurricane =
  h_record_keys :: "(string \<times> string) list"
  h_cleanup_placeholder :: string

definition ENDPOINT :: string where
  "ENDPOINT = ''https://dyn.dns.he.net/nic/update''"

definition normalize_record :: "string \<Rightarrow> string" where
  "normalize_record record_name = py_lower (rstrip_dot record_name)"

fun init_record_keys :: "(string \<times> string) list \<Rightarrow> (string \<times> string) list \<Rightarrow> (string \<times> string) list"
  where
    "init_record_keys acc [] = acc"
  | "init_record_keys acc ((name, key) # rest) =
       init_record_keys (AList.update (normalize_record name) key acc) rest"

definition hurricane_init :: "(string \<times> string) list option \<Rightarrow> string \<Rightarrow> hurricane" where
  "hurricane_init record_keys placeholder =
     \<lparr>h_record_keys = init_record_keys [] (case record_keys of None \<Rightarrow> [] | Some ks \<Rightarrow> ks),
      h_cleanup_placeholder = placeholder\<rparr>"

definition hurricane_from_config ::
  "(config \<Rightarrow> hurricane_config res) \<Rightarrow> config \<Rightarrow> hurricane res" where
  "hurricane_from_config validate config =
     (case validate config of
        Inl e \<Rightarrow> Inl e
      | Inr parsed \<Rightarrow> Inr (hurricane_init None (hc_cleanup_placeholder parsed)))"

definition register_record_key :: "string \<Rightarrow> string \<Rightarrow> hurricane \<Rightarrow> hurricane" where
  "register_record_key record_name dynamic_key h =
     h\<lparr>h_record_keys := AList.update (normalize_record record_name) dynamic_key (h_record_keys h)\<rparr>"

definition key_for :: "hurricane \<Rightarrow> string \<Rightarrow> string res" where
  "key_for h record_name =
     (case map_of (h_record_keys h) (normalize_record record_name) of
        Some key \<Rightarrow> Inr key
      | None \<Rightarrow> Inl (ProviderError (''no HE dynamic key configured for record '' @ py_repr record_name)))"

text \<open>What \<^verbatim>\<open>_update\<close> makes of the outcome of the POST.\<close>

definition he_outcome :: "string \<Rightarrow> bool \<Rightarrow> http_response res \<Rightarrow> unit res" where
  "he_outcome hostname cleanup r =
     (case r of
        Inl (HTTPError name) \<Rightarrow>
          Inl (ProviderError (''HE request failed for '' @ py_repr hostname @ '': '' @ name))
      | Inl e \<Rightarrow> Inl e
      | Inr response \<Rightarrow>
          if status_code response \<noteq> 200
          then Inl (ProviderError (''HE returned HTTP '' @ int_str (status_code response)
                 @ '' for '' @ py_repr hostname))
          else (let status = py_lower (first_field (resp_text response))
                in if status \<in> set OK_RESPONSES then Inr ()
                   else if cleanup \<and> status \<in> set CLEANUP_BENIGN_RESPONSES then Inr ()
                   else if status \<in> set HARD_ERROR_RESPONSES
                   then Inl (ProviderError (''HE rejected update for '' @ py_repr hostname
                          @ '': '' @ status))
                   else Inl (ProviderError (''HE unexpected response for '' @ py_repr hostname
                          @ '': '' @ py_repr status))))"

definition update_form :: "string \<Rightarrow> string \<Rightarrow> string \<Rightarrow> form" where
  "update_form hostname password txt_value =
     [(''hostname'', hostname), (''password'', password), (''txt'', txt_value)]"

definition hurricane_update ::
  "'w http_env \<Rightarrow> hurricane \<Rightarrow> string \<Rightarrow> string \<Rightarrow> bool \<Rightarrow> 'w \<Rightarrow> unit res \<times> 'w" where
  "hurricane_update E h record_name txt_value cleanup w =
     (let hostname = normalize_record record_name
      in case key_for h record_name of
           Inl e \<Rightarrow> (Inl e, w)
         | Inr password \<Rightarrow>
             let (r, w1) = post_with_retry E ENDPOINT (update_form hostname password txt_value)
                             default_retry w
             in (he_outcome hostname cleanup r, w1))"

definition hurricane_present :: "'w http_env \<Rightarrow> hurricane \<Rightarrow> 'w provider_call" where
  "hurricane_present E h zone record_name values w =
     (case values of
        [v] \<Rightarrow> hurricane_update E h record_name v False w
      | _ \<Rightarrow> (Inl (ProviderError (''hurricane supports exactly one TXT value per record (got ''
              @ int_str (int (length values)) @ ''); supports_multivalue is False'')), w))"

definition hurricane_cleanup :: "'w http_env \<Rightarrow> hurricane \<Rightarrow> 'w provider_call" where
  "hurricane_cleanup E h zone record_name values w =
     hurricane_update E h record_name (h_cleanup_placeholder h) True w"

definition hurricane_validate :: "hurricane \<Rightarrow> 'w \<Rightarrow> unit res \<times> 'w" where
  "hurricane_validate h w =
     (if h_record_keys h = []
      then (Inl (ProviderError ''hurricane provider has no per-record dynamic keys''), w)
      else (Inr (), w))"

lemmas hurricane_defs =
  hurricane_update_def hurricane_present_def hurricane_cleanup_def update_form_def

section \<open>The key table\<close>

lemma normalize_record_idem [simp]: "normalize_record (normalize_record r) = normalize_record r"
  by (simp add: normalize_record_def rstrip_dot_lower)

lemma normalize_record_dot [simp]: "normalize_record (r @ ''.'') = normalize_record r"
  by (simp add: normalize_record_def)

lemma key_for_register:
  "key_for (register_record_key r k h) r' =
     (if normalize_record r' = normalize_record r then Inr k else key_for h r')"
  by (simp add: key_for_def register_record_key_def)

lemma map_of_init_record_keys:
  "map_of (init_record_keys acc ks) r =
     (case map_of (map (\<lambda>(n, k). (normalize_record n, k)) (rev ks)) r of
        Some k \<Rightarrow> Some k | None \<Rightarrow> map_of acc r)"
  by (induction acc ks rule: init_record_keys.induct)
    (auto simp: map_add_Some_iff map_add_def split: option.splits)

section \<open>Outcomes\<close>

lemma he_outcome_ok:
  "he_outcome hostname cleanup r = Inr () \<longleftrightarrow>
     (\<exists>resp. r = Inr resp \<and> status_code resp = 200
        \<and> (py_lower (first_field (resp_text resp)) \<in> set OK_RESPONSES
           \<or> cleanup \<and> py_lower (first_field (resp_text resp)) \<in> set CLEANUP_BENIGN_RESPONSES))"
  by (auto simp: he_outcome_def Let_def split: sum.splits exn.splits)

text \<open>
  What httpx documents of a request that gets no response: it raises a subclass of
  \<^verbatim>\<open>httpx.HTTPError\<close>.
\<close>

definition http_failures_only :: "'w http_env \<Rightarrow> bool" where
  "http_failures_only E \<longleftrightarrow>
     (\<forall>url data w e. fst (http_post E url data w) = Inl e \<longrightarrow> (\<exists>name. e = HTTPError name))"

lemma retry_loop_last_post:
  "retry_loop E url data c n w = (r, w') \<Longrightarrow> \<exists>w0. http_post E url data w0 = (r, w')"
proof (induction E url data c n w rule: retry_loop.induct)
  case (1 E url data c n w)
  show ?case
    using 1
    by (subst (asm) (2) retry_loop.simps)
      (auto simp: Let_def split: sum.splits prod.splits if_splits)
qed

lemma post_with_retry_last_post:
  "post_with_retry E url data default_retry w = (r, w') \<Longrightarrow> \<exists>w0. http_post E url data w0 = (r, w')"
  by (auto simp: post_with_retry_def default_retry_def dest: retry_loop_last_post)

text \<open>
  A present succeeds exactly when one value is given, the record has a key, and the last
  response to the update form (host name, key, value) is HTTP 200 with \<open>good\<close> or \<open>nochg\<close>.
\<close>

theorem hurricane_present_ok_iff:
  "fst (hurricane_present E h zone record_name values w) = Inr () \<longleftrightarrow>
     (\<exists>v key resp. values = [v] \<and> key_for h record_name = Inr key
        \<and> fst (post_with_retry E ENDPOINT
                 (update_form (normalize_record record_name) key v) default_retry w) = Inr resp
        \<and> status_code resp = 200
        \<and> py_lower (first_field (resp_text resp)) \<in> set OK_RESPONSES)"
  by (auto simp: hurricane_present_def hurricane_update_def he_outcome_ok Let_def
      split: list.splits sum.splits prod.splits)

text \<open>
  Under httpx's error contract every failure of a present or a cleanup is a ProviderError,
  which the dispatcher maps to an answer; nothing else escapes.
\<close>

theorem hurricane_failures_are_provider_errors:
  assumes "http_failures_only E"
    and "fst (hurricane_present E h zone record_name values w) = Inl e
       \<or> fst (hurricane_cleanup E h zone record_name values w) = Inl e"
  shows "\<exists>msg. e = ProviderError msg"
proof -
  have upd: "\<exists>msg. e = ProviderError msg"
    if "fst (hurricane_update E h record_name v b w) = Inl e" for v b
  proof (cases "key_for h record_name")
    case (Inl e')
    then show ?thesis
      using that by (auto simp: hurricane_update_def key_for_def split: option.splits)
  next
    case (Inr key)
    let ?p = "post_with_retry E ENDPOINT (update_form (normalize_record record_name) key v)
                default_retry w"
    have "he_outcome (normalize_record record_name) b (fst ?p) = Inl e"
      using that Inr by (simp add: hurricane_update_def Let_def split: prod.splits)
    moreover have "fst ?p = Inl x \<Longrightarrow> \<exists>name. x = HTTPError name" for x
      using post_with_retry_last_post [of E ENDPOINT _ w "fst ?p" "snd ?p"] assms(1)
      unfolding http_failures_only_def by (metis fst_conv prod.collapse)
    ultimately show ?thesis
      by (auto simp: he_outcome_def Let_def split: sum.splits if_splits)
  qed
  show ?thesis
    using assms(2) upd
    by (auto simp: hurricane_present_def hurricane_cleanup_def split: list.splits)
qed

text \<open>A server whose answer does not depend on the submitted key.\<close>

definition ignores_password :: "'w http_env \<Rightarrow> bool" where
  "ignores_password E \<longleftrightarrow>
     (\<forall>url host p q txt w.
        http_post E url (update_form host p txt) w = http_post E url (update_form host q txt) w)"

lemma retry_loop_ignores_password:
  assumes "ignores_password E"
  shows "retry_loop E url (update_form host p txt) c n w = retry_loop E url (update_form host q txt) c n w"
proof (induction "nat (max_attempts c - int n)" arbitrary: n w rule: less_induct)
  case less
  have "http_post E url (update_form host p txt) w = http_post E url (update_form host q txt) w"
    using assms by (simp add: ignores_password_def)
  then show ?case
    using less
    by (subst (1 2) retry_loop.simps) (auto simp: Let_def split: sum.splits prod.splits)
qed

text \<open>
  The dynamic key of a record does not reach an error message. If the server answers
  whatever the submitted key is, two providers that hold keys for the same records report the
  same outcome.
\<close>

theorem hurricane_errors_independent_of_key:
  assumes "ignores_password E"
    and "map fst (h_record_keys h) = map fst (h_record_keys h')"
    and "h_cleanup_placeholder h = h_cleanup_placeholder h'"
  shows "hurricane_present E h zone record_name values w = hurricane_present E h' zone record_name values w
       \<and> hurricane_cleanup E h zone record_name values w = hurricane_cleanup E h' zone record_name values w"
proof -
  have dom: "map_of (h_record_keys h) r = None \<longleftrightarrow> map_of (h_record_keys h') r = None" for r
    using assms(2) by (metis map_of_eq_None_iff set_map)
  have upd: "hurricane_update E h record_name v b w = hurricane_update E h' record_name v b w" for v b
  proof (cases "map_of (h_record_keys h) (normalize_record record_name)")
    case None
    then show ?thesis
      using dom [of "normalize_record record_name"] by (simp add: hurricane_update_def key_for_def)
  next
    case (Some k)
    then obtain k' where k': "map_of (h_record_keys h') (normalize_record record_name) = Some k'"
      using dom [of "normalize_record record_name"] by fastforce
    show ?thesis
      using Some k' retry_loop_ignores_password
        [OF assms(1), of ENDPOINT "normalize_record record_name" k v default_retry 0 w k']
      by (simp add: hurricane_update_def key_for_def post_with_retry_def default_retry_def Let_def)
  qed
  show ?thesis
    using upd assms(3) by (simp add: hurricane_present_def hurricane_cleanup_def split: list.splits)
qed

section \<open>Witnesses\<close>

definition he_sample :: hurricane where
  "he_sample = register_record_key ''_acme-challenge.Example.com.'' ''k1''
                 (hurricane_init None default_placeholder)"

theorem hurricane_failures_are_provider_errors_witness:
  "http_failures_only flaky_env
   \<and> (\<exists>e. fst (hurricane_present flaky_env he_sample ''z'' ''other.org.'' [''t''] 0) = Inl e
        \<and> (\<exists>msg. e = ProviderError msg))"
proof -
  have h: "http_failures_only flaky_env" by (simp add: http_failures_only_def flaky_env_def)
  obtain e where e: "fst (hurricane_present flaky_env he_sample ''z'' ''other.org.'' [''t''] 0) = Inl e"
    by (simp add: hurricane_present_def hurricane_update_def key_for_def he_sample_def
        register_record_key_def hurricane_init_def normalize_record_def rstrip_dot_def rstrip_by_def
        py_lower_def char_lower_def Let_def)
  show ?thesis
    using h e hurricane_failures_are_provider_errors [OF h disjI1 [OF e]] by blast
qed

theorem hurricane_errors_independent_of_key_witness:
  "ignores_password flaky_env
   \<and> hurricane_present flaky_env he_sample ''z'' ''_acme-challenge.example.com'' [''t''] 0
     = hurricane_present flaky_env
         (register_record_key ''_acme-challenge.Example.com.'' ''k2''
            (hurricane_init None default_placeholder))
         ''z'' ''_acme-challenge.example.com'' [''t''] 0"
proof -
  have i: "ignores_password flaky_env" by (simp add: ignores_password_def flaky_env_def)
  show ?thesis
    using i hurricane_errors_independent_of_key [OF i, of he_sample
        "register_record_key ''_acme-challenge.Example.com.'' ''k2''
            (hurricane_init None default_placeholder)"]
    by (simp add: he_sample_def register_record_key_def hurricane_init_def)
qed

end
