(* ===== verification/Route53.thy ===== *)
theory Route53
  imports ProviderBase
begin

text \<open>
  \<^verbatim>\<open>providers/route53.py\<close>: the Route 53 provider. The aiobotocore client is the record
  \<^term>\<open>r53_client\<close> of the calls the provider makes, over an unspecified world; an error of the
  SDK (\<^verbatim>\<open>ClientError\<close> or \<^verbatim>\<open>BotoCoreError\<close>) is \<^const>\<open>AwsError\<close> with the
  name of its class. What the service promises is the predicate \<open>r53_service\<close>, over an abstraction
  of the world to the TXT record sets of the hosted zone.
\<close>

section \<open>Definitions\<close>

record route53_config =
  rf_access_key_id :: string
  rf_secret_access_key :: string
  rf_hosted_zone_id :: string
  rf_region :: "string option"
  rf_await_insync :: bool

record rrset53 =
  rs_name :: string
  rs_type :: "string option"
  rs_ttl :: "int option"
  rs_values :: "string list"

datatype change_action = UPSERT | DELETE

definition action_text :: "change_action \<Rightarrow> string" where
  "action_text a = (case a of UPSERT \<Rightarrow> ''UPSERT'' | DELETE \<Rightarrow> ''DELETE'')"

text \<open>One change of a ChangeBatch; its record type is always \<open>TXT\<close>.\<close>

record change53 =
  ch_action :: change_action
  ch_name :: string
  ch_type :: string
  ch_ttl :: int
  ch_values :: "string list"

text \<open>
  The calls of the client. \<open>rc_list\<close> is ListResourceRecordSets with its hosted zone, start name, start type and
  maximal number of items, which the API takes as a string.
\<close>

record 'w r53_client =
  rc_enter :: "'w \<Rightarrow> unit res \<times> 'w"
  rc_exit :: "'w \<Rightarrow> unit res \<times> 'w"
  rc_list :: "string \<Rightarrow> string \<Rightarrow> string \<Rightarrow> string \<Rightarrow> 'w \<Rightarrow> rrset53 list res \<times> 'w"
  rc_change :: "string \<Rightarrow> change53 list \<Rightarrow> 'w \<Rightarrow> string res \<times> 'w"
  rc_get_change :: "string \<Rightarrow> 'w \<Rightarrow> string res \<times> 'w"
  rc_get_hosted_zone :: "string \<Rightarrow> 'w \<Rightarrow> unit res \<times> 'w"
  rc_sleep :: "real \<Rightarrow> 'w \<Rightarrow> 'w"

record route53 =
  rp_hosted_zone_id :: string
  rp_region :: "string option"
  rp_ttl :: int
  rp_await_insync :: bool
  rp_insync_interval :: real
  rp_insync_max_attempts :: nat

definition TXT_TTL :: int where "TXT_TTL = 60"
definition INSYNC_POLL_INTERVAL :: real where "INSYNC_POLL_INTERVAL = 2"
definition INSYNC_MAX_ATTEMPTS :: nat where "INSYNC_MAX_ATTEMPTS = 30"

definition route53_from_config :: "(config \<Rightarrow> route53_config res) \<Rightarrow> config \<Rightarrow> route53 res" where
  "route53_from_config validate config =
     (case validate config of
        Inl e \<Rightarrow> Inl e
      | Inr cfg \<Rightarrow>
          Inr \<lparr>rp_hosted_zone_id = rf_hosted_zone_id cfg, rp_region = rf_region cfg,
               rp_ttl = TXT_TTL, rp_await_insync = rf_await_insync cfg,
               rp_insync_interval = INSYNC_POLL_INTERVAL,
               rp_insync_max_attempts = INSYNC_MAX_ATTEMPTS\<rparr>)"

definition normalize_name :: "string \<Rightarrow> string" where
  "normalize_name record_name = py_lower (rstrip_dot record_name) @ ''.''"

abbreviation backslash :: char where "backslash \<equiv> char_of (92::nat)"
abbreviation dquote :: char where "dquote \<equiv> char_of (34::nat)"

definition quote :: "string \<Rightarrow> string" where
  "quote token =
     [dquote] @ replace_char dquote [backslash, dquote] (replace_char backslash [backslash, backslash] token)
       @ [dquote]"

definition record_values :: "rrset53 option \<Rightarrow> string list" where
  "record_values rrset = (case rrset of None \<Rightarrow> [] | Some r \<Rightarrow> rs_values r)"

text \<open>\<^verbatim>\<open>async with self._client_factory() as client\<close> around a body.\<close>

definition with_client ::
  "'w r53_client \<Rightarrow> ('w \<Rightarrow> 'a res \<times> 'w) \<Rightarrow> 'w \<Rightarrow> 'a res \<times> 'w" where
  "with_client C body w =
     (case rc_enter C w of
        (Inl e, w1) \<Rightarrow> (Inl e, w1)
      | (Inr _, w1) \<Rightarrow>
          let (r, w2) = body w1
          in case rc_exit C w2 of
               (Inl e, w3) \<Rightarrow> (Inl e, w3)
             | (Inr _, w3) \<Rightarrow> (r, w3))"

definition rrset_matches :: "string \<Rightarrow> rrset53 \<Rightarrow> bool" where
  "rrset_matches name r \<longleftrightarrow> rs_type r = Some ''TXT'' \<and> normalize_name (rs_name r) = name"

definition read_rrset ::
  "'w r53_client \<Rightarrow> route53 \<Rightarrow> string \<Rightarrow> 'w \<Rightarrow> rrset53 option res \<times> 'w" where
  "read_rrset C p name w =
     (case rc_list C (rp_hosted_zone_id p) name ''TXT'' ''1'' w of
        (Inl (AwsError ty), w1) \<Rightarrow>
          (Inl (ProviderError (''route53 ListResourceRecordSets failed: '' @ ty)), w1)
      | (Inl e, w1) \<Rightarrow> (Inl e, w1)
      | (Inr rrsets, w1) \<Rightarrow> (Inr (find (rrset_matches name) rrsets), w1))"

fun wait_insync_loop ::
  "'w r53_client \<Rightarrow> route53 \<Rightarrow> string \<Rightarrow> nat \<Rightarrow> 'w \<Rightarrow> unit res \<times> 'w" where
  "wait_insync_loop C p change_id 0 w =
     (Inl (ProviderError (''route53 change '' @ py_repr change_id @ '' not INSYNC after ''
        @ int_str (int (rp_insync_max_attempts p)) @ '' polls'')), w)"
| "wait_insync_loop C p change_id (Suc left) w =
     (case rc_get_change C change_id w of
        (Inl (AwsError ty), w1) \<Rightarrow>
          (Inl (ProviderError (''route53 GetChange failed: '' @ ty)), w1)
      | (Inl e, w1) \<Rightarrow> (Inl e, w1)
      | (Inr status, w1) \<Rightarrow>
          if status = ''INSYNC'' then (Inr (), w1)
          else wait_insync_loop C p change_id left (rc_sleep C (rp_insync_interval p) w1))"

definition wait_insync :: "'w r53_client \<Rightarrow> route53 \<Rightarrow> string \<Rightarrow> 'w \<Rightarrow> unit res \<times> 'w" where
  "wait_insync C p change_id w = wait_insync_loop C p change_id (rp_insync_max_attempts p) w"

definition change ::
  "'w r53_client \<Rightarrow> route53 \<Rightarrow> change_action \<Rightarrow> string \<Rightarrow> int \<Rightarrow> string list \<Rightarrow> 'w \<Rightarrow> unit res \<times> 'w"
  where
    "change C p action name ttl values w =
       (let batch = [\<lparr>ch_action = action, ch_name = name, ch_type = ''TXT'', ch_ttl = ttl,
                      ch_values = values\<rparr>]
        in case rc_change C (rp_hosted_zone_id p) batch w of
             (Inl (AwsError ty), w1) \<Rightarrow>
               (Inl (ProviderError (''route53 '' @ action_text action @ '' failed for ''
                  @ py_repr name @ '': '' @ ty)), w1)
           | (Inl e, w1) \<Rightarrow> (Inl e, w1)
           | (Inr change_id, w1) \<Rightarrow>
               if rp_await_insync p then wait_insync C p change_id w1 else (Inr (), w1))"

fun merge_values :: "string list \<Rightarrow> string list \<Rightarrow> string list" where
  "merge_values merged [] = merged"
| "merge_values merged (v # vs) =
     merge_values (if v \<in> set merged then merged else merged @ [v]) vs"

text \<open>The body of \<^verbatim>\<open>present\<close> inside the client's context, then the operation.\<close>

definition present_body ::
  "'w r53_client \<Rightarrow> route53 \<Rightarrow> string \<Rightarrow> string list \<Rightarrow> 'w \<Rightarrow> unit res \<times> 'w" where
  "present_body C p name new_values w =
     (case read_rrset C p name w of
        (Inl e, w1) \<Rightarrow> (Inl e, w1)
      | (Inr existing, w1) \<Rightarrow>
          let current = record_values existing; merged = merge_values current new_values
          in if merged = current then (Inr (), w1)
             else change C p UPSERT name (rp_ttl p) merged w1)"

definition route53_present :: "'w r53_client \<Rightarrow> route53 \<Rightarrow> 'w provider_call" where
  "route53_present C p zone record_name values w =
     with_client C (present_body C p (normalize_name record_name) (map quote values)) w"

definition cleanup_body ::
  "'w r53_client \<Rightarrow> route53 \<Rightarrow> string \<Rightarrow> string list \<Rightarrow> 'w \<Rightarrow> unit res \<times> 'w" where
  "cleanup_body C p name values w =
     (case read_rrset C p name w of
        (Inl e, w1) \<Rightarrow> (Inl e, w1)
      | (Inr None, w1) \<Rightarrow> (Inr (), w1)
      | (Inr (Some existing), w1) \<Rightarrow>
          let current = record_values (Some existing);
              remove = map quote values;
              remaining = (if values = [] then [] else filter (\<lambda>v. v \<notin> set remove) current)
          in if values \<noteq> [] \<and> remaining = current then (Inr (), w1)
             else if remaining \<noteq> [] then change C p UPSERT name (rp_ttl p) remaining w1
             else change C p DELETE name
                    (case rs_ttl existing of Some t \<Rightarrow> t | None \<Rightarrow> rp_ttl p) current w1)"

definition route53_cleanup :: "'w r53_client \<Rightarrow> route53 \<Rightarrow> 'w provider_call" where
  "route53_cleanup C p zone record_name values w =
     with_client C (cleanup_body C p (normalize_name record_name) values) w"

definition route53_validate :: "'w r53_client \<Rightarrow> route53 \<Rightarrow> 'w \<Rightarrow> unit res \<times> 'w" where
  "route53_validate C p w =
     (case with_client C (rc_get_hosted_zone C (rp_hosted_zone_id p)) w of
        (Inl (AwsError ty), w1) \<Rightarrow>
          (Inl (ProviderError (''route53 GetHostedZone failed for zone ''
             @ py_repr (rp_hosted_zone_id p) @ '': '' @ ty)), w1)
      | rw \<Rightarrow> rw)"

section \<open>Quoting is injective\<close>

definition esc_char :: "char \<Rightarrow> string" where
  "esc_char c = (if c = backslash then [backslash, backslash]
                 else if c = dquote then [backslash, dquote] else [c])"

lemma quote_escapes: "quote token = dquote # concat (map esc_char token) @ [dquote]"
  by (induction token) (simp_all add: quote_def esc_char_def)

lemma concat_esc_inj: "concat (map esc_char s) = concat (map esc_char t) \<Longrightarrow> s = t"
proof (induction s arbitrary: t)
  case Nil
  then show ?case by (cases t) (auto simp: esc_char_def split: if_splits)
next
  case (Cons c s)
  then obtain d t' where t: "t = d # t'" by (cases t) (auto simp: esc_char_def split: if_splits)
  have "c = d \<and> concat (map esc_char s) = concat (map esc_char t')"
    using Cons.prems t by (auto simp: esc_char_def [of c] esc_char_def [of d] split: if_splits)
  then show ?case using Cons.IH t by blast
qed

lemma quote_inject [simp]: "quote s = quote t \<longleftrightarrow> s = t"
  using concat_esc_inj by (auto simp: quote_escapes)

section \<open>Names and merging\<close>

lemma normalize_name_idem [simp]: "normalize_name (normalize_name r) = normalize_name r"
  by (simp add: normalize_name_def py_lower_append rstrip_dot_lower)

lemma set_merge_values [simp]: "set (merge_values m vs) = set m \<union> set vs"
  by (induction m vs rule: merge_values.induct) auto

lemma distinct_merge_values: "distinct m \<Longrightarrow> distinct (merge_values m vs)"
  by (induction m vs rule: merge_values.induct) auto

lemma merge_values_prefix: "\<exists>zs. merge_values m vs = m @ zs"
proof (induction m vs rule: merge_values.induct)
  case (2 merged v vs)
  then show ?case by (cases "v \<in> set merged") auto
qed simp

lemma merge_values_noop: "set vs \<subseteq> set m \<Longrightarrow> merge_values m vs = m"
  by (induction m vs rule: merge_values.induct) auto

lemma merge_values_same_iff: "merge_values m vs = m \<longleftrightarrow> set vs \<subseteq> set m"
  using merge_values_noop set_merge_values by (metis Un_upper2)

section \<open>The service\<close>

text \<open>
  What Route 53 documents, over the abstraction \<open>look\<close> of the world to the TXT record sets of
  the hosted zone \<open>zid\<close>: \<^verbatim>\<open>ListResourceRecordSets\<close> started at a name returns that
  name's set when it exists (and, by its ordering, no other set of that name when it does not);
  \<^verbatim>\<open>UPSERT\<close> stores the given set; \<^verbatim>\<open>DELETE\<close> removes a set that is given exactly.
  Stored sets are not empty. Names are in the service's normal form.
\<close>

type_synonym zone_view = "string \<Rightarrow> (int \<times> string list) option"

abbreviation one_change :: "change_action \<Rightarrow> string \<Rightarrow> int \<Rightarrow> string list \<Rightarrow> change53 list" where
  "one_change a name ttl vs \<equiv>
     [\<lparr>ch_action = a, ch_name = name, ch_type = ''TXT'', ch_ttl = ttl, ch_values = vs\<rparr>]"

definition list_answers :: "zone_view \<Rightarrow> string \<Rightarrow> rrset53 list \<Rightarrow> bool" where
  "list_answers v name rrsets =
     (case v name of
        None \<Rightarrow> find (rrset_matches name) rrsets = None
      | Some (ttl, vs) \<Rightarrow>
          (\<exists>r. find (rrset_matches name) rrsets = Some r \<and> rs_ttl r = Some ttl \<and> rs_values r = vs))"

definition r53_service :: "'w r53_client \<Rightarrow> string \<Rightarrow> ('w \<Rightarrow> zone_view) \<Rightarrow> bool" where
  "r53_service C zid look \<longleftrightarrow>
     (\<forall>w. \<exists>w'. rc_enter C w = (Inr (), w') \<and> look w' = look w)
   \<and> (\<forall>w. \<exists>w'. rc_exit C w = (Inr (), w') \<and> look w' = look w)
   \<and> (\<forall>name w. normalize_name name = name \<longrightarrow>
        (\<exists>rrsets w'. rc_list C zid name ''TXT'' ''1'' w = (Inr rrsets, w') \<and> look w' = look w
           \<and> list_answers (look w) name rrsets))
   \<and> (\<forall>name ttl vs w. normalize_name name = name \<longrightarrow> vs \<noteq> [] \<longrightarrow>
        (\<exists>i w'. rc_change C zid (one_change UPSERT name ttl vs) w = (Inr i, w')
           \<and> look w' = (look w)(name \<mapsto> (ttl, vs))))
   \<and> (\<forall>name ttl vs w. look w name = Some (ttl, vs) \<longrightarrow>
        (\<exists>i w'. rc_change C zid (one_change DELETE name ttl vs) w = (Inr i, w')
           \<and> look w' = (look w)(name := None)))
   \<and> (\<forall>w name ttl vs. look w name = Some (ttl, vs) \<longrightarrow> vs \<noteq> [])"

definition stored :: "zone_view \<Rightarrow> string \<Rightarrow> string list" where
  "stored v name = (case v name of None \<Rightarrow> [] | Some (ttl, vs) \<Rightarrow> vs)"

text \<open>The tokens published at a record: those whose quoted form is stored.\<close>

definition published :: "zone_view \<Rightarrow> string \<Rightarrow> string set" where
  "published v record_name = {t. quote t \<in> set (stored v (normalize_name record_name))}"

lemma service_enter: "r53_service C zid look \<Longrightarrow> \<exists>w'. rc_enter C w = (Inr (), w') \<and> look w' = look w"
  by (simp add: r53_service_def)

lemma service_exit: "r53_service C zid look \<Longrightarrow> \<exists>w'. rc_exit C w = (Inr (), w') \<and> look w' = look w"
  by (simp add: r53_service_def)

lemma service_nonempty: "r53_service C zid look \<Longrightarrow> look w name = Some (ttl, vs) \<Longrightarrow> vs \<noteq> []"
  unfolding r53_service_def by blast

text \<open>A body between entering and leaving the client, when neither fails.\<close>

lemma with_client_run:
  assumes "r53_service C zid look"
    and "\<And>w1. look w1 = look w \<Longrightarrow> \<exists>r w2. body w1 = (r, w2) \<and> P r (look w2)"
  shows "\<exists>r w'. with_client C body w = (r, w') \<and> P r (look w')"
proof -
  obtain w1 where w1: "rc_enter C w = (Inr (), w1)" "look w1 = look w"
    using service_enter [OF assms(1)] by blast
  from assms(2) [OF w1(2)] obtain r w2 where w2: "body w1 = (r, w2)" "P r (look w2)" by blast
  obtain w3 where w3: "rc_exit C w2 = (Inr (), w3)" "look w3 = look w2"
    using service_exit [OF assms(1)] by blast
  show ?thesis using w1 w2 w3 by (simp add: with_client_def)
qed

lemma service_read:
  assumes "r53_service C (rp_hosted_zone_id p) look"
  shows "\<exists>x w'. read_rrset C p (normalize_name n) w = (Inr x, w') \<and> look w' = look w
           \<and> record_values x = stored (look w) (normalize_name n)
           \<and> (case look w (normalize_name n) of
                None \<Rightarrow> x = None
              | Some (ttl, vs) \<Rightarrow> \<exists>r. x = Some r \<and> rs_ttl r = Some ttl \<and> rs_values r = vs)"
proof -
  obtain rrsets w' where
    "rc_list C (rp_hosted_zone_id p) (normalize_name n) ''TXT'' ''1'' w = (Inr rrsets, w')" "look w' = look w"
    "list_answers (look w) (normalize_name n) rrsets"
    using assms normalize_name_idem unfolding r53_service_def by meson
  then show ?thesis
    by (cases "look w (normalize_name n)")
      (auto simp: read_rrset_def list_answers_def stored_def record_values_def)
qed

lemma service_upsert:
  assumes "r53_service C (rp_hosted_zone_id p) look" and "\<not> rp_await_insync p" and "vs \<noteq> []"
  shows "\<exists>w'. change C p UPSERT (normalize_name n) ttl vs w = (Inr (), w')
           \<and> look w' = (look w)(normalize_name n \<mapsto> (ttl, vs))"
proof -
  obtain i w' where
    "rc_change C (rp_hosted_zone_id p) (one_change UPSERT (normalize_name n) ttl vs) w = (Inr i, w')"
    "look w' = (look w)(normalize_name n \<mapsto> (ttl, vs))"
    using assms(1,3) normalize_name_idem unfolding r53_service_def by meson
  then show ?thesis using assms(2) by (simp add: change_def)
qed

lemma service_delete:
  assumes "r53_service C (rp_hosted_zone_id p) look" and "\<not> rp_await_insync p"
    and "look w name = Some (ttl, vs)"
  shows "\<exists>w'. change C p DELETE name ttl vs w = (Inr (), w') \<and> look w' = (look w)(name := None)"
proof -
  obtain i w' where
    "rc_change C (rp_hosted_zone_id p) (one_change DELETE name ttl vs) w = (Inr i, w')"
    "look w' = (look w)(name := None)"
    using assms(1,3) unfolding r53_service_def by meson
  then show ?thesis using assms(2) by (simp add: change_def)
qed

section \<open>Present and cleanup on the service\<close>

definition present_view :: "route53 \<Rightarrow> string \<Rightarrow> string list \<Rightarrow> zone_view \<Rightarrow> zone_view" where
  "present_view p record_name values v =
     (let name = normalize_name record_name; new = map quote values
      in if set new \<subseteq> set (stored v name) then v
         else v(name \<mapsto> (rp_ttl p, merge_values (stored v name) new)))"

definition cleanup_view :: "route53 \<Rightarrow> string \<Rightarrow> string list \<Rightarrow> zone_view \<Rightarrow> zone_view" where
  "cleanup_view p record_name values v =
     (let name = normalize_name record_name;
          remaining = filter (\<lambda>x. x \<notin> quote ` set values) (stored v name)
      in if v name = None then v
         else if values = [] then v(name := None)
         else if remaining = stored v name then v
         else if remaining = [] then v(name := None)
         else v(name \<mapsto> (rp_ttl p, remaining)))"

lemma present_body_view:
  assumes svc: "r53_service C (rp_hosted_zone_id p) look" and ins: "\<not> rp_await_insync p"
  shows "\<exists>r w'. present_body C p (normalize_name n) (map quote vs) w = (r, w')
           \<and> (r = Inr () \<and> look w' = present_view p n vs (look w))"
proof -
  let ?name = "normalize_name n" and ?new = "map quote vs"
  obtain x w2 where x: "read_rrset C p ?name w = (Inr x, w2)" "look w2 = look w"
    "record_values x = stored (look w) ?name"
    using service_read [OF svc, of n w] by auto
  show ?thesis
  proof (cases "set ?new \<subseteq> set (stored (look w) ?name)")
    case True
    then show ?thesis using x by (simp add: present_body_def present_view_def merge_values_same_iff)
  next
    case False
    then have "set (merge_values (stored (look w) ?name) ?new) \<noteq> {}" by auto
    then have "merge_values (stored (look w) ?name) ?new \<noteq> []" by (metis set_empty)
    from service_upsert [OF svc ins this, of n "rp_ttl p" w2] show ?thesis
      using x False by (auto simp: present_body_def present_view_def merge_values_same_iff Let_def)
  qed
qed

lemma cleanup_body_view:
  assumes svc: "r53_service C (rp_hosted_zone_id p) look" and ins: "\<not> rp_await_insync p"
  shows "\<exists>r w'. cleanup_body C p (normalize_name n) vs w = (r, w')
           \<and> (r = Inr () \<and> look w' = cleanup_view p n vs (look w))"
proof (cases "look w (normalize_name n)")
  case None
  then show ?thesis
    using service_read [OF svc, of n w] by (auto simp: cleanup_body_def cleanup_view_def Let_def)
next
  case (Some tv)
  let ?name = "normalize_name n"
  let ?rest = "\<lambda>cur. if vs = [] then [] else filter (\<lambda>v. v \<notin> set (map quote vs)) cur"
  note defs = cleanup_body_def cleanup_view_def record_values_def Let_def
  obtain ttl cur where tv: "tv = (ttl, cur)" by fastforce
  obtain r w2 where x: "read_rrset C p ?name w = (Inr (Some r), w2)" "look w2 = look w"
    "rs_ttl r = Some ttl" "rs_values r = cur"
    using service_read [OF svc, of n w] Some tv by auto
  have st: "stored (look w) ?name = cur" using Some tv by (simp add: stored_def)
  consider (keep) "vs \<noteq> []" "?rest cur = cur"
    | (shrink) "\<not> (vs \<noteq> [] \<and> ?rest cur = cur)" "?rest cur \<noteq> []"
    | (drop) "\<not> (vs \<noteq> [] \<and> ?rest cur = cur)" "?rest cur = []" by blast
  then show ?thesis
  proof cases
    case keep
    then show ?thesis using x st Some by (simp add: defs)
  next
    case shrink
    from service_upsert [OF svc ins shrink(2), of n "rp_ttl p" w2] show ?thesis
      using x st Some shrink by (auto simp: defs split: if_splits)
  next
    case drop
    have "look w2 ?name = Some (ttl, cur)" using x Some tv by simp
    from service_delete [OF svc ins this] show ?thesis
      using x st Some drop by (auto simp: defs split: if_splits)
  qed
qed

lemma route53_present_view:
  assumes "r53_service C (rp_hosted_zone_id p) look" and "\<not> rp_await_insync p"
  shows "\<exists>w'. route53_present C p zone n vs w = (Inr (), w') \<and> look w' = present_view p n vs (look w)"
proof -
  have "\<exists>r w2. present_body C p (normalize_name n) (map quote vs) w1 = (r, w2)
      \<and> (r = Inr () \<and> look w2 = present_view p n vs (look w))" if "look w1 = look w" for w1
    using present_body_view [OF assms, of n vs w1] that by simp
  from with_client_run [where P = "\<lambda>r v. r = Inr () \<and> v = present_view p n vs (look w)"
      and body = "present_body C p (normalize_name n) (map quote vs)", OF assms(1) this]
  show ?thesis by (auto simp: route53_present_def)
qed

lemma route53_cleanup_view:
  assumes "r53_service C (rp_hosted_zone_id p) look" and "\<not> rp_await_insync p"
  shows "\<exists>w'. route53_cleanup C p zone n vs w = (Inr (), w') \<and> look w' = cleanup_view p n vs (look w)"
proof -
  have "\<exists>r w2. cleanup_body C p (normalize_name n) vs w1 = (r, w2)
      \<and> (r = Inr () \<and> look w2 = cleanup_view p n vs (look w))" if "look w1 = look w" for w1
    using cleanup_body_view [OF assms, of n vs w1] that by simp
  from with_client_run [where P = "\<lambda>r v. r = Inr () \<and> v = cleanup_view p n vs (look w)"
      and body = "cleanup_body C p (normalize_name n) vs", OF assms(1) this]
  show ?thesis by (auto simp: route53_cleanup_def)
qed

section \<open>The set of published tokens\<close>

lemma stored_upd [simp]:
  "stored (v(n := x)) m = (if m = n then (case x of None \<Rightarrow> [] | Some (t, vs) \<Rightarrow> vs) else stored v m)"
  by (simp add: stored_def)

lemma set_stored_present:
  "set (stored (present_view p n vs v) (normalize_name n)) =
     set (stored v (normalize_name n)) \<union> quote ` set vs"
  by (auto simp: present_view_def Let_def)

lemma set_stored_cleanup:
  "set (stored (cleanup_view p n vs v) (normalize_name n)) =
     (if vs = [] then {} else set (stored v (normalize_name n)) - quote ` set vs)"
proof (cases "v (normalize_name n) = None \<or> vs = []")
  case True
  then show ?thesis by (auto simp: cleanup_view_def Let_def stored_def)
next
  case False
  let ?cur = "stored v (normalize_name n)"
  let ?rest = "filter (\<lambda>x. x \<notin> quote ` set vs) ?cur"
  have rest: "set ?rest = set ?cur - quote ` set vs" by auto
  have "stored (cleanup_view p n vs v) (normalize_name n) = ?rest"
    using False by (auto simp: cleanup_view_def Let_def)
  then show ?thesis using rest False by metis
qed

lemma published_present:
  "published (present_view p n vs v) n = published v n \<union> set vs"
  by (auto simp: published_def set_stored_present)

lemma published_cleanup:
  "published (cleanup_view p n vs v) n = (if vs = [] then {} else published v n - set vs)"
  by (auto simp: published_def set_stored_cleanup)

text \<open>
  C28: on the service, a present succeeds and adds exactly its values to the published set of
  the record, leaving every other record set as it was; presenting again changes nothing.
\<close>

theorem route53_present_refines:
  assumes "r53_service C (rp_hosted_zone_id p) look" and "\<not> rp_await_insync p"
  shows "\<exists>w'. route53_present C p zone n vs w = (Inr (), w')
           \<and> published (look w') n = published (look w) n \<union> set vs
           \<and> (\<forall>m. m \<noteq> normalize_name n \<longrightarrow> look w' m = look w m)
           \<and> (\<exists>w''. route53_present C p zone n vs w' = (Inr (), w'') \<and> look w'' = look w')"
proof -
  obtain w' where w': "route53_present C p zone n vs w = (Inr (), w')"
    "look w' = present_view p n vs (look w)" using route53_present_view [OF assms] by blast
  obtain w'' where w'': "route53_present C p zone n vs w' = (Inr (), w'')"
    "look w'' = present_view p n vs (look w')" using route53_present_view [OF assms] by blast
  have "look w'' = look w'"
    using w''(2) set_stored_present [of p n vs "look w"] w'(2) by (auto simp: present_view_def Let_def)
  moreover have "\<forall>m. m \<noteq> normalize_name n \<longrightarrow> look w' m = look w m"
    using w'(2) by (simp add: present_view_def Let_def)
  ultimately show ?thesis using w' w'' published_present by metis
qed

text \<open>
  C29: on the service, a cleanup succeeds and removes exactly its values from the published set
  of the record (all of them when it names none), leaving every other record set as it was; a
  challenge that was not published before is gone without a trace after its present and cleanup.
\<close>

theorem route53_cleanup_refines:
  assumes "r53_service C (rp_hosted_zone_id p) look" and "\<not> rp_await_insync p"
  shows "\<exists>w'. route53_cleanup C p zone n vs w = (Inr (), w')
           \<and> published (look w') n = (if vs = [] then {} else published (look w) n - set vs)
           \<and> (\<forall>m. m \<noteq> normalize_name n \<longrightarrow> look w' m = look w m)
           \<and> (set vs \<inter> published (look w) n = {} \<and> vs \<noteq> [] \<longrightarrow>
                (\<exists>w1 w2. route53_present C p zone n vs w = (Inr (), w1)
                   \<and> route53_cleanup C p zone n vs w1 = (Inr (), w2)
                   \<and> published (look w2) n = published (look w) n))"
proof -
  obtain w' where w': "route53_cleanup C p zone n vs w = (Inr (), w')"
    "look w' = cleanup_view p n vs (look w)" using route53_cleanup_view [OF assms] by blast
  obtain w1 where w1: "route53_present C p zone n vs w = (Inr (), w1)"
    "look w1 = present_view p n vs (look w)" using route53_present_view [OF assms] by blast
  obtain w2 where w2: "route53_cleanup C p zone n vs w1 = (Inr (), w2)"
    "look w2 = cleanup_view p n vs (look w1)" using route53_cleanup_view [OF assms] by blast
  have "published (look w2) n = (if vs = [] then {} else (published (look w) n \<union> set vs) - set vs)"
    using w2(2) w1(2) by (simp add: published_cleanup published_present)
  moreover have "\<forall>m. m \<noteq> normalize_name n \<longrightarrow> look w' m = look w m"
    using w'(2) by (simp add: cleanup_view_def Let_def)
  ultimately show ?thesis using w' w1 w2 by (auto simp: published_cleanup published_present)
qed

section \<open>A service\<close>

text \<open>An in-memory zone that satisfies the contract.\<close>

definition view_of :: "zone_view \<Rightarrow> zone_view" where
  "view_of v n = (case v n of Some (t, []) \<Rightarrow> None | x \<Rightarrow> x)"

fun apply_change :: "change53 list \<Rightarrow> zone_view \<Rightarrow> string res \<times> zone_view" where
  "apply_change [c] v =
     (case ch_action c of
        UPSERT \<Rightarrow> (Inr ''C1'', v(ch_name c \<mapsto> (ch_ttl c, ch_values c)))
      | DELETE \<Rightarrow>
          if v (ch_name c) = Some (ch_ttl c, ch_values c) then (Inr ''C1'', v(ch_name c := None))
          else (Inl (AwsError ''InvalidChangeBatch''), v))"
| "apply_change _ v = (Inl (AwsError ''InvalidChangeBatch''), v)"

definition memory_zone :: "zone_view r53_client" where
  "memory_zone =
     \<lparr>rc_enter = (\<lambda>v. (Inr (), v)), rc_exit = (\<lambda>v. (Inr (), v)),
      rc_list = (\<lambda>zid name ty max v.
        (case view_of v name of
           None \<Rightarrow> (Inr [], v)
         | Some (ttl, vs) \<Rightarrow>
             (Inr [\<lparr>rs_name = name, rs_type = Some ty, rs_ttl = Some ttl, rs_values = vs\<rparr>], v))),
      rc_change = (\<lambda>zid. apply_change),
      rc_get_change = (\<lambda>i v. (Inr ''INSYNC'', v)),
      rc_get_hosted_zone = (\<lambda>zid v. (Inr (), v)),
      rc_sleep = (\<lambda>t v. v)\<rparr>"

lemma view_of_upd: "view_of (v(n \<mapsto> (t, vs))) = (view_of v)(n := if vs = [] then None else Some (t, vs))"
  by (auto simp: view_of_def fun_eq_iff split: option.splits list.splits)

lemma view_of_del: "view_of (v(n := None)) = (view_of v)(n := None)"
  by (auto simp: view_of_def fun_eq_iff)

lemma view_of_SomeD: "view_of v n = Some (t, vs) \<Longrightarrow> v n = Some (t, vs) \<and> vs \<noteq> []"
  by (auto simp: view_of_def split: option.splits prod.splits list.splits)

lemma memory_zone_service: "r53_service memory_zone zid view_of"
  unfolding r53_service_def
  by (intro conjI allI impI)
    (auto simp: memory_zone_def list_answers_def rrset_matches_def view_of_upd view_of_del
      split: option.splits dest: view_of_SomeD)

definition r53_sample :: route53 where
  "r53_sample = \<lparr>rp_hosted_zone_id = ''Z1'', rp_region = None, rp_ttl = TXT_TTL,
     rp_await_insync = False, rp_insync_interval = 2, rp_insync_max_attempts = 30\<rparr>"

theorem route53_present_refines_witness:
  "r53_service memory_zone (rp_hosted_zone_id r53_sample) view_of \<and> \<not> rp_await_insync r53_sample
   \<and> (\<exists>w'. route53_present memory_zone r53_sample ''z'' ''_acme-challenge.a.org'' [''t1''] Map.empty = (Inr (), w')
        \<and> published (view_of w') ''_acme-challenge.a.org''
          = published (view_of Map.empty) ''_acme-challenge.a.org'' \<union> {''t1''})"
proof -
  have s: "r53_service memory_zone (rp_hosted_zone_id r53_sample) view_of"
    by (rule memory_zone_service)
  have i: "\<not> rp_await_insync r53_sample" by (simp add: r53_sample_def)
  from route53_present_refines [OF s i, of "''z''" "''_acme-challenge.a.org''" "[''t1'']" Map.empty]
  show ?thesis using s i by fastforce
qed

theorem route53_cleanup_refines_witness:
  "r53_service memory_zone (rp_hosted_zone_id r53_sample) view_of \<and> \<not> rp_await_insync r53_sample
   \<and> (\<exists>w'. route53_cleanup memory_zone r53_sample ''z'' ''_acme-challenge.a.org'' [''t1'']
          [''_acme-challenge.a.org.'' \<mapsto> (60, [quote ''t1'', quote ''t2''])] = (Inr (), w')
        \<and> published (view_of w') ''_acme-challenge.a.org''
          = published (view_of [''_acme-challenge.a.org.'' \<mapsto> (60, [quote ''t1'', quote ''t2''])])
              ''_acme-challenge.a.org'' - {''t1''})"
proof -
  have s: "r53_service memory_zone (rp_hosted_zone_id r53_sample) view_of"
    by (rule memory_zone_service)
  have i: "\<not> rp_await_insync r53_sample" by (simp add: r53_sample_def)
  from route53_cleanup_refines [OF s i, of "''z''" "''_acme-challenge.a.org''" "[''t1'']"
      "[''_acme-challenge.a.org.'' \<mapsto> (60, [quote ''t1'', quote ''t2''])]"]
  show ?thesis using s i by fastforce
qed

section \<open>The propagation poll\<close>

text \<open>The world at the \<open>k\<close>-th poll, when the polls before it were pending.\<close>

fun poll_world :: "'w r53_client \<Rightarrow> route53 \<Rightarrow> string \<Rightarrow> nat \<Rightarrow> 'w \<Rightarrow> 'w" where
  "poll_world C p i 0 w = w"
| "poll_world C p i (Suc k) w =
     poll_world C p i k (rc_sleep C (rp_insync_interval p) (snd (rc_get_change C i w)))"

definition poll_answer :: "'w r53_client \<Rightarrow> route53 \<Rightarrow> string \<Rightarrow> nat \<Rightarrow> 'w \<Rightarrow> string res" where
  "poll_answer C p i k w = fst (rc_get_change C i (poll_world C p i k w))"

definition pending :: "string res \<Rightarrow> bool" where
  "pending r = (case r of Inl e \<Rightarrow> False | Inr s \<Rightarrow> s \<noteq> ''INSYNC'')"

lemma poll_answer_Suc:
  "poll_answer C p i (Suc k) w =
     poll_answer C p i k (rc_sleep C (rp_insync_interval p) (snd (rc_get_change C i w)))"
  by (simp add: poll_answer_def)

lemma wait_insync_loop_ok:
  "fst (wait_insync_loop C p i n w) = Inr () \<longleftrightarrow>
     (\<exists>k<n. poll_answer C p i k w = Inr ''INSYNC'' \<and> (\<forall>j<k. pending (poll_answer C p i j w)))"
proof (induction n arbitrary: w)
  case 0
  then show ?case by simp
next
  case (Suc n)
  obtain r w1 where g: "rc_get_change C i w = (r, w1)" by fastforce
  have zero: "poll_answer C p i 0 w = r" by (simp add: poll_answer_def g)
  show ?case
  proof (cases "pending r")
    case True
    then have loop: "fst (wait_insync_loop C p i (Suc n) w) =
        fst (wait_insync_loop C p i n (rc_sleep C (rp_insync_interval p) w1))"
      using g by (auto simp: pending_def split: sum.splits)
    have r: "r \<noteq> Inr ''INSYNC''" using True by (auto simp: pending_def)
    show ?thesis
      unfolding loop Suc.IH Ex_less_Suc2 All_less_Suc2
      using zero r True by (simp add: poll_answer_Suc g)
  next
    case False
    then have "fst (wait_insync_loop C p i (Suc n) w) = Inr () \<longleftrightarrow> r = Inr ''INSYNC''"
      using g by (auto simp: pending_def split: sum.splits exn.splits)
    then show ?thesis
      using zero False unfolding Ex_less_Suc2 All_less_Suc2 by auto
  qed
qed

text \<open>
  The INSYNC poll returns success exactly when one of its first
  \<open>insync_max_attempts\<close> polls reports INSYNC and every poll before it was pending.
\<close>

theorem wait_insync_ok_iff:
  "fst (wait_insync C p i w) = Inr () \<longleftrightarrow>
     (\<exists>k < rp_insync_max_attempts p.
        poll_answer C p i k w = Inr ''INSYNC'' \<and> (\<forall>j<k. pending (poll_answer C p i j w)))"
  by (simp add: wait_insync_def wait_insync_loop_ok)

theorem wait_insync_ok_iff_witness:
  "fst (wait_insync memory_zone r53_sample ''C1'' Map.empty) = Inr ()"
proof -
  have a: "poll_answer memory_zone r53_sample ''C1'' 0 Map.empty = Inr ''INSYNC''"
    by (simp add: poll_answer_def memory_zone_def)
  have m: "0 < rp_insync_max_attempts r53_sample" by (simp add: r53_sample_def INSYNC_MAX_ATTEMPTS_def)
  show ?thesis
    unfolding wait_insync_ok_iff by (rule exI [of _ 0]) (use a m in simp)
qed

section \<open>Failures outside the wrapped calls\<close>

text \<open>
  An SDK error while the client context is entered leaves \<^verbatim>\<open>present\<close> and
  \<^verbatim>\<open>cleanup\<close> as the raw SDK error, although \<^verbatim>\<open>validate\<close> turns the same error
  into a ProviderError.
\<close>

theorem route53_enter_failure_escapes:
  assumes "rc_enter C w = (Inl (AwsError ty), w1)"
  shows "route53_present C p zone n vs w = (Inl (AwsError ty), w1)
       \<and> route53_cleanup C p zone n vs w = (Inl (AwsError ty), w1)
       \<and> (\<exists>msg. route53_validate C p w = (Inl (ProviderError msg), w1))"
  using assms by (simp add: route53_present_def route53_cleanup_def route53_validate_def with_client_def)

theorem route53_enter_failure_escapes_witness:
  "rc_enter (memory_zone\<lparr>rc_enter := \<lambda>v. (Inl (AwsError ''EndpointConnectionError''), v)\<rparr>) Map.empty
     = (Inl (AwsError ''EndpointConnectionError''), Map.empty)
   \<and> route53_present (memory_zone\<lparr>rc_enter := \<lambda>v. (Inl (AwsError ''EndpointConnectionError''), v)\<rparr>)
       r53_sample ''z'' ''n'' [''t''] Map.empty
     = (Inl (AwsError ''EndpointConnectionError''), Map.empty)"
proof -
  let ?C = "memory_zone\<lparr>rc_enter := \<lambda>v. (Inl (AwsError ''EndpointConnectionError''), v)\<rparr>"
  have e: "rc_enter ?C Map.empty = (Inl (AwsError ''EndpointConnectionError''), Map.empty)" by simp
  from route53_enter_failure_escapes [OF e] show ?thesis using e by blast
qed

end
