(* ===== verification/Tsig.thy ===== *)
theory Tsig
  imports DnsNames
begin

text \<open>
  \<^verbatim>\<open>data_plane/tsig.py\<close>: the algorithm table, the normalisation of algorithm spellings
  and the construction of the keyring. The algorithm names of dnspython are the constructors of
  \<^term>\<open>tsig_algorithm\<close>; the base64 decoding that \<^verbatim>\<open>dns.tsig.Key\<close> applies to a secret
  is the argument \<^verbatim>\<open>decode\<close>. A keyring is keyed by folded labels, as a dictionary of
  names is.
\<close>

section \<open>Definitions\<close>

datatype tsig_algorithm = HMAC_SHA256 | HMAC_SHA384 | HMAC_SHA512 | HMAC_SHA224 | HMAC_SHA1 | HMAC_MD5

definition DEFAULT_ALGORITHM :: string where
  "DEFAULT_ALGORITHM = ''hmac-sha256''"

definition SUPPORTED_ALGORITHMS :: "(string \<times> tsig_algorithm) list" where
  "SUPPORTED_ALGORITHMS =
     [(''hmac-sha256'', HMAC_SHA256), (''hmac-sha384'', HMAC_SHA384), (''hmac-sha512'', HMAC_SHA512),
      (''hmac-sha224'', HMAC_SHA224), (''hmac-sha1'', HMAC_SHA1), (''hmac-md5'', HMAC_MD5)]"

definition normalize_algorithm :: "string \<Rightarrow> string" where
  "normalize_algorithm text =
     (let normalized = py_lower (rstrip_dot (py_strip text))
      in if normalized \<in> set (map fst SUPPORTED_ALGORITHMS) then normalized
         else if prefix ''hmac'' normalized \<and> CHR ''-'' \<notin> set normalized
         then (let candidate = ''hmac-'' @ drop 4 normalized
               in if candidate \<in> set (map fst SUPPORTED_ALGORITHMS) then candidate else normalized)
         else normalized)"

definition algorithm_from_text :: "string \<Rightarrow> tsig_algorithm res" where
  "algorithm_from_text text =
     (case map_of SUPPORTED_ALGORITHMS (normalize_algorithm text) of
        Some a \<Rightarrow> Inr a
      | None \<Rightarrow> Inl (UnknownAlgorithm (''unsupported TSIG algorithm '' @ py_repr text
                  @ ''; expected one of '' @ repr_strings (sort (map fst SUPPORTED_ALGORITHMS)))))"

record tsig_key_spec =
  ts_name :: string
  ts_algorithm :: string
  ts_secret_b64 :: string

record 'n tsig_key =
  tk_name :: 'n
  tk_secret :: bytes
  tk_algorithm :: tsig_algorithm

type_synonym 'n keyring = "(string list \<times> 'n tsig_key) list"

text \<open>One iteration of the loop of \<^verbatim>\<open>build_keyring\<close>: the key of a specification.\<close>

definition key_of_spec ::
  "'n name_ops \<Rightarrow> (string \<Rightarrow> bytes res) \<Rightarrow> tsig_key_spec \<Rightarrow> 'n tsig_key res" where
  "key_of_spec N decode spec =
     (case algorithm_from_text (ts_algorithm spec) of
        Inl e \<Rightarrow> Inl e
      | Inr algorithm \<Rightarrow>
          (case nm_from_text N (ts_name spec) of
             None \<Rightarrow> Inl (DNSException ''from_text'')
           | Some name \<Rightarrow>
               (case decode (ts_secret_b64 spec) of
                  Inl e \<Rightarrow> Inl e
                | Inr secret \<Rightarrow>
                    Inr \<lparr>tk_name = name, tk_secret = secret, tk_algorithm = algorithm\<rparr>)))"

fun keyring_loop ::
  "'n name_ops \<Rightarrow> (string \<Rightarrow> bytes res) \<Rightarrow> 'n keyring \<Rightarrow> tsig_key_spec list \<Rightarrow> 'n keyring res" where
  "keyring_loop N decode kr [] = Inr kr"
| "keyring_loop N decode kr (spec # specs) =
     (case key_of_spec N decode spec of
        Inl e \<Rightarrow> Inl e
      | Inr key \<Rightarrow> keyring_loop N decode (AList.update (nm_labels N (tk_name key)) key kr) specs)"

definition build_keyring ::
  "'n name_ops \<Rightarrow> (string \<Rightarrow> bytes res) \<Rightarrow> tsig_key_spec list \<Rightarrow> 'n keyring res" where
  "build_keyring N decode specs = keyring_loop N decode [] specs"

section \<open>Algorithm spellings\<close>

lemma algorithm_from_text_supported:
  "algorithm_from_text t = Inr a \<longleftrightarrow> map_of SUPPORTED_ALGORITHMS (normalize_algorithm t) = Some a"
  by (simp add: algorithm_from_text_def split: option.splits)

lemma is_space_lower_mono: "is_space c \<Longrightarrow> char_lower c = c"
  by (auto simp: is_space_def char_lower_def Let_def)

text \<open>Text around and in which nothing has to be stripped.\<close>

definition bare :: "string \<Rightarrow> bool" where
  "bare s \<longleftrightarrow> s \<noteq> [] \<and> \<not> is_space (hd s) \<and> \<not> is_space (last s) \<and> last s \<noteq> CHR ''.''"

lemma dropWhile_all_append:
  "(\<forall>c \<in> set p. P c) \<Longrightarrow> s \<noteq> [] \<Longrightarrow> \<not> P (hd s) \<Longrightarrow> dropWhile P (p @ s) = s"
  by (induction p) (simp_all add: dropWhile_eq_self_iff)

lemma py_strip_pad:
  assumes "\<forall>c \<in> set pre. is_space c" and "\<forall>c \<in> set post. is_space c"
    and "s \<noteq> []" and "\<not> is_space (hd s)" and "\<not> is_space (last s)"
  shows "py_strip (pre @ s @ post) = s"
proof -
  have "dropWhile is_space (pre @ s @ post) = s @ post"
    using assms by (intro dropWhile_all_append) simp_all
  moreover have "dropWhile is_space (rev post @ rev s) = rev s"
    using assms by (intro dropWhile_all_append) (simp_all add: hd_rev)
  ultimately show ?thesis by (simp add: py_strip_def lstrip_by_def rstrip_by_def)
qed

lemma rstrip_dots:
  assumes "s \<noteq> []" and "last s \<noteq> CHR ''.''"
  shows "rstrip_dot (s @ replicate k (CHR ''.'')) = s"
proof -
  have "dropWhile (\<lambda>c. c = CHR ''.'') (replicate k (CHR ''.'') @ rev s) = rev s"
    using assms by (intro dropWhile_all_append) (simp_all add: hd_rev)
  then show ?thesis by (simp add: rstrip_dot_def rstrip_by_def rev_replicate)
qed

lemma normalize_padded:
  assumes pad: "\<forall>c \<in> set pre. is_space c" "\<forall>c \<in> set post. is_space c" and b: "bare s"
  shows "py_lower (rstrip_dot (py_strip (pre @ s @ replicate k (CHR ''.'') @ post))) = py_lower s"
proof -
  have sp: "\<not> is_space (CHR ''.'')" by (simp add: is_space_def)
  let ?m = "s @ replicate k (CHR ''.'')"
  have "\<not> is_space (last ?m)" using b sp by (cases k) (simp_all add: bare_def)
  moreover have "\<not> is_space (hd ?m)" "?m \<noteq> []" using b by (simp_all add: bare_def)
  ultimately have "py_strip (pre @ ?m @ post) = ?m" using pad by (intro py_strip_pad)
  then show ?thesis using b rstrip_dots [of s k] by (simp add: bare_def)
qed

text \<open>The dashless spelling of a supported name, as cert-manager writes it.\<close>

definition dashless :: "string \<Rightarrow> string" where
  "dashless a = filter (\<lambda>c. c \<noteq> CHR ''-'') a"

lemma supported_dashless:
  assumes "(a, alg) \<in> set SUPPORTED_ALGORITHMS"
  shows "dashless a \<notin> set (map fst SUPPORTED_ALGORITHMS)" and "prefix ''hmac'' (dashless a)"
    and "CHR ''-'' \<notin> set (dashless a)" and "''hmac-'' @ drop 4 (dashless a) = a"
  using assms by (auto simp: SUPPORTED_ALGORITHMS_def dashless_def)

text \<open>
  Every spelling of a supported algorithm is accepted and maps to its algorithm: the dashed
  or the dashless form, in any case, with any number of trailing dots and surrounded by spaces.
\<close>

theorem algorithm_spellings:
  assumes "(a, alg) \<in> set SUPPORTED_ALGORITHMS"
    and "py_lower t = a \<or> py_lower t = dashless a" and "bare t"
    and "\<forall>c \<in> set pre. is_space c" and "\<forall>c \<in> set post. is_space c"
  shows "algorithm_from_text (pre @ t @ replicate k (CHR ''.'') @ post) = Inr alg"
proof -
  let ?x = "pre @ t @ replicate k (CHR ''.'') @ post"
  have low: "py_lower (rstrip_dot (py_strip ?x)) = py_lower t"
    using normalize_padded [OF assms(4,5,3)] .
  have mem: "a \<in> set (map fst SUPPORTED_ALGORITHMS)" using assms(1) by force
  have "normalize_algorithm ?x = a"
    using assms(2)
  proof
    assume "py_lower t = a"
    then show ?thesis using low mem by (simp add: normalize_algorithm_def)
  next
    assume "py_lower t = dashless a"
    then show ?thesis
      using low mem supported_dashless [OF assms(1)] by (simp add: normalize_algorithm_def Let_def)
  qed
  moreover have "map_of SUPPORTED_ALGORITHMS a = Some alg"
    using assms(1) by (auto simp: SUPPORTED_ALGORITHMS_def)
  ultimately show ?thesis by (simp add: algorithm_from_text_def)
qed

theorem algorithm_spellings_witness:
  "algorithm_from_text ('' '' @ ''HMACSHA256'' @ replicate 1 (CHR ''.'') @ '' '') = Inr HMAC_SHA256"
  by (rule algorithm_spellings [of "''hmac-sha256''"]) code_simp+

section \<open>The keyring\<close>

lemma keyring_loop_append:
  "keyring_loop N d kr (xs @ ys) =
     (case keyring_loop N d kr xs of Inl e \<Rightarrow> Inl e | Inr kr' \<Rightarrow> keyring_loop N d kr' ys)"
  by (induction xs arbitrary: kr) (auto split: sum.splits)

lemma keyring_loop_bad:
  "key_of_spec N d spec = Inl e \<Longrightarrow> spec \<in> set specs \<Longrightarrow> \<exists>e'. keyring_loop N d kr specs = Inl e'"
  by (induction specs arbitrary: kr) (auto split: sum.splits)

lemma keyring_loop_keys:
  assumes "keyring_loop N d kr specs = Inr kr'" and "map_of kr' ls = Some key"
  shows "map_of kr ls = Some key \<or>
         (\<exists>spec \<in> set specs. key_of_spec N d spec = Inr key \<and> nm_labels N (tk_name key) = ls)"
  using assms
proof (induction specs arbitrary: kr)
  case Nil
  then show ?case by simp
next
  case (Cons spec specs)
  then obtain k where k: "key_of_spec N d spec = Inr k"
    "keyring_loop N d (AList.update (nm_labels N (tk_name k)) k kr) specs = Inr kr'"
    by (auto split: sum.splits)
  from Cons.IH [OF k(2) Cons.prems(2)] k(1) show ?case by (auto split: if_splits)
qed

text \<open>
  A keyring is built from all the specifications or not at all, and each of its keys carries
  the algorithm of a configured specification of that name, never one read from a message; the
  specification listed last under a name is the one in force.
\<close>

theorem build_keyring_binds_algorithms:
  assumes "build_keyring N decode specs = Inr kr"
  shows "(\<forall>spec \<in> set specs. \<exists>key. key_of_spec N decode spec = Inr key)
       \<and> (\<forall>ls key. map_of kr ls = Some key \<longrightarrow>
            (\<exists>spec \<in> set specs. key_of_spec N decode spec = Inr key
               \<and> algorithm_from_text (ts_algorithm spec) = Inr (tk_algorithm key)
               \<and> nm_labels N (tk_name key) = ls))
       \<and> (\<forall>xs spec key. specs = xs @ [spec] \<longrightarrow> key_of_spec N decode spec = Inr key \<longrightarrow>
            map_of kr (nm_labels N (tk_name key)) = Some key)"
proof (intro conjI allI impI ballI)
  fix spec assume s: "spec \<in> set specs"
  show "\<exists>key. key_of_spec N decode spec = Inr key"
  proof (cases "key_of_spec N decode spec")
    case (Inl e)
    from keyring_loop_bad [OF Inl s, of "[]"] show ?thesis
      using assms by (simp add: build_keyring_def)
  qed simp
next
  fix ls key assume "map_of kr ls = Some key"
  with keyring_loop_keys [OF assms [unfolded build_keyring_def]] obtain spec where
    spec: "spec \<in> set specs" "key_of_spec N decode spec = Inr key" "nm_labels N (tk_name key) = ls"
    by auto
  then have "algorithm_from_text (ts_algorithm spec) = Inr (tk_algorithm key)"
    by (auto simp: key_of_spec_def split: sum.splits option.splits)
  with spec show "\<exists>spec \<in> set specs. key_of_spec N decode spec = Inr key
      \<and> algorithm_from_text (ts_algorithm spec) = Inr (tk_algorithm key)
      \<and> nm_labels N (tk_name key) = ls" by blast
next
  fix xs spec key assume "specs = xs @ [spec]" "key_of_spec N decode spec = Inr key"
  then show "map_of kr (nm_labels N (tk_name key)) = Some key"
    using assms by (auto simp: build_keyring_def keyring_loop_append split: sum.splits)
qed

definition sample_decode :: "string \<Rightarrow> bytes res" where
  "sample_decode s = Inr [1, 2, 3]"

definition sample_spec :: tsig_key_spec where
  "sample_spec = \<lparr>ts_name = ''cm.'', ts_algorithm = ''hmac-sha256'', ts_secret_b64 = ''AQID''\<rparr>"

definition sample_key :: "string list tsig_key" where
  "sample_key = \<lparr>tk_name = [''cm'', ''''], tk_secret = [1, 2, 3], tk_algorithm = HMAC_SHA256\<rparr>"

theorem build_keyring_binds_algorithms_witness:
  "\<exists>kr. build_keyring sample_names sample_decode [sample_spec] = Inr kr
     \<and> map_of kr [''cm'', ''''] = Some sample_key"
proof -
  have k: "key_of_spec sample_names sample_decode sample_spec = Inr sample_key" by code_simp
  have l: "nm_labels sample_names (tk_name sample_key) = [''cm'', '''']" by code_simp
  from k obtain kr where kr: "build_keyring sample_names sample_decode [sample_spec] = Inr kr"
    by (simp add: build_keyring_def)
  from build_keyring_binds_algorithms [OF kr] have
    "map_of kr (nm_labels sample_names (tk_name sample_key)) = Some sample_key"
    using k by (metis append_Nil)
  then show ?thesis using kr l by auto
qed

end
