(* ===== verification/Assembly.thy ===== *)
theory Assembly
  imports Dispatcher Hurricane Route53 Tsig
begin

text \<open>
  \<^verbatim>\<open>assembly.py\<close>: the runtime objects built from a decrypted configuration. Providers
  are shared, mutable objects (a zone's dynamic key is added to the provider that all zones of the
  backend share), so a route holds a reference, the provider's key, and the objects are in a store.
  The validation of a configuration by pydantic and the creation of an AWS client are arguments.
\<close>

section \<open>Configuration\<close>

record zone_config =
  zc_zone :: string
  zc_provider :: string
  zc_record_name :: string
  zc_he_dynamic_key :: "string option"
  zc_backend :: "string option"

record backend_config =
  bc_name :: string
  bc_provider :: string
  bc_config :: pyval

record bootstrap_config =
  bo_tsig_keys :: "tsig_key_spec list"
  bo_zones :: "zone_config list"
  bo_backends :: "backend_config list"
  bo_listener_host :: string
  bo_listener_port :: int

section \<open>Providers\<close>

datatype provider_class = HurricaneProvider | Route53Provider

definition class_type :: "provider_class \<Rightarrow> string" where
  "class_type c = (case c of HurricaneProvider \<Rightarrow> ''hurricane'' | Route53Provider \<Rightarrow> ''route53'')"

text \<open>The registry after the provider modules are imported.\<close>

definition builtin_registry :: "provider_class registry" where
  "builtin_registry =
     (case register_all class_type [HurricaneProvider, Route53Provider] [] of Inr reg \<Rightarrow> reg | Inl _ \<Rightarrow> [])"

datatype provider = HurricaneObj hurricane | Route53Obj route53

record validators =
  va_hurricane :: "config \<Rightarrow> hurricane_config res"
  va_route53 :: "config \<Rightarrow> route53_config res"

definition class_from_config :: "validators \<Rightarrow> provider_class \<Rightarrow> config \<Rightarrow> provider res" where
  "class_from_config V c config =
     (case c of
        HurricaneProvider \<Rightarrow> map_sum id HurricaneObj (hurricane_from_config (va_hurricane V) config)
      | Route53Provider \<Rightarrow> map_sum id Route53Obj (route53_from_config (va_route53 V) config))"

text \<open>
  \<^verbatim>\<open>dict(config)\<close>, which \<^verbatim>\<open>from_config\<close> applies to the decrypted JSON value: a mapping is
  copied, an iterable must give pairs. A pair whose key is no string cannot name a field of a schema; the model raises there.
\<close>

definition dict_item :: "pyval \<Rightarrow> (string \<times> pyval) res" where
  "dict_item v =
     (case v of
        PList [PStr k, x] \<Rightarrow> Inr (k, x)
      | PStr [a, b] \<Rightarrow> Inr ([a], PStr [b])
      | PList _ \<Rightarrow> Inl (ValueError ''dictionary update sequence element'')
      | PStr _ \<Rightarrow> Inl (ValueError ''dictionary update sequence element'')
      | _ \<Rightarrow> Inl (TypeError ''cannot convert dictionary update sequence element''))"

fun dict_items :: "config \<Rightarrow> pyval list \<Rightarrow> config res" where
  "dict_items d [] = Inr d"
| "dict_items d (v # vs) = (case dict_item v of Inl e \<Rightarrow> Inl e | Inr (k, x) \<Rightarrow> dict_items (AList.update k x d) vs)"

definition py_dict :: "pyval \<Rightarrow> config res" where
  "py_dict v =
     (case v of
        PDict kvs \<Rightarrow> Inr kvs
      | PList vs \<Rightarrow> dict_items [] vs
      | PStr s \<Rightarrow> dict_items [] (map (\<lambda>c. PStr [c]) s)
      | _ \<Rightarrow> Inl (TypeError ''object is not iterable''))"

type_synonym store = "(string \<times> provider) list"

text \<open>
  The operations of the stored objects, by reference: \<open>E\<close> is the shared HTTP client and \<open>C\<close> gives the
  AWS client of a reference. A reference that is not in the store cannot occur in an assembled
  runtime; the operations raise there.
\<close>

definition store_ops ::
  "'w http_env \<Rightarrow> (string \<Rightarrow> 'w r53_client) \<Rightarrow> store \<Rightarrow> (string, 'w) provider_ops" where
  "store_ops E C st =
     \<lparr>pv_type = (\<lambda>p. case map_of st p of Some (Route53Obj _) \<Rightarrow> ''route53'' | _ \<Rightarrow> ''hurricane''),
      pv_supports_multivalue = (\<lambda>p. case map_of st p of Some (Route53Obj _) \<Rightarrow> True | _ \<Rightarrow> False),
      pv_supports_delete = (\<lambda>p. case map_of st p of Some (Route53Obj _) \<Rightarrow> True | _ \<Rightarrow> False),
      pv_present = (\<lambda>p z r v w.
        case map_of st p of
          Some (HurricaneObj h) \<Rightarrow> hurricane_present E h z r v w
        | Some (Route53Obj q) \<Rightarrow> route53_present (C p) q z r v w
        | None \<Rightarrow> (Inl (RuntimeError ''dangling''), w)),
      pv_cleanup = (\<lambda>p z r v w.
        case map_of st p of
          Some (HurricaneObj h) \<Rightarrow> hurricane_cleanup E h z r v w
        | Some (Route53Obj q) \<Rightarrow> route53_cleanup (C p) q z r v w
        | None \<Rightarrow> (Inl (RuntimeError ''dangling''), w)),
      pv_validate = (\<lambda>p w.
        case map_of st p of
          Some (HurricaneObj h) \<Rightarrow> hurricane_validate h w
        | Some (Route53Obj q) \<Rightarrow> route53_validate (C p) q w
        | None \<Rightarrow> (Inl (RuntimeError ''dangling''), w))\<rparr>"

section \<open>Building the data plane\<close>

record 'n runtime =
  ru_keyring :: "'n keyring"
  ru_routing :: "('n, string) routing_table"
  ru_providers :: store

text \<open>\<^verbatim>\<open>zone_config.backend or zone_config.provider\<close>.\<close>

definition provider_key :: "zone_config \<Rightarrow> string" where
  "provider_key zc =
     (case zc_backend zc of Some b \<Rightarrow> if b \<noteq> [] then b else zc_provider zc | None \<Rightarrow> zc_provider zc)"

definition make_provider :: "validators \<Rightarrow> backend_config list \<Rightarrow> zone_config \<Rightarrow> provider res" where
  "make_provider V backends zc =
     (let backend = (case zc_backend zc of
                       Some b \<Rightarrow> map_of (map (\<lambda>c. (bc_name c, c)) (rev backends)) b
                     | None \<Rightarrow> None);
          provider_type = (case backend of Some c \<Rightarrow> bc_provider c | None \<Rightarrow> zc_provider zc);
          provider_config = (case backend of Some c \<Rightarrow> bc_config c | None \<Rightarrow> PDict [])
      in case get_provider builtin_registry provider_type of
           Inl e \<Rightarrow> Inl e
         | Inr cls \<Rightarrow>
             (case py_dict provider_config of
                Inl e \<Rightarrow> Inl e
              | Inr config \<Rightarrow> class_from_config V cls config))"

definition ensure_provider :: "validators \<Rightarrow> backend_config list \<Rightarrow> store \<Rightarrow> zone_config \<Rightarrow> store res" where
  "ensure_provider V backends st zc =
     (case map_of st (provider_key zc) of
        Some _ \<Rightarrow> Inr st
      | None \<Rightarrow>
          (case make_provider V backends zc of
             Inl e \<Rightarrow> Inl e
           | Inr p \<Rightarrow> Inr (AList.update (provider_key zc) p st)))"

definition inject_key :: "store \<Rightarrow> zone_config \<Rightarrow> store" where
  "inject_key st zc =
     (case (map_of st (provider_key zc), zc_he_dynamic_key zc) of
        (Some (HurricaneObj h), Some key) \<Rightarrow>
          if key \<noteq> []
          then AList.update (provider_key zc) (HurricaneObj (register_record_key (zc_record_name zc) key h)) st
          else st
      | _ \<Rightarrow> st)"

definition zone_route :: "'n name_ops \<Rightarrow> zone_config \<Rightarrow> ('n, string) route res" where
  "zone_route N zc =
     (case nm_from_text N (zc_zone zc) of
        None \<Rightarrow> Inl (DNSException (zc_zone zc))
      | Some z \<Rightarrow>
          (case nm_from_text N (zc_record_name zc) of
             None \<Rightarrow> Inl (DNSException (zc_record_name zc))
           | Some r \<Rightarrow>
               Inr \<lparr>rt_zone = nm_canonicalize N z, rt_provider = provider_key zc,
                    rt_record_name = nm_canonicalize N r\<rparr>))"

fun assemble_zones ::
  "'n name_ops \<Rightarrow> validators \<Rightarrow> backend_config list \<Rightarrow> store \<Rightarrow> ('n, string) route list \<Rightarrow> zone_config list \<Rightarrow>
   (store \<times> ('n, string) route list) res" where
  "assemble_zones N V backends st routes [] = Inr (st, routes)"
| "assemble_zones N V backends st routes (zc # zcs) =
     (case ensure_provider V backends st zc of
        Inl e \<Rightarrow> Inl e
      | Inr st1 \<Rightarrow>
          (case zone_route N zc of
             Inl e \<Rightarrow> Inl e
           | Inr route \<Rightarrow> assemble_zones N V backends (inject_key st1 zc) (routes @ [route]) zcs))"

definition build_data_plane ::
  "'n name_ops \<Rightarrow> (string \<Rightarrow> bytes res) \<Rightarrow> validators \<Rightarrow> bootstrap_config \<Rightarrow> 'n runtime res" where
  "build_data_plane N decode V config =
     (case build_keyring N decode (bo_tsig_keys config) of
        Inl e \<Rightarrow> Inl e
      | Inr keyring \<Rightarrow>
          (case assemble_zones N V (bo_backends config) [] [] (bo_zones config) of
             Inl e \<Rightarrow> Inl e
           | Inr (st, routes) \<Rightarrow>
               Inr \<lparr>ru_keyring = keyring, ru_routing = RoutingTable N routes, ru_providers = st\<rparr>))"

section \<open>Routes\<close>

lemma inject_key_dom [simp]: "dom (map_of (inject_key st zc)) = dom (map_of st)"
  by (auto simp: inject_key_def split: option.splits provider.splits if_splits)

lemma ensure_provider_dom:
  "ensure_provider V bs st zc = Inr st' \<Longrightarrow> dom (map_of st') = insert (provider_key zc) (dom (map_of st))"
  by (auto simp: ensure_provider_def split: option.splits sum.splits)

lemma assemble_zones_routes:
  assumes "assemble_zones N V bs st routes zcs = Inr (st', routes')"
  shows "dom (map_of st') = dom (map_of st) \<union> provider_key ` set zcs
       \<and> (\<exists>rs. routes' = routes @ rs \<and> list_all2 (\<lambda>zc r. zone_route N zc = Inr r) zcs rs)"
  using assms
proof (induction zcs arbitrary: st routes)
  case Nil
  then show ?case by simp
next
  case (Cons zc zcs)
  obtain st1 r where e: "ensure_provider V bs st zc = Inr st1" "zone_route N zc = Inr r"
      "assemble_zones N V bs (inject_key st1 zc) (routes @ [r]) zcs = Inr (st', routes')"
    using Cons.prems by (auto split: sum.splits)
  obtain rs where "routes' = (routes @ [r]) @ rs" "list_all2 (\<lambda>zc r. zone_route N zc = Inr r) zcs rs"
      "dom (map_of st') = dom (map_of st1) \<union> provider_key ` set zcs"
    using Cons.IH [OF e(3)] by auto
  then show ?case
    using e(2) ensure_provider_dom [OF e(1)] by (intro conjI exI [of _ "r # rs"]) auto
qed

text \<open>
  Assembly is faithful to the configuration. A built data plane has one route per configured
  zone, in order (so a zone configured twice is served by its last entry), whose names are the
  canonical forms of the configured texts and whose provider is in the store; the store has exactly
  one provider per backend.
\<close>

theorem build_data_plane_routes:
  assumes "build_data_plane N decode V config = Inr rt"
  shows "\<exists>routes. ru_routing rt = RoutingTable N routes
     \<and> list_all2 (\<lambda>zc r. \<exists>z n. nm_from_text N (zc_zone zc) = Some z \<and> nm_from_text N (zc_record_name zc) = Some n
          \<and> rt_zone r = nm_canonicalize N z \<and> rt_record_name r = nm_canonicalize N n
          \<and> rt_provider r = provider_key zc \<and> map_of (ru_providers rt) (rt_provider r) \<noteq> None)
        (bo_zones config) routes
     \<and> dom (map_of (ru_providers rt)) = provider_key ` set (bo_zones config)"
proof -
  obtain st routes where a: "assemble_zones N V (bo_backends config) [] [] (bo_zones config) = Inr (st, routes)"
      "ru_routing rt = RoutingTable N routes" "ru_providers rt = st"
    using assms by (auto simp: build_data_plane_def split: sum.splits prod.splits)
  have d: "dom (map_of st) = provider_key ` set (bo_zones config)"
      and r: "list_all2 (\<lambda>zc r. zone_route N zc = Inr r) (bo_zones config) routes"
    using assemble_zones_routes [OF a(1)] by auto
  have "list_all2 (\<lambda>zc r. \<exists>z n. nm_from_text N (zc_zone zc) = Some z \<and> nm_from_text N (zc_record_name zc) = Some n
          \<and> rt_zone r = nm_canonicalize N z \<and> rt_record_name r = nm_canonicalize N n
          \<and> rt_provider r = provider_key zc \<and> map_of st (rt_provider r) \<noteq> None) (bo_zones config) routes"
    using r
  proof (rule list.rel_mono_strong)
    fix zc r assume "zc \<in> set (bo_zones config)" "r \<in> set routes" "zone_route N zc = Inr r"
    moreover from this d have "map_of st (provider_key zc) \<noteq> None" by blast
    ultimately show "\<exists>z n. nm_from_text N (zc_zone zc) = Some z \<and> nm_from_text N (zc_record_name zc) = Some n
          \<and> rt_zone r = nm_canonicalize N z \<and> rt_record_name r = nm_canonicalize N n
          \<and> rt_provider r = provider_key zc \<and> map_of st (rt_provider r) \<noteq> None"
      by (auto simp: zone_route_def split: option.splits)
  qed
  with a d show ?thesis by blast
qed

section \<open>Dynamic keys\<close>

text \<open>The dynamic keys that the zones of one backend configure, latest first.\<close>

definition zone_keys :: "zone_config list \<Rightarrow> string \<Rightarrow> (string \<times> string) list" where
  "zone_keys zcs k =
     map (\<lambda>zc. (normalize_record (zc_record_name zc), the (zc_he_dynamic_key zc)))
       (filter (\<lambda>zc. provider_key zc = k \<and> zc_he_dynamic_key zc \<noteq> None \<and> zc_he_dynamic_key zc \<noteq> Some [])
          (rev zcs))"

lemma zone_keys_snoc:
  "zone_keys (zcs @ [zc]) k =
     (if provider_key zc = k \<and> zc_he_dynamic_key zc \<noteq> None \<and> zc_he_dynamic_key zc \<noteq> Some []
      then [(normalize_record (zc_record_name zc), the (zc_he_dynamic_key zc))] else []) @ zone_keys zcs k"
  by (simp add: zone_keys_def)

lemma zone_keys_fresh: "k \<notin> provider_key ` set zcs \<Longrightarrow> zone_keys zcs k = []"
  by (auto simp: zone_keys_def filter_empty_conv)

text \<open>A store after the given zones have been processed.\<close>

definition store_inv :: "zone_config list \<Rightarrow> store \<Rightarrow> bool" where
  "store_inv zcs st \<longleftrightarrow>
     dom (map_of st) = provider_key ` set zcs
     \<and> (\<forall>k h. map_of st k = Some (HurricaneObj h) \<longrightarrow> map_of (h_record_keys h) = map_of (zone_keys zcs k))"

lemma map_sum_id_Inr: "map_sum id f x = Inr y \<longleftrightarrow> (\<exists>z. x = Inr z \<and> y = f z)"
  by (cases x) auto

lemma make_provider_empty:
  "make_provider V bs zc = Inr (HurricaneObj h) \<Longrightarrow> h_record_keys h = []"
  by (auto simp: make_provider_def class_from_config_def hurricane_from_config_def hurricane_init_def
      map_sum_id_Inr Let_def split: sum.splits provider_class.splits)

lemma ensure_provider_keys:
  assumes "store_inv zcs st" and "ensure_provider V bs st zc = Inr st1"
    and "map_of st1 k = Some (HurricaneObj h)"
  shows "map_of (h_record_keys h) = map_of (zone_keys zcs k)"
proof (cases "map_of st (provider_key zc)")
  case (Some p)
  then show ?thesis using assms by (simp add: ensure_provider_def store_inv_def)
next
  case None
  then obtain p where p: "make_provider V bs zc = Inr p" "map_of st1 = (map_of st)(provider_key zc \<mapsto> p)"
    using assms(2) by (auto simp: ensure_provider_def split: sum.splits)
  show ?thesis
  proof (cases "k = provider_key zc")
    case True
    then have "k \<notin> provider_key ` set zcs" using None assms(1) by (auto simp: store_inv_def)
    then show ?thesis using True p assms(3) make_provider_empty by (simp add: zone_keys_fresh)
  next
    case False
    then show ?thesis using p(2) assms(1,3) by (simp add: store_inv_def)
  qed
qed

lemma inject_key_inv:
  assumes d: "dom (map_of st1) = insert (provider_key zc) (provider_key ` set zcs)"
    and k: "\<And>k h. map_of st1 k = Some (HurricaneObj h) \<Longrightarrow> map_of (h_record_keys h) = map_of (zone_keys zcs k)"
  shows "store_inv (zcs @ [zc]) (inject_key st1 zc)"
  unfolding store_inv_def
proof (intro conjI allI impI)
  show "dom (map_of (inject_key st1 zc)) = provider_key ` set (zcs @ [zc])" using d by simp
  fix j h
  assume j: "map_of (inject_key st1 zc) j = Some (HurricaneObj h)"
  show "map_of (h_record_keys h) = map_of (zone_keys (zcs @ [zc]) j)"
  proof (cases "j = provider_key zc")
    case False
    then have "map_of st1 j = Some (HurricaneObj h)"
      using j by (auto simp: inject_key_def split: option.splits provider.splits if_splits)
    then show ?thesis using k False by (simp add: zone_keys_snoc)
  next
    case True
    obtain h0 where h0: "map_of st1 j = Some (HurricaneObj h0)"
      using j True by (auto simp: inject_key_def split: option.splits provider.splits if_splits)
    with k have "map_of (h_record_keys h0) = map_of (zone_keys zcs j)" by blast
    then show ?thesis
      using j True h0
      by (auto simp: inject_key_def zone_keys_snoc register_record_key_def split: option.splits if_splits)
  qed
qed

lemma assemble_zones_inv:
  assumes "assemble_zones N V bs st routes zcs = Inr (st', routes')" and "store_inv done st"
  shows "store_inv (done @ zcs) st'"
  using assms
proof (induction zcs arbitrary: st routes "done")
  case Nil
  then show ?case by simp
next
  case (Cons zc zcs)
  obtain st1 r where e: "ensure_provider V bs st zc = Inr st1"
      "assemble_zones N V bs (inject_key st1 zc) (routes @ [r]) zcs = Inr (st', routes')"
    using Cons.prems(1) by (auto split: sum.splits)
  have "store_inv (done @ [zc]) (inject_key st1 zc)"
    by (rule inject_key_inv)
       (use Cons.prems(2) ensure_provider_dom [OF e(1)] ensure_provider_keys [OF Cons.prems(2) e(1)]
        in \<open>auto simp: store_inv_def\<close>)
  from Cons.IH [OF e(2) this] show ?case by simp
qed

text \<open>
  Dynamic keys stay in their backend. In a built data plane a Hurricane provider finds for a
  record (in any case, with or without the final dot) the key of the last zone of its own backend
  that configures a non-empty one for that record, and no key otherwise: never the key of a zone
  of another backend.
\<close>

theorem hurricane_keys_scoped:
  assumes "build_data_plane N decode V config = Inr rt"
    and "map_of (ru_providers rt) k = Some (HurricaneObj h)"
  shows "key_for h record_name =
     (case map_of (zone_keys (bo_zones config) k) (normalize_record record_name) of
        Some key \<Rightarrow> Inr key
      | None \<Rightarrow> Inl (ProviderError (''no HE dynamic key configured for record '' @ py_repr record_name)))"
proof -
  obtain st routes where a: "assemble_zones N V (bo_backends config) [] [] (bo_zones config) = Inr (st, routes)"
      "ru_providers rt = st"
    using assms(1) by (auto simp: build_data_plane_def split: sum.splits prod.splits)
  have "store_inv [] []" by (simp add: store_inv_def)
  from assemble_zones_inv [OF a(1) this] have "store_inv (bo_zones config) st" by simp
  then have "map_of (h_record_keys h) = map_of (zone_keys (bo_zones config) k)"
    using assms(2) a(2) by (simp add: store_inv_def)
  then show ?thesis by (simp add: key_for_def)
qed

section \<open>A sample configuration\<close>

definition sample_validators :: validators where
  "sample_validators =
     \<lparr>va_hurricane = (\<lambda>c. Inr \<lparr>hc_cleanup_placeholder = default_placeholder\<rparr>),
      va_route53 = (\<lambda>c. Inr \<lparr>rf_access_key_id = ''AK'', rf_secret_access_key = ''SK'',
         rf_hosted_zone_id = ''Z1'', rf_region = None, rf_await_insync = False\<rparr>)\<rparr>"

definition sample_config :: bootstrap_config where
  "sample_config =
     \<lparr>bo_tsig_keys = [],
      bo_zones = [\<lparr>zc_zone = ''a.org'', zc_provider = ''hurricane'', zc_record_name = ''_acme-challenge.a.org'',
                   zc_he_dynamic_key = Some ''k1'', zc_backend = Some ''he''\<rparr>,
                  \<lparr>zc_zone = ''b.org'', zc_provider = ''route53'', zc_record_name = ''_acme-challenge.b.org'',
                   zc_he_dynamic_key = None, zc_backend = Some ''aws''\<rparr>],
      bo_backends = [\<lparr>bc_name = ''he'', bc_provider = ''hurricane'', bc_config = PDict []\<rparr>,
                     \<lparr>bc_name = ''aws'', bc_provider = ''route53'', bc_config = PDict []\<rparr>],
      bo_listener_host = ''0.0.0.0'', bo_listener_port = 53\<rparr>"

definition sample_runtime :: "string list runtime" where
  "sample_runtime =
     (case build_data_plane sample_names (\<lambda>_. Inr []) sample_validators sample_config of
        Inr rt \<Rightarrow> rt | Inl _ \<Rightarrow> \<lparr>ru_keyring = [], ru_routing = [], ru_providers = []\<rparr>)"

lemma sample_runtime_built:
  "build_data_plane sample_names (\<lambda>_. Inr []) sample_validators sample_config = Inr sample_runtime"
proof -
  have "\<not> isl (build_data_plane sample_names (\<lambda>_. Inr []) sample_validators sample_config)" by code_simp
  then show ?thesis
    by (cases "build_data_plane sample_names (\<lambda>_. Inr []) sample_validators sample_config")
       (simp_all add: sample_runtime_def)
qed

theorem build_data_plane_routes_witness:
  "dom (map_of (ru_providers sample_runtime)) = {''he'', ''aws''}"
proof -
  have "provider_key ` set (bo_zones sample_config) = {''he'', ''aws''}"
    by (auto simp: sample_config_def provider_key_def)
  then show ?thesis using build_data_plane_routes [OF sample_runtime_built] by auto
qed

theorem hurricane_keys_scoped_witness:
  "\<exists>h. map_of (ru_providers sample_runtime) ''he'' = Some (HurricaneObj h)
     \<and> key_for h ''_ACME-challenge.a.org.'' = Inr ''k1''"
proof -
  have "(case map_of (ru_providers sample_runtime) ''he'' of Some (HurricaneObj _) \<Rightarrow> True | _ \<Rightarrow> False)"
    by code_simp
  then obtain h where h: "map_of (ru_providers sample_runtime) ''he'' = Some (HurricaneObj h)"
    by (auto split: option.splits provider.splits)
  have z: "map_of (zone_keys (bo_zones sample_config) ''he'') (normalize_record ''_ACME-challenge.a.org.'') = Some ''k1''"
    by code_simp
  show ?thesis
    using h z hurricane_keys_scoped [OF sample_runtime_built h, of "''_ACME-challenge.a.org.''"] by auto
qed

end
