(* ===== verification/Models.thy ===== *)
theory Models
  imports Prelude
begin

text \<open>
  \<^verbatim>\<open>models.py\<close>: the tables, and the database as the record of their rows. SQLAlchemy
  and Postgres are outside the repository: a read returns all rows of a table in their order, and
  a commit replaces the database by the session's view of it or raises and leaves it as it was.
  Whether a commit raises, the ids that the sequences hand out and the readings of the UTC clock
  (in microseconds) come from the environment of the definitions that write. A row that is not
  stored yet has no id.
\<close>

type_synonym utc = int

record backend =
  b_id :: "int option"
  b_name :: string
  b_type :: string
  b_config_encrypted :: bytes
  b_created_at :: utc
  b_updated_at :: utc

record domain =
  dm_id :: "int option"
  dm_zone :: string
  dm_backend_id :: int
  dm_record_name :: string
  dm_secret_encrypted :: "bytes option"
  dm_created_at :: utc

record tsig_row =
  tr_id :: "int option"
  tr_name :: string
  tr_algorithm :: string
  tr_secret_encrypted :: bytes
  tr_created_at :: utc

record api_token =
  at_id :: "int option"
  at_name :: string
  at_token_hash :: string
  at_created_at :: utc
  at_last_used_at :: "utc option"

record challenge_event =
  ce_id :: "int option"
  ce_ts :: utc
  ce_zone :: string
  ce_record_name :: string
  ce_action :: string
  ce_provider :: string
  ce_result :: string
  ce_latency_ms :: int
  ce_tsig_key_id :: "int option"
  ce_source :: string
  ce_error_detail :: "string option"

record admin_credential =
  ac_password_hash :: string
  ac_updated_at :: utc

record db =
  db_backends :: "backend list"
  db_domains :: "domain list"
  db_tsig_keys :: "tsig_row list"
  db_api_tokens :: "api_token list"
  db_events :: "challenge_event list"
  db_admin :: "admin_credential option"

record 'w db_env =
  de_commit :: "db \<Rightarrow> db \<Rightarrow> 'w \<Rightarrow> unit res \<times> 'w"
  de_next_id :: "'w \<Rightarrow> int \<times> 'w"
  de_now :: "'w \<Rightarrow> utc \<times> 'w"

definition transact :: "'w db_env \<Rightarrow> db \<Rightarrow> db \<Rightarrow> 'w \<Rightarrow> unit res \<times> db \<times> 'w" where
  "transact E old new w =
     (case de_commit E old new w of (Inl e, w') \<Rightarrow> (Inl e, old, w') | (Inr _, w') \<Rightarrow> (Inr (), new, w'))"

text \<open>
  The \<^verbatim>\<open>onupdate\<close> of \<open>updated_at\<close>: when a session is flushed, each row that changed is
  restamped.
\<close>

definition restamp_backend :: "'w db_env \<Rightarrow> backend \<Rightarrow> backend \<Rightarrow> 'w \<Rightarrow> backend \<times> 'w" where
  "restamp_backend E old new w =
     (if new = old then (new, w) else (let (now, w') = de_now E w in (new\<lparr>b_updated_at := now\<rparr>, w')))"

fun restamp_backends :: "'w db_env \<Rightarrow> backend list \<Rightarrow> backend list \<Rightarrow> 'w \<Rightarrow> backend list \<times> 'w" where
  "restamp_backends E (old # olds) (new # news) w =
     (let (b, w1) = restamp_backend E old new w; (bs, w2) = restamp_backends E olds news w1 in (b # bs, w2))"
| "restamp_backends E _ _ w = ([], w)"

text \<open>What the constraints of the schema promise of a stored database.\<close>

definition schema_ok :: "db \<Rightarrow> bool" where
  "schema_ok d \<longleftrightarrow>
     distinct (map b_id (db_backends d)) \<and> None \<notin> b_id ` set (db_backends d) \<and> distinct (map b_name (db_backends d))
     \<and> distinct (map dm_id (db_domains d)) \<and> None \<notin> dm_id ` set (db_domains d) \<and> distinct (map dm_zone (db_domains d))
     \<and> distinct (map tr_id (db_tsig_keys d)) \<and> None \<notin> tr_id ` set (db_tsig_keys d)
     \<and> distinct (map tr_name (db_tsig_keys d))
     \<and> distinct (map at_id (db_api_tokens d)) \<and> None \<notin> at_id ` set (db_api_tokens d)
     \<and> distinct (map at_token_hash (db_api_tokens d))
     \<and> distinct (map ce_id (db_events d)) \<and> None \<notin> ce_id ` set (db_events d)
     \<and> (\<forall>dm \<in> set (db_domains d). Some (dm_backend_id dm) \<in> b_id ` set (db_backends d))
     \<and> (\<forall>ce \<in> set (db_events d). ce_tsig_key_id ce \<noteq> None \<longrightarrow> ce_tsig_key_id ce \<in> tr_id ` set (db_tsig_keys d))"

text \<open>Postgres checks the constraints at every commit.\<close>

definition enforces_schema :: "'w db_env \<Rightarrow> bool" where
  "enforces_schema E \<longleftrightarrow> (\<forall>old new w w'. de_commit E old new w = (Inr (), w') \<longrightarrow> schema_ok new)"

section \<open>Lemmas\<close>

lemma transact_cases:
  "transact E old new w = (r, d, w') \<Longrightarrow> (case r of Inl _ \<Rightarrow> d = old | Inr _ \<Rightarrow> d = new)"
  by (auto simp: transact_def split: prod.splits sum.splits)

lemma transact_schema:
  "enforces_schema E \<Longrightarrow> schema_ok old \<Longrightarrow> transact E old new w = (r, d, w') \<Longrightarrow> schema_ok d"
  by (fastforce simp: transact_def enforces_schema_def split: prod.splits sum.splits)

lemma restamp_backend_frame:
  "\<exists>u. fst (restamp_backend E old new w) = new\<lparr>b_updated_at := u\<rparr>"
  by (auto simp: restamp_backend_def split_beta intro: exI [of _ "b_updated_at new"])

lemma restamp_backends_frame:
  "length olds = length news \<Longrightarrow>
     list_all2 (\<lambda>b b'. \<exists>u. b' = b\<lparr>b_updated_at := u\<rparr>) news (fst (restamp_backends E olds news w))"
proof (induction olds news arbitrary: w rule: list_induct2)
  case (Cons old olds new news)
  show ?case using restamp_backend_frame Cons.IH by (simp add: split_beta)
qed simp

text \<open>An environment whose commits succeed when the constraints hold.\<close>

definition sample_db_env :: "int db_env" where
  "sample_db_env =
     \<lparr>de_commit = (\<lambda>old new w. (if schema_ok new then Inr () else Inl (OtherError ''IntegrityError''), w)),
      de_next_id = (\<lambda>w. (w, w + 1)), de_now = (\<lambda>w. (w, w + 1))\<rparr>"

lemma sample_db_env_schema: "enforces_schema sample_db_env"
  by (simp add: enforces_schema_def sample_db_env_def)

end
