(* ===== verification/Crypto.thy ===== *)
theory Crypto
  imports Prelude
begin

text \<open>
  \<^verbatim>\<open>crypto.py\<close>: the key-encryption key. \<^verbatim>\<open>Fernet\<close> and
  \<^verbatim>\<open>MultiFernet\<close> of the \<^verbatim>\<open>cryptography\<close> package are the record
  \<open>fernet_ops\<close>, an argument; \<open>fernet_laws\<close> states what their documentation promises. Encryption
  reads the clock and the random source, so it threads the world.
\<close>

section \<open>Text\<close>

text \<open>UTF-8, for the characters of the model (codes below 256).\<close>

definition utf8_char :: "char \<Rightarrow> bytes" where
  "utf8_char c =
     (let n = chr_code c
      in if n < 128 then [word_of_nat n] else [word_of_nat (192 + n div 64), word_of_nat (128 + n mod 64)])"

definition utf8_encode :: "string \<Rightarrow> bytes" where
  "utf8_encode s = concat (map utf8_char s)"

fun utf8_decode :: "bytes \<Rightarrow> string res" where
  "utf8_decode [] = Inr []"
| "utf8_decode (b # bs) =
     (if b < 128 then map_sum id ((#) (char_of (unat b))) (utf8_decode bs)
      else (case bs of
              [] \<Rightarrow> Inl (UnicodeError ''unexpected end of data'')
            | c # cs \<Rightarrow>
                if (b = 194 \<or> b = 195) \<and> 128 \<le> c \<and> c < 192
                then map_sum id ((#) (char_of ((unat b - 192) * 64 + (unat c - 128)))) (utf8_decode cs)
                else Inl (UnicodeError ''invalid byte'')))"

section \<open>The key list\<close>

definition is_separator :: "char \<Rightarrow> bool" where
  "is_separator c \<longleftrightarrow> is_space c \<or> c = CHR '',''"

text \<open>\<^verbatim>\<open>re.split(r"[\s,]+", s)\<close>.\<close>

lemma separator_step:
  assumes "dropWhile (\<lambda>c. \<not> p c) s \<noteq> []"
  shows "length (dropWhile p (dropWhile (\<lambda>c. \<not> p c) s)) < length s"
proof -
  obtain c cs where r: "dropWhile (\<lambda>c. \<not> p c) s = c # cs"
    using assms by (cases "dropWhile (\<lambda>c. \<not> p c) s") auto
  have "p c" using hd_dropWhile [OF assms] r by simp
  then have "length (dropWhile p (c # cs)) < length (c # cs)"
    using length_dropWhile_le [of p cs] by simp
  also have "\<dots> \<le> length s" using length_dropWhile_le [of "\<lambda>c. \<not> p c" s] r by simp
  finally show ?thesis by (simp only: r)
qed

function split_keys :: "string \<Rightarrow> string list" where
  "split_keys s =
     (let word = takeWhile (\<lambda>c. \<not> is_separator c) s; rest = dropWhile (\<lambda>c. \<not> is_separator c) s
      in if rest = [] then [word] else word # split_keys (dropWhile is_separator rest))"
  by pat_completeness auto
termination
  by (relation "measure length") (simp_all add: separator_step)

declare split_keys.simps [simp del]

definition parse_keylist :: "string \<Rightarrow> string list" where
  "parse_keylist raw = filter (\<lambda>entry. entry \<noteq> []) (split_keys (py_strip raw))"

section \<open>The key-encryption key\<close>

record ('f, 'w) fernet_ops =
  fo_fernet :: "string \<Rightarrow> 'f res"
  fo_encrypt :: "'f list \<Rightarrow> bytes \<Rightarrow> 'w \<Rightarrow> bytes \<times> 'w"
  fo_decrypt :: "'f list \<Rightarrow> bytes \<Rightarrow> bytes res"
  fo_rotate :: "'f list \<Rightarrow> bytes \<Rightarrow> 'w \<Rightarrow> bytes res \<times> 'w"

fun build_fernets_from :: "('f, 'w) fernet_ops \<Rightarrow> nat \<Rightarrow> string list \<Rightarrow> 'f list res" where
  "build_fernets_from F index [] = Inr []"
| "build_fernets_from F index (key # keys) =
     (let failure = Inl (KekError (''KEK key at position '' @ int_str (int index)
            @ '' is not a valid 32-byte urlsafe-base64 Fernet key''))
      in case fo_fernet F key of
           Inl (ValueError _) \<Rightarrow> failure
         | Inl (TypeError _) \<Rightarrow> failure
         | Inl e \<Rightarrow> Inl e
         | Inr f \<Rightarrow> map_sum id ((#) f) (build_fernets_from F (Suc index) keys))"

definition build_fernets :: "('f, 'w) fernet_ops \<Rightarrow> string list \<Rightarrow> 'f list res" where
  "build_fernets F keys =
     (if keys = [] then Inl (KekError ''KEK keylist is empty; at least one Fernet key is required'')
      else build_fernets_from F 0 keys)"

text \<open>The state of a \<^verbatim>\<open>Kek\<close> is the key list of its MultiFernet, primary first.\<close>

type_synonym 'f kek = "'f list"

definition kek_init :: "('f, 'w) fernet_ops \<Rightarrow> string list \<Rightarrow> 'f kek res" where
  "kek_init F keys = build_fernets F keys"

definition kek_from_keylist :: "('f, 'w) fernet_ops \<Rightarrow> string \<Rightarrow> 'f kek res" where
  "kek_from_keylist F raw = kek_init F (parse_keylist raw)"

definition kek_encrypt :: "('f, 'w) fernet_ops \<Rightarrow> 'f kek \<Rightarrow> bytes \<Rightarrow> 'w \<Rightarrow> bytes \<times> 'w" where
  "kek_encrypt F kek plaintext w = fo_encrypt F kek plaintext w"

definition kek_decrypt :: "('f, 'w) fernet_ops \<Rightarrow> 'f kek \<Rightarrow> bytes \<Rightarrow> bytes res" where
  "kek_decrypt F kek token = fo_decrypt F kek token"

definition kek_encrypt_str :: "('f, 'w) fernet_ops \<Rightarrow> 'f kek \<Rightarrow> string \<Rightarrow> 'w \<Rightarrow> string res \<times> 'w" where
  "kek_encrypt_str F kek text w =
     (let (token, w') = kek_encrypt F kek (utf8_encode text) w
      in (case decode_ascii token of Some s \<Rightarrow> Inr s | None \<Rightarrow> Inl (UnicodeError ''ascii''), w'))"

definition encode_ascii :: "string \<Rightarrow> bytes res" where
  "encode_ascii s =
     (if \<forall>c \<in> set s. chr_code c < 128 then Inr (map (\<lambda>c. word_of_nat (chr_code c)) s)
      else Inl (UnicodeError ''ascii''))"

definition kek_decrypt_str :: "('f, 'w) fernet_ops \<Rightarrow> 'f kek \<Rightarrow> string \<Rightarrow> string res" where
  "kek_decrypt_str F kek token =
     (case encode_ascii token of
        Inl e \<Rightarrow> Inl e
      | Inr b \<Rightarrow> (case kek_decrypt F kek b of Inl e \<Rightarrow> Inl e | Inr p \<Rightarrow> utf8_decode p))"

definition kek_rotate :: "('f, 'w) fernet_ops \<Rightarrow> 'f kek \<Rightarrow> bytes \<Rightarrow> 'w \<Rightarrow> bytes res \<times> 'w" where
  "kek_rotate F kek token w = fo_rotate F kek token w"

section \<open>What the cryptography package promises\<close>

text \<open>
  The first key encrypts; a list decrypts what one of its keys decrypts, to a plaintext that does
  not depend on the key; rotation re-encrypts under the first key or raises as decryption does.
\<close>

definition fernet_laws :: "('f, 'w) fernet_ops \<Rightarrow> bool" where
  "fernet_laws F \<longleftrightarrow>
     (\<forall>f fs b w. fo_decrypt F [f] (fst (fo_encrypt F (f # fs) b w)) = Inr b)
     \<and> (\<forall>fs t b. fo_decrypt F fs t = Inr b \<longleftrightarrow> (\<exists>f \<in> set fs. fo_decrypt F [f] t = Inr b))
     \<and> (\<forall>f fs t w. case fo_decrypt F (f # fs) t of
          Inr b \<Rightarrow> (\<exists>t'. fst (fo_rotate F (f # fs) t w) = Inr t' \<and> fo_decrypt F [f] t' = Inr b)
        | Inl e \<Rightarrow> fst (fo_rotate F (f # fs) t w) = Inl e)"

lemma encrypt_primary: "fernet_laws F \<Longrightarrow> fo_decrypt F [f] (fst (fo_encrypt F (f # fs) b w)) = Inr b"
  by (simp add: fernet_laws_def)

lemma decrypt_some_key:
  "fernet_laws F \<Longrightarrow> fo_decrypt F fs t = Inr b \<longleftrightarrow> (\<exists>f \<in> set fs. fo_decrypt F [f] t = Inr b)"
  unfolding fernet_laws_def by blast

lemma rotate_ok:
  assumes "fernet_laws F" and "fst (fo_rotate F (f # fs) t w) = Inr t'"
  shows "\<exists>b. fo_decrypt F (f # fs) t = Inr b \<and> fo_decrypt F [f] t' = Inr b"
proof -
  have "case fo_decrypt F (f # fs) t of
          Inr b \<Rightarrow> (\<exists>t'. fst (fo_rotate F (f # fs) t w) = Inr t' \<and> fo_decrypt F [f] t' = Inr b)
        | Inl e \<Rightarrow> fst (fo_rotate F (f # fs) t w) = Inl e"
    using assms(1) unfolding fernet_laws_def by blast
  with assms(2) show ?thesis by (cases "fo_decrypt F (f # fs) t") auto
qed

lemma rotate_decryptable:
  assumes "fernet_laws F" and "fo_decrypt F (f # fs) t = Inr b"
  shows "\<exists>t'. fst (fo_rotate F (f # fs) t w) = Inr t'"
proof -
  have "case fo_decrypt F (f # fs) t of
          Inr b \<Rightarrow> (\<exists>t'. fst (fo_rotate F (f # fs) t w) = Inr t' \<and> fo_decrypt F [f] t' = Inr b)
        | Inl e \<Rightarrow> fst (fo_rotate F (f # fs) t w) = Inl e"
    using assms(1) unfolding fernet_laws_def by blast
  with assms(2) show ?thesis by auto
qed

text \<open>A token that one of the keys reads is still read when keys are added anywhere.\<close>

lemma decrypt_more_keys:
  assumes "fernet_laws F" and "fo_decrypt F fs t = Inr b" and "set fs \<subseteq> set gs"
  shows "fo_decrypt F gs t = Inr b"
  using assms decrypt_some_key [OF assms(1)] by blast

section \<open>Text round trip\<close>

lemma unat_u8: "n < 256 \<Longrightarrow> unat (word_of_nat n :: u8) = n"
  by (simp add: unsigned_of_nat take_bit_eq_mod)

lemma u8_less: "n < 256 \<Longrightarrow> m < 256 \<Longrightarrow> (word_of_nat n :: u8) < word_of_nat m \<longleftrightarrow> n < m"
  by (simp add: word_less_nat_alt unat_u8)

lemma utf8_decode_char: "utf8_decode (utf8_char c @ bs) = map_sum id ((#) c) (utf8_decode bs)"
proof -
  define n where "n = chr_code c"
  have n: "n < 256" unfolding n_def by (rule nat_of_char_less_256)
  have c: "char_of n = c" by (simp add: n_def)
  show ?thesis
  proof (cases "n < 128")
    case True
    have "(word_of_nat n :: u8) < 128" using True u8_less [of n 128] by simp
    then show ?thesis using True n c by (simp add: utf8_char_def n_def [symmetric] unat_u8)
  next
    case False
    have q: "n div 64 = 2 \<or> n div 64 = 3" using n False by auto
    let ?a = "word_of_nat (192 + n div 64) :: u8" and ?b = "word_of_nat (128 + n mod 64) :: u8"
    have ua: "unat ?a = 192 + n div 64" by (rule unat_u8) (use q in linarith)
    have ub: "unat ?b = 128 + n mod 64" by (rule unat_u8) (use mod_less_divisor [of 64 n] in linarith)
    have a: "\<not> ?a < 128" "?a = 194 \<or> ?a = 195"
      using q by (auto simp: word_less_nat_alt ua simp del: of_nat_add)
    have b: "128 \<le> ?b" "?b < 192"
      by (simp_all add: word_le_nat_alt word_less_nat_alt ub del: of_nat_add)
    have v: "(unat ?a - 192) * 64 + (unat ?b - 128) = n" by (simp add: ua ub del: of_nat_add)
    have e: "utf8_char c = [?a, ?b]" using False by (simp add: utf8_char_def n_def [symmetric])
    show ?thesis unfolding e using a b v c by (simp del: of_nat_add)
  qed
qed

lemma utf8_roundtrip: "utf8_decode (utf8_encode s) = Inr s"
  by (induction s) (simp_all add: utf8_encode_def utf8_decode_char)

section \<open>The key list\<close>

definition key_text :: "string \<Rightarrow> bool" where
  "key_text k \<longleftrightarrow> k \<noteq> [] \<and> list_all (\<lambda>c. \<not> is_separator c) k"

lemma split_keys_word: "list_all (\<lambda>c. \<not> is_separator c) k \<Longrightarrow> split_keys k = [k]"
  by (subst split_keys.simps) (simp add: list_all_iff takeWhile_eq_all_conv Let_def)

lemma split_keys_step:
  assumes "key_text k" and "sep \<noteq> []" "list_all is_separator sep" and "s \<noteq> []" "\<not> is_separator (hd s)"
  shows "split_keys (k @ sep @ s) = k # split_keys s"
proof -
  obtain c cs where sep: "sep = c # cs" "is_separator c" using assms(2,3) by (cases sep) auto
  have t: "takeWhile (\<lambda>c. \<not> is_separator c) (k @ sep @ s) = k"
      "dropWhile (\<lambda>c. \<not> is_separator c) (k @ sep @ s) = sep @ s"
    using assms(1) sep by (auto simp: key_text_def list_all_iff takeWhile_append dropWhile_append)
  have d: "dropWhile is_separator (sep @ s) = s"
    using assms(3-5) by (cases s) (auto simp: list_all_iff dropWhile_append)
  show ?thesis by (subst split_keys.simps) (use t d sep in \<open>simp add: Let_def\<close>)
qed

text \<open>A key list written with some separator between the keys.\<close>

fun joined :: "string list \<Rightarrow> string list \<Rightarrow> string" where
  "joined seps [] = []"
| "joined seps [k] = k"
| "joined (sep # seps) (k # ks) = k @ sep @ joined seps ks"
| "joined [] (k # ks) = k @ '','' @ joined [] ks"

lemma joined_hd: "ks \<noteq> [] \<Longrightarrow> list_all key_text ks \<Longrightarrow> joined seps ks \<noteq> [] \<and> hd (joined seps ks) = hd (hd ks)"
  by (induction seps ks rule: joined.induct) (auto simp: key_text_def)

lemma split_keys_joined:
  assumes "ks \<noteq> []" "list_all key_text ks" "list_all (\<lambda>sep. sep \<noteq> [] \<and> list_all is_separator sep) seps"
  shows "split_keys (joined seps ks) = ks"
  using assms
proof (induction seps ks rule: joined.induct)
  case (3 sep seps k k2 ks)
  have h: "joined seps (k2 # ks) \<noteq> []" "\<not> is_separator (hd (joined seps (k2 # ks)))"
    using joined_hd [of "k2 # ks" seps] 3 by (auto simp: key_text_def list_all_iff)
  show ?case using 3 split_keys_step [of k sep, OF _ _ _ h] by simp
next
  case (4 k k2 ks)
  have h: "joined [] (k2 # ks) \<noteq> []" "\<not> is_separator (hd (joined [] (k2 # ks)))"
    using joined_hd [of "k2 # ks" "[]"] 4 by (auto simp: key_text_def list_all_iff)
  show ?case using 4 split_keys_step [of k "'',''", OF _ _ _ h] by (simp add: is_separator_def)
qed (simp_all add: split_keys_word key_text_def)

lemma joined_last: "ks \<noteq> [] \<Longrightarrow> list_all key_text ks \<Longrightarrow> last (joined seps ks) = last (last ks)"
proof (induction seps ks rule: joined.induct)
  case (3 sep seps k k2 ks)
  then show ?case using joined_hd [of "k2 # ks" seps] by simp
next
  case (4 k k2 ks)
  then show ?case using joined_hd [of "k2 # ks" "[]"] by simp
qed simp_all

lemma py_strip_id: "s \<noteq> [] \<Longrightarrow> \<not> is_space (hd s) \<Longrightarrow> \<not> is_space (last s) \<Longrightarrow> py_strip s = s"
proof -
  assume s: "s \<noteq> []" "\<not> is_space (hd s)" "\<not> is_space (last s)"
  have "dropWhile is_space s = s" using s(1,2) by (cases s) auto
  moreover have "dropWhile is_space (rev s) = rev s"
    using s(1,3) by (cases s rule: rev_cases) auto
  ultimately show ?thesis by (simp add: py_strip_def lstrip_by_def rstrip_by_def)
qed

lemma key_text_ends: "key_text k \<Longrightarrow> \<not> is_space (hd k) \<and> \<not> is_space (last k)"
  by (simp add: key_text_def list_all_iff is_separator_def)

text \<open>
  The key list of the environment variable is read in its order, whatever mix of commas and
  white space separates the keys: the primary key is the first one written.
\<close>

theorem parse_keylist_order:
  assumes "ks \<noteq> []" and "list_all key_text ks"
    and "list_all (\<lambda>sep. sep \<noteq> [] \<and> list_all is_separator sep) seps"
  shows "parse_keylist (joined seps ks) = ks"
proof -
  have "key_text (hd ks)" "key_text (last ks)"
    using assms(1,2) unfolding list_all_iff by simp_all
  then have e: "\<not> is_space (hd (hd ks))" "\<not> is_space (last (last ks))"
    using key_text_ends by blast+
  have "py_strip (joined seps ks) = joined seps ks"
    by (rule py_strip_id) (use joined_hd [OF assms(1,2), of seps] joined_last [OF assms(1,2), of seps] e in simp_all)
  moreover have "filter (\<lambda>k. k \<noteq> []) ks = ks" using assms(2) by (induction ks) (simp_all add: key_text_def)
  ultimately show ?thesis by (simp add: parse_keylist_def split_keys_joined [OF assms])
qed

theorem parse_keylist_order_witness:
  "parse_keylist ''new, old'' = [''new'', ''old'']"
proof -
  have k: "list_all key_text [''new'', ''old'']" by code_simp
  have s: "list_all (\<lambda>sep. sep \<noteq> [] \<and> list_all is_separator sep) ['', '']" by code_simp
  have j: "joined ['', ''] [''new'', ''old''] = ''new, old''" by code_simp
  have n: "[''new'', ''old''] \<noteq> []" by (rule list.distinct(2))
  from parse_keylist_order [OF n k s] show ?thesis by (simp only: j)
qed

section \<open>Errors\<close>

definition key_accepted :: "('f, 'w) fernet_ops \<Rightarrow> string \<Rightarrow> bool" where
  "key_accepted F key \<longleftrightarrow> (\<exists>f. fo_fernet F key = Inr f)"

text \<open>\<^verbatim>\<open>Fernet(key)\<close> raises ValueError or TypeError.\<close>

definition fernet_raises :: "('f, 'w) fernet_ops \<Rightarrow> bool" where
  "fernet_raises F \<longleftrightarrow>
     (\<forall>key e. fo_fernet F key = Inl e \<longrightarrow> (\<exists>m. e = ValueError m \<or> e = TypeError m))"

lemma build_fernets_from_error:
  assumes "fernet_raises F" and "list_all2 (\<lambda>k k'. key_accepted F k = key_accepted F k') ks ks'"
    and "build_fernets_from F i ks = Inl e"
  shows "build_fernets_from F i ks' = Inl e"
  using assms(2,3)
proof (induction arbitrary: i rule: list_all2_induct)
  case Nil
  then show ?case by simp
next
  case (Cons k ks k' ks')
  show ?case
  proof (cases "fo_fernet F k")
    case (Inl x)
    obtain y where y: "fo_fernet F k' = Inl y" using Inl Cons.hyps by (cases "fo_fernet F k'") (auto simp: key_accepted_def)
    obtain m m' where "x = ValueError m \<or> x = TypeError m" "y = ValueError m' \<or> y = TypeError m'"
      using assms(1) Inl y unfolding fernet_raises_def by blast
    then show ?thesis using Cons.prems Inl y by (auto simp: Let_def)
  next
    case (Inr f)
    obtain g where g: "fo_fernet F k' = Inr g" using Inr Cons.hyps by (auto simp: key_accepted_def)
    have "build_fernets_from F (Suc i) ks = Inl e"
      using Cons.prems Inr by (cases "build_fernets_from F (Suc i) ks") (auto simp: Let_def)
    with Cons.IH g show ?thesis by (simp add: Let_def)
  qed
qed

lemma build_fernets_from_ok:
  "list_all (key_accepted F) ks \<Longrightarrow>
     \<exists>fs. build_fernets_from F i ks = Inr fs \<and> list_all2 (\<lambda>k f. fo_fernet F k = Inr f) ks fs"
proof (induction ks arbitrary: i)
  case Nil
  then show ?case by simp
next
  case (Cons k ks)
  obtain f where f: "fo_fernet F k = Inr f" using Cons.prems by (auto simp: key_accepted_def)
  obtain fs where "build_fernets_from F (Suc i) ks = Inr fs" "list_all2 (\<lambda>k f. fo_fernet F k = Inr f) ks fs"
    using Cons.IH [of "Suc i"] Cons.prems by auto
  with f show ?case by (intro exI [of _ "f # fs"]) (simp add: Let_def)
qed

text \<open>
  The error of a bad key list never carries key material: it is the same for any other list
  of the same length whose keys are valid at the same positions. A list whose keys are all valid
  is accepted, in order, and an empty one is refused.
\<close>

theorem kek_errors_by_position:
  assumes "fernet_raises F" and "list_all2 (\<lambda>k k'. key_accepted F k = key_accepted F k') ks ks'"
  shows "(kek_init F ks = Inl e \<longrightarrow> kek_init F ks' = Inl e)
       \<and> (ks \<noteq> [] \<longrightarrow> list_all (key_accepted F) ks \<longrightarrow>
            (\<exists>fs. kek_init F ks = Inr fs \<and> list_all2 (\<lambda>k f. fo_fernet F k = Inr f) ks fs))
       \<and> (\<exists>m. kek_init F [] = Inl (KekError m))"
proof -
  have ok: "\<exists>fs. build_fernets_from F 0 ks = Inr fs \<and> list_all2 (\<lambda>k f. fo_fernet F k = Inr f) ks fs"
    if "list_all (key_accepted F) ks"
    using build_fernets_from_ok that by blast
  have n: "ks = [] \<longleftrightarrow> ks' = []" using assms(2) by (auto dest: list_all2_lengthD)
  show ?thesis
    using build_fernets_from_error [OF assms] ok n by (auto simp: kek_init_def build_fernets_def)
qed

section \<open>A sample cipher\<close>

text \<open>A key is one octet and a token is the key followed by the plaintext.\<close>

definition sample_fernet :: "(u8, 'w) fernet_ops" where
  "sample_fernet =
     \<lparr>fo_fernet = (\<lambda>key. case key of [c] \<Rightarrow> Inr (word_of_nat (chr_code c)) | _ \<Rightarrow> Inl (ValueError ''Fernet key'')),
      fo_encrypt = (\<lambda>fs b w. (hd fs # b, w)),
      fo_decrypt = (\<lambda>fs t. case t of f # b \<Rightarrow> if f \<in> set fs then Inr b else Inl InvalidToken
                             | [] \<Rightarrow> Inl InvalidToken),
      fo_rotate = (\<lambda>fs t w. (case t of f # b \<Rightarrow> if f \<in> set fs then Inr (hd fs # b) else Inl InvalidToken
                             | [] \<Rightarrow> Inl InvalidToken, w))\<rparr>"

lemma sample_fernet_laws: "fernet_laws sample_fernet"
  by (auto simp: fernet_laws_def sample_fernet_def split: list.splits)

lemma sample_fernet_raises: "fernet_raises sample_fernet"
  by (auto simp: fernet_raises_def sample_fernet_def split: list.splits)

theorem kek_errors_by_position_witness:
  "\<exists>m. kek_init (sample_fernet :: (u8, unit) fernet_ops) [''a'', ''secret''] = Inl m \<and> kek_init (sample_fernet :: (u8, unit) fernet_ops) [''b'', ''other''] = Inl m"
proof -
  have k: "list_all2 (\<lambda>k k'. key_accepted (sample_fernet :: (u8, unit) fernet_ops) k = key_accepted (sample_fernet :: (u8, unit) fernet_ops) k')
      [''a'', ''secret''] [''b'', ''other'']"
    by (simp add: key_accepted_def sample_fernet_def)
  have e: "\<exists>m. kek_init (sample_fernet :: (u8, unit) fernet_ops) [''a'', ''secret''] = Inl m"
    by (simp add: kek_init_def build_fernets_def sample_fernet_def Let_def)
  then show ?thesis using kek_errors_by_position [OF sample_fernet_raises k] by blast
qed

end
