(* ===== verification/Json.thy ===== *)
theory Json
  imports Prelude
begin

text \<open>
  The part of Python's \<^verbatim>\<open>json\<close> module that the secret store uses:
  \<^verbatim>\<open>json.dumps(obj, sort_keys=True, separators=(",", ":"))\<close> and
  \<^verbatim>\<open>json.loads\<close>, on the values of \<^typ>\<open>pyval\<close>. There are no floats in \<^typ>\<open>pyval\<close> and its
  characters have codes below 256: a text with a float or a wider character is not read by the
  model of \<^verbatim>\<open>loads\<close>; \<^verbatim>\<open>dumps\<close> never writes one.
\<close>

section \<open>dumps\<close>

definition u_escape :: "char \<Rightarrow> string" where
  "u_escape c = (let n = chr_code c in [CHR 0x5C, CHR ''u'', CHR ''0'', CHR ''0'', hex_digit (n div 16), hex_digit (n mod 16)])"

definition json_char :: "char \<Rightarrow> string" where
  "json_char c =
     (let n = chr_code c
      in if n = 34 then [CHR 0x5C, CHR 0x22]
         else if n = 92 then [CHR 0x5C, CHR 0x5C]
         else if n = 10 then [CHR 0x5C, CHR ''n'']
         else if n = 13 then [CHR 0x5C, CHR ''r'']
         else if n = 9 then [CHR 0x5C, CHR ''t'']
         else if n = 12 then [CHR 0x5C, CHR ''f'']
         else if n = 8 then [CHR 0x5C, CHR ''b'']
         else if 32 \<le> n \<and> n \<le> 126 then [c]
         else u_escape c)"

definition json_string :: "string \<Rightarrow> string" where
  "json_string s = [CHR 0x22] @ concat (map json_char s) @ [CHR 0x22]"

fun json_print :: "pyval \<Rightarrow> string" where
  "json_print PNone = ''null''"
| "json_print (PBool b) = (if b then ''true'' else ''false'')"
| "json_print (PInt i) = int_str i"
| "json_print (PStr s) = json_string s"
| "json_print (PSecret s) = []"
| "json_print (PList vs) = ''['' @ sep_join '','' (map json_print vs) @ '']''"
| "json_print (PDict kvs) =
     ''{'' @ sep_join '','' (map (\<lambda>(k, v). json_string k @ '':'' @ json_print v) kvs) @ ''}''"

fun serializable :: "pyval \<Rightarrow> bool" where
  "serializable (PSecret s) = False"
| "serializable (PList vs) = list_all serializable vs"
| "serializable (PDict kvs) = list_all (\<lambda>(k, v). serializable v) kvs"
| "serializable v = True"

text \<open>\<^verbatim>\<open>sort_keys=True\<close>: the items of every dictionary in the order of their keys.\<close>

fun sort_keys :: "pyval \<Rightarrow> pyval" where
  "sort_keys (PList vs) = PList (map sort_keys vs)"
| "sort_keys (PDict kvs) = PDict (sort_key fst (map (\<lambda>(k, v). (k, sort_keys v)) kvs))"
| "sort_keys v = v"

definition json_dumps :: "pyval \<Rightarrow> string res" where
  "json_dumps v =
     (if serializable v then Inr (json_print (sort_keys v))
      else Inl (TypeError ''Object of type SecretStr is not JSON serializable''))"

section \<open>loads\<close>

definition json_ws :: "string \<Rightarrow> string" where
  "json_ws s = dropWhile (\<lambda>c. c \<in> {CHR '' '', CHR 0x09, CHR 0x0A, CHR 0x0D}) s"

definition is_digit :: "char \<Rightarrow> bool" where
  "is_digit c \<longleftrightarrow> 48 \<le> chr_code c \<and> chr_code c \<le> 57"

definition hex_of :: "char \<Rightarrow> nat option" where
  "hex_of c =
     (let n = chr_code c
      in if 48 \<le> n \<and> n \<le> 57 then Some (n - 48)
         else if 97 \<le> n \<and> n \<le> 102 then Some (n - 87)
         else if 65 \<le> n \<and> n \<le> 70 then Some (n - 55) else None)"

definition u_code :: "char \<Rightarrow> char \<Rightarrow> char \<Rightarrow> char \<Rightarrow> char option" where
  "u_code a b c d =
     (case (hex_of a, hex_of b, hex_of c, hex_of d) of
        (Some h1, Some h2, Some h3, Some h4) \<Rightarrow>
          (let n = ((h1 * 16 + h2) * 16 + h3) * 16 + h4 in if n < 256 then Some (char_of n) else None)
      | _ \<Rightarrow> None)"

definition unescape :: "char \<Rightarrow> char option" where
  "unescape e = map_of [(CHR 0x22, CHR 0x22), (CHR 0x5C, CHR 0x5C), (CHR ''/'', CHR ''/''),
     (CHR ''n'', CHR 0x0A), (CHR ''r'', CHR 0x0D), (CHR ''t'', CHR 0x09), (CHR ''f'', CHR 0x0C),
     (CHR ''b'', CHR 0x08)] e"

definition cons_fst :: "'a \<Rightarrow> ('a list \<times> 'b) option \<Rightarrow> ('a list \<times> 'b) option" where
  "cons_fst x r = map_option (\<lambda>(xs, y). (x # xs, y)) r"

text \<open>The body of a string after its opening quote; raw control characters are refused.\<close>

fun json_str_body :: "string \<Rightarrow> (string \<times> string) option" where
  "json_str_body [] = None"
| "json_str_body (c # cs) =
     (if c = CHR 0x22 then Some ([], cs)
      else if c = CHR 0x5C
      then (case cs of
              [] \<Rightarrow> None
            | e # cs' \<Rightarrow>
                if e = CHR ''u''
                then (case cs' of
                        h1 # h2 # h3 # h4 # r \<Rightarrow>
                          (case u_code h1 h2 h3 h4 of
                             None \<Rightarrow> None | Some x \<Rightarrow> cons_fst x (json_str_body r))
                      | _ \<Rightarrow> None)
                else (case unescape e of None \<Rightarrow> None | Some x \<Rightarrow> cons_fst x (json_str_body cs')))
      else if chr_code c < 32 then None
      else cons_fst c (json_str_body cs))"

definition digits_value :: "string \<Rightarrow> int" where
  "digits_value ds = foldl (\<lambda>acc c. acc * 10 + (int (chr_code c) - 48)) 0 ds"

definition int_digits :: "string \<Rightarrow> string" where
  "int_digits r = (case r of [] \<Rightarrow> [] | c # _ \<Rightarrow> if c = CHR ''0'' then [c] else takeWhile is_digit r)"

text \<open>A fraction or an exponent would make the number a float.\<close>

definition starts_float :: "string \<Rightarrow> bool" where
  "starts_float rest = (case rest of [] \<Rightarrow> False | c # _ \<Rightarrow> c \<in> {CHR ''.'', CHR ''e'', CHR ''E''})"

definition json_int :: "string \<Rightarrow> (pyval \<times> string) option" where
  "json_int s =
     (let neg = (case s of c # _ \<Rightarrow> c = CHR ''-'' | [] \<Rightarrow> False);
          r = (if neg then tl s else s);
          ds = int_digits r;
          rest = drop (length ds) r
      in if ds = [] \<or> starts_float rest then None
         else Some (PInt (if neg then - digits_value ds else digits_value ds), rest))"

definition literal :: "string \<Rightarrow> pyval \<Rightarrow> string \<Rightarrow> (pyval \<times> string) option" where
  "literal word v s = (if take (length word) s = word then Some (v, drop (length word) s) else None)"

text \<open>The value parser, with a bound on the nesting of its calls.\<close>

fun json_value :: "nat \<Rightarrow> string \<Rightarrow> (pyval \<times> string) option"
  and json_elems :: "nat \<Rightarrow> pyval list \<Rightarrow> string \<Rightarrow> (pyval list \<times> string) option"
  and json_members :: "nat \<Rightarrow> config \<Rightarrow> string \<Rightarrow> (config \<times> string) option" where
  "json_value 0 s = None"
| "json_value (Suc n) s =
     (case s of
        [] \<Rightarrow> None
      | c # r \<Rightarrow>
          if c = CHR 0x22 then map_option (\<lambda>(x, t). (PStr x, t)) (json_str_body r)
          else if c = CHR ''[''
          then (case json_ws r of
                  d # t \<Rightarrow> if d = CHR '']'' then Some (PList [], t)
                           else map_option (\<lambda>(vs, t'). (PList vs, t')) (json_elems n [] (json_ws r))
                | [] \<Rightarrow> None)
          else if c = CHR ''{''
          then (case json_ws r of
                  d # t \<Rightarrow> if d = CHR ''}'' then Some (PDict [], t)
                           else map_option (\<lambda>(kvs, t'). (PDict kvs, t')) (json_members n [] (json_ws r))
                | [] \<Rightarrow> None)
          else if c = CHR ''n'' then literal ''null'' PNone s
          else if c = CHR ''t'' then literal ''true'' (PBool True) s
          else if c = CHR ''f'' then literal ''false'' (PBool False) s
          else json_int s)"
| "json_elems 0 acc s = None"
| "json_elems (Suc n) acc s =
     (case json_value n s of
        None \<Rightarrow> None
      | Some (v, t) \<Rightarrow>
          (case json_ws t of
             c # r \<Rightarrow> if c = CHR '']'' then Some (acc @ [v], r)
                      else if c = CHR '','' then json_elems n (acc @ [v]) (json_ws r) else None
           | [] \<Rightarrow> None))"
| "json_members 0 acc s = None"
| "json_members (Suc n) acc s =
     (case s of
        [] \<Rightarrow> None
      | q # s' \<Rightarrow>
          if q \<noteq> CHR 0x22 then None
          else (case json_str_body s' of
                  None \<Rightarrow> None
                | Some (k, t) \<Rightarrow>
                    (case json_ws t of
                       [] \<Rightarrow> None
                     | c # t' \<Rightarrow>
                         if c \<noteq> CHR '':'' then None
                         else (case json_value n (json_ws t') of
                                 None \<Rightarrow> None
                               | Some (v, u) \<Rightarrow>
                                   (case json_ws u of
                                      d # r \<Rightarrow>
                                        if d = CHR ''}'' then Some (AList.update k v acc, r)
                                        else if d = CHR '',''
                                        then json_members n (AList.update k v acc) (json_ws r)
                                        else None
                                    | [] \<Rightarrow> None)))))"

definition json_loads :: "string \<Rightarrow> pyval res" where
  "json_loads s =
     (case json_value (2 * length s + 2) (json_ws s) of
        Some (v, t) \<Rightarrow> if json_ws t = [] then Inr v else Inl (ValueError ''Extra data'')
      | None \<Rightarrow> Inl (ValueError ''Expecting value''))"

section \<open>Strings\<close>

lemma chr_code_eq: "chr_code c = n \<longleftrightarrow> n < 256 \<and> c = char_of n"
  using nat_of_char_less_256 [of c] by (auto simp: of_char_of take_bit_eq_mod)

lemma hex_of_digit: "h < 16 \<Longrightarrow> hex_of (hex_digit h) = Some h"
  by (auto simp: hex_of_def hex_digit_def of_char_of take_bit_eq_mod Let_def)

lemma u_code_escape: "u_code (CHR ''0'') (CHR ''0'') (hex_digit (chr_code c div 16)) (hex_digit (chr_code c mod 16)) = Some c"
proof -
  have b: "chr_code c < 256" by (rule nat_of_char_less_256)
  then have h: "chr_code c div 16 < 16" "chr_code c mod 16 < 16" by (simp_all add: div_less_iff_less_mult)
  have z: "hex_of (CHR ''0'') = Some 0" by code_simp
  have "chr_code c div 16 * 16 + chr_code c mod 16 = chr_code c" by (rule div_mult_mod_eq)
  with b h show ?thesis by (simp add: u_code_def z hex_of_digit)
qed

lemma unescape_simps:
  "unescape (CHR 0x22) = Some (CHR 0x22)" "unescape (CHR 0x5C) = Some (CHR 0x5C)"
  "unescape (CHR ''n'') = Some (CHR 0x0A)" "unescape (CHR ''r'') = Some (CHR 0x0D)"
  "unescape (CHR ''t'') = Some (CHR 0x09)" "unescape (CHR ''f'') = Some (CHR 0x0C)"
  "unescape (CHR ''b'') = Some (CHR 0x08)"
  by code_simp+

lemma special_codes:
  "char_of (34::nat) = CHR 0x22" "char_of (92::nat) = CHR 0x5C" "char_of (10::nat) = CHR 0x0A"
  "char_of (13::nat) = CHR 0x0D" "char_of (9::nat) = CHR 0x09" "char_of (12::nat) = CHR 0x0C"
  "char_of (8::nat) = CHR 0x08"
  by code_simp+

lemma json_char_special:
  "json_char (CHR 0x22) = [CHR 0x5C, CHR 0x22]" "json_char (CHR 0x5C) = [CHR 0x5C, CHR 0x5C]"
  "json_char (CHR 0x0A) = [CHR 0x5C, CHR ''n'']" "json_char (CHR 0x0D) = [CHR 0x5C, CHR ''r'']"
  "json_char (CHR 0x09) = [CHR 0x5C, CHR ''t'']" "json_char (CHR 0x0C) = [CHR 0x5C, CHR ''f'']"
  "json_char (CHR 0x08) = [CHR 0x5C, CHR ''b'']"
  by code_simp+

definition special :: "char list" where
  "special = [CHR 0x22, CHR 0x5C, CHR 0x0A, CHR 0x0D, CHR 0x09, CHR 0x0C, CHR 0x08]"

lemma special_iff: "c \<in> set special \<longleftrightarrow> chr_code c \<in> {34, 92, 10, 13, 9, 12, 8}"
  by (auto simp: special_def chr_code_eq special_codes)

lemma json_str_body_special: "c \<in> set special \<Longrightarrow> json_str_body (json_char c @ xs) = cons_fst c (json_str_body xs)"
  unfolding special_def by (auto simp: json_char_special unescape_simps)

lemma json_str_body_char: "json_str_body (json_char c @ xs) = cons_fst c (json_str_body xs)"
proof (cases "c \<in> set special")
  case True
  then show ?thesis by (rule json_str_body_special)
next
  case False
  then have n: "chr_code c \<notin> {34, 92, 10, 13, 9, 12, 8}" by (simp add: special_iff)
  show ?thesis
  proof (cases "32 \<le> chr_code c \<and> chr_code c \<le> 126")
    case True
    then have j: "json_char c = [c]" using n by (simp add: json_char_def)
    have "c \<noteq> CHR 0x22" "c \<noteq> CHR 0x5C" using False by (auto simp: special_def)
    with True show ?thesis unfolding j by simp
  next
    case False
    then have j: "json_char c = u_escape c" using n by (auto simp: json_char_def Let_def)
    show ?thesis unfolding j by (simp add: u_escape_def Let_def u_code_escape)
  qed
qed

lemma json_str_body_roundtrip:
  "json_str_body (concat (map json_char s) @ CHR 0x22 # rest) = Some (s, rest)"
  by (induction s) (simp_all add: json_str_body_char cons_fst_def del: json_str_body.simps(2),
      simp add: json_str_body.simps(2))

section \<open>Numbers\<close>

lemma is_digit_char: "n < 10 \<Longrightarrow> is_digit (char_of (48 + n :: nat))"
  by (simp add: is_digit_def of_char_of take_bit_eq_mod)

lemma nat_digits_all: "list_all is_digit (nat_digits n)"
  by (induction n rule: nat_digits.induct) (subst nat_digits.simps, simp add: is_digit_char)

lemma nat_digits_ne [simp]: "nat_digits n \<noteq> []"
  by (subst nat_digits.simps) simp

lemma digits_value_append: "digits_value (ds @ [c]) = digits_value ds * 10 + (int (chr_code c) - 48)"
  by (simp add: digits_value_def)

lemma digit_value: "n < 10 \<Longrightarrow> int (chr_code (char_of (48 + n :: nat))) - 48 = int n"
  by (simp add: of_char_of take_bit_eq_mod)

lemma nat_digits_value: "digits_value (nat_digits n) = int n"
proof (induction n rule: nat_digits.induct)
  case (1 n)
  show ?case
  proof (cases "n < 10")
    case True
    then show ?thesis
      by (subst nat_digits.simps) (simp add: digits_value_def digit_value)
  next
    case False
    have "int n = int (n div 10) * 10 + int (n mod 10)" by presburger
    with False 1 show ?thesis
      by (subst nat_digits.simps) (simp add: digits_value_append digit_value)
  qed
qed

lemma nat_digits_hd: "0 < n \<Longrightarrow> hd (nat_digits n) \<noteq> CHR ''0''"
proof (induction n rule: nat_digits.induct)
  case (1 n)
  show ?case
  proof (cases "n < 10")
    case True
    have z: "CHR ''0'' = char_of (48::nat)" by code_simp
    have "chr_code (char_of (48 + n)) \<noteq> chr_code (char_of (48::nat))"
      using True 1(2) by (simp add: of_char_of take_bit_eq_mod)
    then have "char_of (48 + n) \<noteq> (char_of (48::nat) :: char)" by metis
    with True show ?thesis by (subst nat_digits.simps) (simp add: z)
  next
    case False
    then show ?thesis using 1 by (subst nat_digits.simps) (simp add: div_greater_zero_iff)
  qed
qed

lemma nat_digits_zero: "nat_digits 0 = ''0''"
proof -
  have "char_of (48::nat) = CHR ''0''" by code_simp
  then show ?thesis by (subst nat_digits.simps) simp
qed

text \<open>What follows a value in a printed text.\<close>

definition delim :: "string \<Rightarrow> bool" where
  "delim rest \<longleftrightarrow> (case rest of [] \<Rightarrow> True | c # _ \<Rightarrow> c \<in> {CHR '','', CHR '']'', CHR ''}''})"

lemma delim_not_digit: "delim (c # rest) \<Longrightarrow> \<not> is_digit c \<and> c \<notin> {CHR ''.'', CHR ''e'', CHR ''E''}"
  by (auto simp: delim_def is_digit_def)

lemma takeWhile_digits:
  assumes "list_all is_digit ds" and "delim rest"
  shows "takeWhile is_digit (ds @ rest) = ds"
proof -
  have "takeWhile is_digit rest = []"
    using assms(2) delim_not_digit [of "hd rest" "tl rest"] by (cases rest) auto
  with assms(1) show ?thesis by (simp add: list_all_iff takeWhile_append2)
qed

lemma int_digits_nat:
  assumes "delim rest"
  shows "int_digits (nat_digits n @ rest) = nat_digits n"
proof (cases "n = 0")
  case True
  then show ?thesis by (simp add: int_digits_def nat_digits_zero)
next
  case False
  obtain d ds where d: "nat_digits n = d # ds" by (cases "nat_digits n") auto
  have "d \<noteq> CHR ''0''" using nat_digits_hd [of n] False d by auto
  then show ?thesis
    using takeWhile_digits [OF nat_digits_all [of n] assms] unfolding int_digits_def d by simp
qed

lemma delim_not_float: "delim rest \<Longrightarrow> \<not> starts_float rest"
  using delim_not_digit [of "hd rest" "tl rest"] by (cases rest) (auto simp: starts_float_def)

lemma json_int_roundtrip:
  assumes "delim rest"
  shows "json_int (int_str i @ rest) = Some (PInt i, rest)"
proof -
  note d = int_digits_nat [OF assms] delim_not_float [OF assms] nat_digits_value
  have m: "(case nat_digits n @ rest of c # _ \<Rightarrow> c = CHR ''-'' | [] \<Rightarrow> False) = False" for n
    using nat_digits_all [of n] by (cases "nat_digits n") (auto simp: is_digit_def)
  show ?thesis
    by (cases "i < 0") (simp_all add: int_str_def json_int_def d m Let_def)
qed

section \<open>Values\<close>

text \<open>Python dictionaries have distinct keys.\<close>

fun dicts_ok :: "pyval \<Rightarrow> bool" where
  "dicts_ok (PList vs) = list_all dicts_ok vs"
| "dicts_ok (PDict kvs) = (distinct (map fst kvs) \<and> list_all (\<lambda>(k, v). dicts_ok v) kvs)"
| "dicts_ok v = True"

definition reads_back :: "pyval \<Rightarrow> bool" where
  "reads_back v \<longleftrightarrow>
     (\<forall>n rest. delim rest \<longrightarrow> 2 * length (json_print v) \<le> n \<longrightarrow>
        json_value n (json_print v @ rest) = Some (v, rest))"

text \<open>The first character of a printed value.\<close>

definition solid :: "char \<Rightarrow> bool" where
  "solid c \<longleftrightarrow> c \<notin> {CHR '' '', CHR 0x09, CHR 0x0A, CHR 0x0D, CHR '']'', CHR ''}''}"

lemma json_ws_solid: "solid c \<Longrightarrow> json_ws (c # s) = c # s"
  by (simp add: json_ws_def solid_def)

lemma json_ws_delim: "delim s \<Longrightarrow> json_ws s = s"
  by (auto simp: delim_def json_ws_def split: list.splits)

lemma int_str_hd: "\<exists>c t. int_str i = c # t \<and> (is_digit c \<or> c = CHR ''-'')"
proof -
  have "\<exists>c t. nat_digits n = c # t \<and> is_digit c" for n
    using nat_digits_all [of n] by (cases "nat_digits n") auto
  from this [of "nat i"] show ?thesis by (cases "i < 0") (auto simp: int_str_def)
qed

lemma json_print_hd: "serializable v \<Longrightarrow> \<exists>c t. json_print v = c # t \<and> solid c"
proof (cases v)
  case (PInt i)
  then show ?thesis using int_str_hd [of i] by (auto simp: solid_def is_digit_def)
qed (auto simp: json_string_def solid_def)

lemma json_print_ws: "serializable v \<Longrightarrow> json_ws (json_print v @ s) = json_print v @ s"
  using json_print_hd [of v] json_ws_solid by auto

lemma json_int_dispatch:
  assumes "is_digit c \<or> c = CHR ''-''"
  shows "json_value (Suc n) (c # s) = json_int (c # s)"
  using assms by (auto simp: is_digit_def)

lemma reads_back_int: "reads_back (PInt i)"
proof -
  have "json_value n (int_str i @ rest) = Some (PInt i, rest)"
    if r: "delim rest" and n: "2 * length (int_str i) \<le> n" for n rest
  proof -
    obtain c t where c: "int_str i = c # t" "is_digit c \<or> c = CHR ''-''" using int_str_hd by blast
    obtain n' where "n = Suc n'" using n c(1) by (cases n) auto
    then show ?thesis using json_int_roundtrip [OF r, of i] json_int_dispatch [OF c(2)] c(1) by simp
  qed
  then show ?thesis by (simp add: reads_back_def)
qed

lemma json_value_string:
  "json_value (Suc n) (json_string s @ rest) = Some (PStr s, rest)"
  using json_str_body_roundtrip [of s rest] by (simp add: json_string_def)

lemma reads_back_str: "reads_back (PStr s)"
proof -
  have "\<exists>m. n = Suc m" if "2 * length (json_string s) \<le> n" for n
    using that by (cases n) (auto simp: json_string_def)
  then show ?thesis unfolding reads_back_def using json_value_string by fastforce
qed

lemma json_value_const:
  "json_value (Suc n) (''null'' @ rest) = Some (PNone, rest)"
  "json_value (Suc n) (''true'' @ rest) = Some (PBool True, rest)"
  "json_value (Suc n) (''false'' @ rest) = Some (PBool False, rest)"
  by (simp_all add: literal_def)

lemma reads_back_Suc:
  assumes "0 < length (json_print v)"
    and "\<And>n rest. delim rest \<Longrightarrow> 2 * length (json_print v) \<le> Suc n \<Longrightarrow>
           json_value (Suc n) (json_print v @ rest) = Some (v, rest)"
  shows "reads_back v"
  unfolding reads_back_def
proof (intro allI impI)
  fix n rest
  assume d: "delim rest" and l: "2 * length (json_print v) \<le> n"
  obtain m where "n = Suc m" using assms(1) l by (cases n) auto
  then show "json_value n (json_print v @ rest) = Some (v, rest)" using assms(2) d l by blast
qed

lemma reads_back_const: "reads_back PNone" "reads_back (PBool b)"
  by (rule reads_back_Suc; use json_value_const in \<open>simp del: json_value.simps\<close>)+

lemma delim_intros: "delim (CHR '','' # s)" "delim (CHR '']'' # s)" "delim (CHR ''}'' # s)"
  by (simp_all add: delim_def)

lemma json_elems_roundtrip:
  assumes "xs \<noteq> []" and "\<forall>x \<in> set xs. serializable x \<and> reads_back x"
    and "2 * length (sep_join '','' (map json_print xs)) + 1 \<le> n"
  shows "json_elems n acc (sep_join '','' (map json_print xs) @ CHR '']'' # rest) = Some (acc @ xs, rest)"
  using assms
proof (induction xs arbitrary: n acc)
  case Nil
  then show ?case by simp
next
  case (Cons x xs)
  obtain m where n: "n = Suc m" using Cons.prems(3) by (cases n) auto
  have rb: "json_value m (json_print x @ t) = Some (x, t)" if "delim t" "2 * length (json_print x) \<le> m" for t
    using that Cons.prems(2) unfolding reads_back_def by simp
  show ?case
  proof (cases xs)
    case Nil
    then show ?thesis
      using Cons.prems(3) rb [of "CHR '']'' # rest"] by (simp add: n delim_intros json_ws_delim)
  next
    case (Cons y ys)
    define tl where "tl = sep_join '','' (map json_print xs)"
    have j: "sep_join '','' (map json_print (x # xs)) = json_print x @ '','' @ tl"
      using Cons by (simp add: tl_def)
    have len: "2 * length (json_print x) \<le> m" "2 * length tl + 1 \<le> m"
      using Cons.prems(3) unfolding j n by simp_all
    obtain z where "tl = json_print y @ z" using Cons by (cases ys) (auto simp: tl_def)
    then have ws: "json_ws (tl @ CHR '']'' # rest) = tl @ CHR '']'' # rest"
      using Cons.prems(2) Cons by (simp add: json_print_ws)
    have "json_elems m (acc @ [x]) (tl @ CHR '']'' # rest) = Some ((acc @ [x]) @ xs, rest)"
      unfolding tl_def by (rule Cons.IH) (use Cons Cons.prems(2) len(2) in \<open>auto simp: tl_def\<close>)
    then show ?thesis
      unfolding j n using rb [of "CHR '','' # tl @ CHR '']'' # rest"] len(1) ws
      by (simp add: delim_intros json_ws_delim)
  qed
qed

definition json_item :: "string \<times> pyval \<Rightarrow> string" where
  "json_item kv = (case kv of (k, v) \<Rightarrow> json_string k @ '':'' @ json_print v)"

lemma json_print_dict: "json_print (PDict kvs) = ''{'' @ sep_join '','' (map json_item kvs) @ ''}''"
  by (simp add: json_item_def [abs_def])

declare json_print.simps(7) [simp del]

lemma json_string_hd: "\<exists>t. json_string k = CHR 0x22 # t"
  by (simp add: json_string_def)

lemma AList_update_new: "k \<notin> fst ` set acc \<Longrightarrow> AList.update k v acc = acc @ [(k, v)]"
  by (induction acc) auto

lemma json_members_step:
  assumes v: "serializable v" "reads_back v" and k: "k \<notin> fst ` set acc"
    and n: "2 * length (json_item (k, v)) \<le> n" and d: "d \<in> {CHR '','', CHR ''}''}"
  shows "json_members (Suc n) acc (json_item (k, v) @ d # t) =
     (if d = CHR ''}'' then Some (acc @ [(k, v)], t) else json_members n (acc @ [(k, v)]) (json_ws t))"
proof -
  have b: "json_str_body (concat (map json_char k) @ CHR 0x22 # CHR '':'' # json_print v @ d # t)
      = Some (k, CHR '':'' # json_print v @ d # t)"
    by (rule json_str_body_roundtrip)
  have dl: "delim (d # t)" using d by (auto simp: delim_def)
  have "2 * length (json_print v) \<le> n" using n by (simp add: json_item_def)
  then have r: "json_value n (json_print v @ d # t) = Some (v, d # t)"
    using v(2) dl unfolding reads_back_def by blast
  have c: "json_ws (CHR '':'' # s) = CHR '':'' # s" for s by (simp add: json_ws_def)
  show ?thesis
    using d by (auto simp: json_item_def json_string_def b r c json_print_ws [OF v(1)] json_ws_delim [OF dl]
        AList_update_new [OF k])
qed

lemma json_members_roundtrip:
  assumes "kvs \<noteq> []" and "\<forall>(k, v) \<in> set kvs. serializable v \<and> reads_back v"
    and "distinct (map fst (acc @ kvs))"
    and "2 * length (sep_join '','' (map json_item kvs)) + 1 \<le> n"
  shows "json_members n acc (sep_join '','' (map json_item kvs) @ CHR ''}'' # rest) = Some (acc @ kvs, rest)"
  using assms
proof (induction kvs arbitrary: n acc)
  case Nil
  then show ?case by simp
next
  case (Cons kv kvs)
  obtain k v where kv: "kv = (k, v)" by (cases kv)
  obtain m where n: "n = Suc m" using Cons.prems(4) by (cases n) auto
  have v: "serializable v" "reads_back v" "k \<notin> fst ` set acc"
    using Cons.prems(2,3) by (auto simp: kv)
  show ?case
  proof (cases kvs)
    case Nil
    then show ?thesis
      using Cons.prems(4) json_members_step [OF v, of m "CHR ''}''" rest] by (simp add: n kv del: json_members.simps)
  next
    case (Cons y ys)
    define tl where "tl = sep_join '','' (map json_item kvs)"
    have j: "sep_join '','' (map json_item (kv # kvs)) = json_item (k, v) @ '','' @ tl"
      using Cons by (simp add: tl_def kv)
    have len: "2 * length (json_item (k, v)) \<le> m" "2 * length tl + 1 \<le> m"
      using Cons.prems(4) unfolding j n by simp_all
    obtain z where "tl = CHR 0x22 # z"
      using Cons by (cases ys; cases y) (auto simp: tl_def json_item_def json_string_def)
    then have ws: "json_ws (tl @ s) = tl @ s" for s by (simp add: json_ws_def)
    have "json_members m (acc @ [(k, v)]) (tl @ CHR ''}'' # rest) = Some ((acc @ [(k, v)]) @ kvs, rest)"
      unfolding tl_def by (rule Cons.IH) (use Cons Cons.prems(2,3) len(2) kv in \<open>auto simp: tl_def\<close>)
    then show ?thesis
      unfolding j n using json_members_step [OF v len(1), of "CHR '',''" "tl @ CHR ''}'' # rest"] ws kv
      by (simp del: json_members.simps)
  qed
qed

lemma reads_back_list:
  assumes "\<forall>x \<in> set xs. serializable x \<and> reads_back x"
  shows "reads_back (PList xs)"
proof (rule reads_back_Suc)
  fix n rest
  assume l: "2 * length (json_print (PList xs)) \<le> Suc n"
  show "json_value (Suc n) (json_print (PList xs) @ rest) = Some (PList xs, rest)"
  proof (cases xs)
    case Nil
    then show ?thesis by (simp add: json_ws_def)
  next
    case (Cons x ys)
    let ?b = "sep_join '','' (map json_print xs)"
    obtain z where z: "?b = json_print x @ z" using Cons by (cases ys) auto
    obtain c t where c: "json_print x = c # t" "solid c" using assms Cons json_print_hd [of x] by auto
    have ws: "json_ws (?b @ CHR '']'' # rest) = ?b @ CHR '']'' # rest"
      using json_print_ws [of x] assms Cons z by simp
    have ne: "c \<noteq> CHR '']''" using c(2) by (auto simp: solid_def)
    have e: "json_elems n [] (?b @ CHR '']'' # rest) = Some (xs, rest)"
      using json_elems_roundtrip [of xs n "[]" rest] assms Cons l by simp
    have h: "?b = c # t @ z" using z c(1) by simp
    show ?thesis using ws e ne by (simp add: h)
  qed
qed simp

lemma reads_back_dict:
  assumes "\<forall>(k, v) \<in> set kvs. serializable v \<and> reads_back v" and "distinct (map fst kvs)"
  shows "reads_back (PDict kvs)"
proof (rule reads_back_Suc)
  fix n rest
  assume l: "2 * length (json_print (PDict kvs)) \<le> Suc n"
  show "json_value (Suc n) (json_print (PDict kvs) @ rest) = Some (PDict kvs, rest)"
  proof (cases kvs)
    case Nil
    then show ?thesis by (simp add: json_print_dict json_ws_def)
  next
    case (Cons y ys)
    let ?b = "sep_join '','' (map json_item kvs)"
    obtain z where h: "?b = CHR 0x22 # z"
      using Cons by (cases ys; cases y) (auto simp: json_item_def json_string_def)
    have ws: "json_ws (?b @ CHR ''}'' # rest) = ?b @ CHR ''}'' # rest" by (simp add: h json_ws_def)
    have e: "json_members n [] (?b @ CHR ''}'' # rest) = Some (kvs, rest)"
      using json_members_roundtrip [of kvs "[]" n rest] assms Cons l by (simp add: json_print_dict)
    show ?thesis using ws e by (simp add: json_print_dict h)
  qed
qed (simp add: json_print_dict)

lemma value_reads_back: "serializable v \<Longrightarrow> dicts_ok v \<Longrightarrow> reads_back v"
proof (induction v)
  case (PList xs)
  then show ?case by (intro reads_back_list) (auto simp: list_all_iff)
next
  case (PDict kvs)
  then show ?case by (intro reads_back_dict) (fastforce simp: list_all_iff)+
qed (simp_all add: reads_back_int reads_back_str reads_back_const)

section \<open>Round trip\<close>

lemma serializable_sort_keys [simp]: "serializable (sort_keys v) = serializable v"
  by (induction v) (auto simp: list_all_iff)

lemma distinct_sort_key: "distinct (map fst ys) \<Longrightarrow> distinct (map fst (sort_key fst ys))"
  by (simp add: distinct_map)

lemma dicts_ok_sort_keys: "dicts_ok v \<Longrightarrow> dicts_ok (sort_keys v)"
proof (induction v)
  case (PDict kvs)
  have m: "map fst (map (\<lambda>(k, v). (k, sort_keys v)) kvs) = map fst kvs" by (induction kvs) auto
  have "distinct (map fst (sort_key fst (map (\<lambda>(k, v). (k, sort_keys v)) kvs)))"
    using PDict.prems by (intro distinct_sort_key) (simp only: m dicts_ok.simps)
  then show ?case using PDict by (fastforce simp: list_all_iff)
qed (auto simp: list_all_iff)

lemma json_loads_print:
  assumes "serializable v" and "dicts_ok v"
  shows "json_loads (json_print (sort_keys v)) = Inr (sort_keys v)"
proof -
  let ?v = "sort_keys v"
  have rb: "reads_back ?v" by (rule value_reads_back) (use assms dicts_ok_sort_keys in auto)
  have d: "delim []" by (simp add: delim_def)
  have "json_value (2 * length (json_print ?v) + 2) (json_print ?v @ []) = Some (?v, [])"
    using rb d unfolding reads_back_def by (metis le_add1)
  moreover have "json_ws (json_print ?v) = json_print ?v" using json_print_ws [of ?v "[]"] assms(1) by simp
  ultimately show ?thesis by (simp add: json_loads_def json_ws_def)
qed

text \<open>
  A stored configuration reads back. Every serializable value (no SecretStr inside) whose
  dictionaries have distinct keys is written by \<^verbatim>\<open>json.dumps\<close> and read back by
  \<^verbatim>\<open>json.loads\<close> as the same value with its keys sorted; a SecretStr anywhere makes
  \<^verbatim>\<open>dumps\<close> raise.
\<close>

theorem json_roundtrip:
  assumes "dicts_ok v"
  shows "(serializable v \<longrightarrow> (\<exists>text. json_dumps v = Inr text \<and> json_loads text = Inr (sort_keys v)))
       \<and> (\<not> serializable v \<longrightarrow> (\<exists>m. json_dumps v = Inl (TypeError m)))"
  using assms by (simp add: json_dumps_def json_loads_print)

theorem json_roundtrip_witness:
  "(\<exists>text. json_dumps (PDict [(''b'', PInt (- 5)), (''a'', PList [PStr ''x y'', PNone])]) = Inr text
      \<and> json_loads text = Inr (PDict [(''a'', PList [PStr ''x y'', PNone]), (''b'', PInt (- 5))]))"
proof -
  let ?v = "PDict [(''b'', PInt (- 5)), (''a'', PList [PStr ''x y'', PNone])]"
  have d: "dicts_ok ?v" by simp
  have s: "serializable ?v" by simp
  have k: "sort_keys ?v = PDict [(''a'', PList [PStr ''x y'', PNone]), (''b'', PInt (- 5))]" by code_simp
  show ?thesis using json_roundtrip [OF d] s k by simp
qed

end
