(* ===== verification/Store.thy ===== *)
theory Store
  imports Models Crypto Json
begin

text \<open>
  \<^verbatim>\<open>store.py\<close>: the secret codec between the key-encryption key and the encrypted
  columns, token hashing, password hashing and the row builders. SHA-256 and argon2 are arguments,
  as is the token that \<^verbatim>\<open>secrets\<close> draws. A codec is the key list of its KEK.
\<close>

section \<open>The codec\<close>

definition encrypt_text :: "('f, 'w) fernet_ops \<Rightarrow> 'f kek \<Rightarrow> string \<Rightarrow> 'w \<Rightarrow> bytes \<times> 'w" where
  "encrypt_text F kek text w = kek_encrypt F kek (utf8_encode text) w"

definition decrypt_text :: "('f, 'w) fernet_ops \<Rightarrow> 'f kek \<Rightarrow> bytes \<Rightarrow> string res" where
  "decrypt_text F kek token =
     (case kek_decrypt F kek token of Inl e \<Rightarrow> Inl e | Inr b \<Rightarrow> utf8_decode b)"

definition encrypt_json :: "('f, 'w) fernet_ops \<Rightarrow> 'f kek \<Rightarrow> pyval \<Rightarrow> 'w \<Rightarrow> bytes res \<times> 'w" where
  "encrypt_json F kek obj w =
     (case json_dumps obj of
        Inl e \<Rightarrow> (Inl e, w)
      | Inr payload \<Rightarrow> (let (token, w') = kek_encrypt F kek (utf8_encode payload) w in (Inr token, w')))"

definition decrypt_json :: "('f, 'w) fernet_ops \<Rightarrow> 'f kek \<Rightarrow> bytes \<Rightarrow> pyval res" where
  "decrypt_json F kek token =
     (case kek_decrypt F kek token of
        Inl e \<Rightarrow> Inl e
      | Inr b \<Rightarrow> (case utf8_decode b of Inl e \<Rightarrow> Inl e | Inr text \<Rightarrow> json_loads text))"

section \<open>Tokens and passwords\<close>

text \<open>
  The random text of \<^verbatim>\<open>secrets.token_urlsafe(32)\<close> and the 32 random bytes of
  \<^verbatim>\<open>secrets.token_bytes(32)\<close> are drawn from the world.
\<close>

definition generate_token :: "('w \<Rightarrow> string \<times> 'w) \<Rightarrow> 'w \<Rightarrow> string \<times> 'w" where
  "generate_token draw w = draw w"

definition b64_char :: "nat \<Rightarrow> char" where
  "b64_char n = ''ABCDEFGHIJKLMNOPQRSTUVWXYZabcdefghijklmnopqrstuvwxyz0123456789+/'' ! n"

text \<open>\<^verbatim>\<open>base64.b64encode\<close>, decoded as ASCII text.\<close>

fun b64encode :: "bytes \<Rightarrow> string" where
  "b64encode (x # y # z # bs) =
     (let n = unat x * 65536 + unat y * 256 + unat z
      in [b64_char (n div 262144), b64_char (n div 4096 mod 64), b64_char (n div 64 mod 64), b64_char (n mod 64)]
         @ b64encode bs)"
| "b64encode [x, y] =
     (let n = unat x * 65536 + unat y * 256
      in [b64_char (n div 262144), b64_char (n div 4096 mod 64), b64_char (n div 64 mod 64), CHR ''='']) "
| "b64encode [x] =
     (let n = unat x * 65536 in [b64_char (n div 262144), b64_char (n div 4096 mod 64), CHR ''='', CHR ''=''])"
| "b64encode [] = []"

definition generate_tsig_secret :: "('w \<Rightarrow> bytes \<times> 'w) \<Rightarrow> 'w \<Rightarrow> string \<times> 'w" where
  "generate_tsig_secret token_bytes w = (let (b, w') = token_bytes w in (b64encode b, w'))"

definition hash_token :: "(bytes \<Rightarrow> string) \<Rightarrow> string \<Rightarrow> string" where
  "hash_token sha256_hex token = sha256_hex (utf8_encode token)"

definition verify_token :: "(bytes \<Rightarrow> string) \<Rightarrow> string \<Rightarrow> string \<Rightarrow> bool" where
  "verify_token sha256_hex candidate stored_hash \<longleftrightarrow> hash_token sha256_hex candidate = stored_hash"

text \<open>The argon2 hasher; \<open>OtherError ''VerifyMismatchError''\<close> is its mismatch exception.\<close>

record 'w argon2 =
  a2_hash :: "string \<Rightarrow> 'w \<Rightarrow> string \<times> 'w"
  a2_verify :: "string \<Rightarrow> string \<Rightarrow> bool res"
  a2_check_needs_rehash :: "string \<Rightarrow> bool res"

definition hash_password :: "'w argon2 \<Rightarrow> string \<Rightarrow> 'w \<Rightarrow> string \<times> 'w" where
  "hash_password A password w = a2_hash A password w"

definition verify_password :: "'w argon2 \<Rightarrow> string \<Rightarrow> string \<Rightarrow> bool res" where
  "verify_password A stored_hash password =
     (case a2_verify A stored_hash password of
        Inl e \<Rightarrow> if e = OtherError ''VerifyMismatchError'' then Inr False else Inl e
      | Inr ok \<Rightarrow> Inr ok)"

definition password_needs_rehash :: "'w argon2 \<Rightarrow> string \<Rightarrow> bool res" where
  "password_needs_rehash A stored_hash = a2_check_needs_rehash A stored_hash"

section \<open>Row builders\<close>

definition build_backend ::
  "('f, 'w) fernet_ops \<Rightarrow> 'w db_env \<Rightarrow> 'f kek \<Rightarrow> string \<Rightarrow> string \<Rightarrow> pyval \<Rightarrow> 'w \<Rightarrow> backend res \<times> 'w" where
  "build_backend F E kek name backend_type config w =
     (case encrypt_json F kek config w of
        (Inl e, w') \<Rightarrow> (Inl e, w')
      | (Inr token, w') \<Rightarrow>
          (let (created, w1) = de_now E w'; (updated, w2) = de_now E w1
           in (Inr \<lparr>b_id = None, b_name = name, b_type = backend_type, b_config_encrypted = token,
                    b_created_at = created, b_updated_at = updated\<rparr>, w2)))"

definition build_domain ::
  "('f, 'w) fernet_ops \<Rightarrow> 'w db_env \<Rightarrow> 'f kek \<Rightarrow> string \<Rightarrow> int \<Rightarrow> string \<Rightarrow> string option \<Rightarrow> 'w \<Rightarrow>
   domain \<times> 'w" where
  "build_domain F E kek zone backend_id record_name he_dynamic_key w =
     (let (secret, w') =
        (case he_dynamic_key of
           Some key \<Rightarrow>
             if key = [] then (None, w)
             else (let (t, w') = encrypt_text F kek key w in (Some t, w'))
         | None \<Rightarrow> (None, w));
          (created, w'') = de_now E w'
      in (\<lparr>dm_id = None, dm_zone = zone, dm_backend_id = backend_id, dm_record_name = record_name,
           dm_secret_encrypted = secret, dm_created_at = created\<rparr>, w''))"

definition build_tsig_key ::
  "('f, 'w) fernet_ops \<Rightarrow> 'w db_env \<Rightarrow> 'f kek \<Rightarrow> string \<Rightarrow> string \<Rightarrow> string \<Rightarrow> 'w \<Rightarrow> tsig_row \<times> 'w" where
  "build_tsig_key F E kek name algorithm secret_b64 w =
     (let (token, w') = encrypt_text F kek secret_b64 w; (created, w'') = de_now E w'
      in (\<lparr>tr_id = None, tr_name = name, tr_algorithm = algorithm, tr_secret_encrypted = token,
           tr_created_at = created\<rparr>, w''))"

definition build_api_token ::
  "(bytes \<Rightarrow> string) \<Rightarrow> ('w \<Rightarrow> string \<times> 'w) \<Rightarrow> 'w db_env \<Rightarrow> string \<Rightarrow> 'w \<Rightarrow> (api_token \<times> string) \<times> 'w" where
  "build_api_token sha256_hex draw E name w =
     (let (plaintext, w1) = generate_token draw w; (created, w2) = de_now E w1
      in ((\<lparr>at_id = None, at_name = name, at_token_hash = hash_token sha256_hex plaintext,
            at_created_at = created, at_last_used_at = None\<rparr>, plaintext), w2))"

section \<open>Round trips\<close>

lemma decrypt_own:
  assumes "fernet_laws F" and "f \<in> set kek'"
  shows "kek_decrypt F kek' (fst (kek_encrypt F (f # fs) b w)) = Inr b"
  unfolding kek_decrypt_def kek_encrypt_def
  using decrypt_some_key [OF assms(1)] encrypt_primary [OF assms(1)] assms(2) by blast

lemma decrypt_text_roundtrip:
  "fernet_laws F \<Longrightarrow> f \<in> set kek' \<Longrightarrow> decrypt_text F kek' (fst (encrypt_text F (f # fs) t w)) = Inr t"
  by (simp add: decrypt_text_def encrypt_text_def decrypt_own utf8_roundtrip)

lemma decrypt_json_roundtrip:
  assumes "fernet_laws F" and "f \<in> set kek'" and "serializable v" and "dicts_ok v"
  shows "\<exists>t w'. encrypt_json F (f # fs) v w = (Inr t, w') \<and> decrypt_json F kek' t = Inr (sort_keys v)"
  using decrypt_own [OF assms(1,2)] json_loads_print [OF assms(3,4)] assms(3)
  by (auto simp: encrypt_json_def decrypt_json_def json_dumps_def utf8_roundtrip split_beta)

text \<open>
  C37: what the row builders encrypt under a KEK is what a later KEK reads back, as long as its
  key list still contains the key that was primary: the TSIG secret, the dynamic key of a domain
  (no key, or an empty one, is stored as NULL) and the configuration of a backend, up to the order
  of its keys. A configuration with a SecretStr in it cannot be stored: the builder raises.
\<close>

theorem stored_secrets_read_back:
  assumes "fernet_laws F" and "f \<in> set kek'" and "dicts_ok cfg"
  shows "decrypt_text F kek' (tr_secret_encrypted (fst (build_tsig_key F E (f # fs) n alg secret w))) = Inr secret
       \<and> (case dm_secret_encrypted (fst (build_domain F E (f # fs) z bid rn key w)) of
            None \<Rightarrow> key = None \<or> key = Some []
          | Some t \<Rightarrow> (\<exists>k. key = Some k \<and> k \<noteq> [] \<and> decrypt_text F kek' t = Inr k))
       \<and> (serializable cfg \<longrightarrow> (\<exists>row. fst (build_backend F E (f # fs) n ty cfg w) = Inr row
            \<and> b_type row = ty \<and> decrypt_json F kek' (b_config_encrypted row) = Inr (sort_keys cfg)))
       \<and> (\<not> serializable cfg \<longrightarrow> (\<exists>m. build_backend F E (f # fs) n ty cfg w = (Inl (TypeError m), w)))"
proof (intro conjI)
  show "decrypt_text F kek' (tr_secret_encrypted (fst (build_tsig_key F E (f # fs) n alg secret w))) = Inr secret"
    using decrypt_text_roundtrip [OF assms(1,2)] by (simp add: build_tsig_key_def split_beta)
  show "case dm_secret_encrypted (fst (build_domain F E (f # fs) z bid rn key w)) of
            None \<Rightarrow> key = None \<or> key = Some []
          | Some t \<Rightarrow> (\<exists>k. key = Some k \<and> k \<noteq> [] \<and> decrypt_text F kek' t = Inr k)"
    using decrypt_text_roundtrip [OF assms(1,2)]
    by (auto simp: build_domain_def split_beta split: option.splits)
  show "serializable cfg \<longrightarrow> (\<exists>row. fst (build_backend F E (f # fs) n ty cfg w) = Inr row
            \<and> b_type row = ty \<and> decrypt_json F kek' (b_config_encrypted row) = Inr (sort_keys cfg))"
  proof
    assume s: "serializable cfg"
    obtain t w' where "encrypt_json F (f # fs) cfg w = (Inr t, w')" "decrypt_json F kek' t = Inr (sort_keys cfg)"
      using decrypt_json_roundtrip [OF assms(1,2) s assms(3)] by blast
    then show "\<exists>row. fst (build_backend F E (f # fs) n ty cfg w) = Inr row
            \<and> b_type row = ty \<and> decrypt_json F kek' (b_config_encrypted row) = Inr (sort_keys cfg)"
      by (simp add: build_backend_def split_beta)
  qed
  show "\<not> serializable cfg \<longrightarrow> (\<exists>m. build_backend F E (f # fs) n ty cfg w = (Inl (TypeError m), w))"
    by (simp add: build_backend_def encrypt_json_def json_dumps_def)
qed

theorem stored_secrets_read_back_witness:
  "decrypt_text (sample_fernet :: (u8, int) fernet_ops) [9, 7]
     (tr_secret_encrypted (fst (build_tsig_key sample_fernet sample_db_env [7] ''k'' ''hmac-sha256'' ''c2VjcmV0'' 0))) = Inr ''c2VjcmV0''"
proof -
  have m: "7 \<in> set [9, 7 :: u8]" and d: "dicts_ok (PDict [])" by simp_all
  show ?thesis using stored_secrets_read_back [OF sample_fernet_laws m d, of sample_db_env "[]" "''k''"] by blast
qed

end
