(* ===== verification/Cache.thy ===== *)
theory Cache
  imports Assembly Store
begin

text \<open>
  \<^verbatim>\<open>cache.py\<close>: the decrypted configuration read from the database, and the in-memory
  routing cache that the dispatcher and the listener read. A loader is a function of the world that
  returns a snapshot or raises.
\<close>

section \<open>Loading\<close>

text \<open>A list comprehension whose element expression may raise.\<close>

fun map_res :: "('a \<Rightarrow> 'b res) \<Rightarrow> 'a list \<Rightarrow> 'b list res" where
  "map_res f [] = Inr []"
| "map_res f (x # xs) =
     (case f x of
        Inl e \<Rightarrow> Inl e
      | Inr y \<Rightarrow> (case map_res f xs of Inl e \<Rightarrow> Inl e | Inr ys \<Rightarrow> Inr (y # ys)))"

definition tsig_spec_of_row :: "('f, 'w) fernet_ops \<Rightarrow> 'f kek \<Rightarrow> tsig_row \<Rightarrow> tsig_key_spec res" where
  "tsig_spec_of_row F kek row =
     (case decrypt_text F kek (tr_secret_encrypted row) of
        Inl e \<Rightarrow> Inl e
      | Inr secret \<Rightarrow>
          Inr \<lparr>ts_name = tr_name row, ts_algorithm = tr_algorithm row, ts_secret_b64 = secret\<rparr>)"

definition backend_of_row :: "('f, 'w) fernet_ops \<Rightarrow> 'f kek \<Rightarrow> backend \<Rightarrow> backend_config res" where
  "backend_of_row F kek row =
     (case decrypt_json F kek (b_config_encrypted row) of
        Inl e \<Rightarrow> Inl e
      | Inr config \<Rightarrow> Inr \<lparr>bc_name = b_name row, bc_provider = b_type row, bc_config = config\<rparr>)"

definition backend_by_id :: "backend list \<Rightarrow> int \<Rightarrow> backend option" where
  "backend_by_id rows i = map_of (map (\<lambda>b. (b_id b, b)) (rev rows)) (Some i)"

definition zone_of_row ::
  "('f, 'w) fernet_ops \<Rightarrow> 'f kek \<Rightarrow> backend list \<Rightarrow> domain \<Rightarrow> zone_config res" where
  "zone_of_row F kek backends row =
     (case backend_by_id backends (dm_backend_id row) of
        None \<Rightarrow> Inl (KeyError ''backend_id'')
      | Some b \<Rightarrow>
          (case dm_secret_encrypted row of
             None \<Rightarrow>
               Inr \<lparr>zc_zone = dm_zone row, zc_provider = b_type b, zc_record_name = dm_record_name row,
                    zc_he_dynamic_key = None, zc_backend = Some (b_name b)\<rparr>
           | Some token \<Rightarrow>
               (case decrypt_text F kek token of
                  Inl e \<Rightarrow> Inl e
                | Inr key \<Rightarrow>
                    Inr \<lparr>zc_zone = dm_zone row, zc_provider = b_type b, zc_record_name = dm_record_name row,
                         zc_he_dynamic_key = Some key, zc_backend = Some (b_name b)\<rparr>)))"

definition load_config_from_db :: "('f, 'w) fernet_ops \<Rightarrow> 'f kek \<Rightarrow> db \<Rightarrow> bootstrap_config res" where
  "load_config_from_db F kek d =
     (case map_res (tsig_spec_of_row F kek) (db_tsig_keys d) of
        Inl e \<Rightarrow> Inl e
      | Inr keys \<Rightarrow>
          (case map_res (backend_of_row F kek) (db_backends d) of
             Inl e \<Rightarrow> Inl e
           | Inr backends \<Rightarrow>
               (case map_res (zone_of_row F kek (db_backends d)) (db_domains d) of
                  Inl e \<Rightarrow> Inl e
                | Inr zones \<Rightarrow> Inr \<lparr>bo_tsig_keys = keys, bo_zones = zones, bo_backends = backends,
                      bo_listener_host = ''0.0.0.0'', bo_listener_port = 53\<rparr>)))"

type_synonym key_ids = "(string list \<times> int) list"

fun tsig_key_ids_loop :: "'n name_ops \<Rightarrow> key_ids \<Rightarrow> tsig_row list \<Rightarrow> key_ids res" where
  "tsig_key_ids_loop N ids [] = Inr ids"
| "tsig_key_ids_loop N ids (row # rows) =
     (case tr_id row of
        None \<Rightarrow> tsig_key_ids_loop N ids rows
      | Some i \<Rightarrow>
          (case nm_from_text N (tr_name row) of
             None \<Rightarrow> Inl (DNSException (tr_name row))
           | Some n \<Rightarrow>
               tsig_key_ids_loop N (AList.update (nm_labels N (nm_canonicalize N n)) i ids) rows))"

definition load_tsig_key_ids :: "'n name_ops \<Rightarrow> db \<Rightarrow> key_ids res" where
  "load_tsig_key_ids N d = tsig_key_ids_loop N [] (db_tsig_keys d)"

record 'n snapshot =
  sn_runtime :: "'n runtime"
  sn_tsig_key_ids :: key_ids

text \<open>The loader of \<^verbatim>\<open>make_db_loader\<close> on the database it reads.\<close>

definition db_loader ::
  "'n name_ops \<Rightarrow> (string \<Rightarrow> bytes res) \<Rightarrow> validators \<Rightarrow> ('f, 'w) fernet_ops \<Rightarrow> 'f kek \<Rightarrow> db \<Rightarrow>
   'n snapshot res" where
  "db_loader N decode V F kek d =
     (case load_config_from_db F kek d of
        Inl e \<Rightarrow> Inl e
      | Inr config \<Rightarrow>
          (case load_tsig_key_ids N d of
             Inl e \<Rightarrow> Inl e
           | Inr ids \<Rightarrow>
               (case build_data_plane N decode V config of
                  Inl e \<Rightarrow> Inl e
                | Inr rt \<Rightarrow> Inr \<lparr>sn_runtime = rt, sn_tsig_key_ids = ids\<rparr>)))"

section \<open>The cache\<close>

record 'n routing_cache =
  ca_snapshot :: "'n snapshot option"

definition cache_init :: "'n routing_cache" where
  "cache_init = \<lparr>ca_snapshot = None\<rparr>"

definition cache_refresh :: "'n snapshot res \<Rightarrow> 'n routing_cache \<Rightarrow> unit res \<times> 'n routing_cache" where
  "cache_refresh loaded c =
     (case loaded of
        Inl e \<Rightarrow> (Inl e, c)
      | Inr snapshot \<Rightarrow> (Inr (), c\<lparr>ca_snapshot := Some snapshot\<rparr>))"

definition is_populated :: "'n routing_cache \<Rightarrow> bool" where
  "is_populated c \<longleftrightarrow> ca_snapshot c \<noteq> None"

definition cache_match :: "'n name_ops \<Rightarrow> 'n routing_cache \<Rightarrow> 'n \<Rightarrow> ('n, string) route option" where
  "cache_match N c zone =
     (case ca_snapshot c of None \<Rightarrow> None | Some s \<Rightarrow> table_match N (ru_routing (sn_runtime s)) zone)"

definition tsig_key_id_for :: "'n name_ops \<Rightarrow> 'n routing_cache \<Rightarrow> 'n \<Rightarrow> int option" where
  "tsig_key_id_for N c name =
     (case ca_snapshot c of
        None \<Rightarrow> None
      | Some s \<Rightarrow> map_of (sn_tsig_key_ids s) (nm_labels N (nm_canonicalize N name)))"

definition cache_keyring :: "'n routing_cache \<Rightarrow> 'n keyring" where
  "cache_keyring c = (case ca_snapshot c of None \<Rightarrow> [] | Some s \<Rightarrow> ru_keyring (sn_runtime s))"

definition cache_providers :: "'n routing_cache \<Rightarrow> store" where
  "cache_providers c = (case ca_snapshot c of None \<Rightarrow> [] | Some s \<Rightarrow> ru_providers (sn_runtime s))"

section \<open>The routing interface\<close>

text \<open>
  The \<^verbatim>\<open>RoutingSource\<close> protocol of the dispatcher: a lookup returns a configured route
  only. It is all that is needed for a dispatch to reach configured providers only.
\<close>

locale routing_source =
  fixes lookup :: "'n \<Rightarrow> ('n, 'p) route option" and routes :: "('n, 'p) route set"
  assumes lookup_configured: "lookup z = Some r \<Longrightarrow> r \<in> routes"
begin

lemma calls_configured:
  assumes "d_routing D = lookup"
    and "Called p a z rn vs \<in> set (drop (length (event_log s))
           (event_log (snd (dispatch N (spy_ops P) (spy_dispatcher D) msg src s))))"
  shows "\<exists>r \<in> routes. p = rt_provider r \<and> z = nm_to_text N (rt_zone r)
     \<and> (\<exists>rrset. um_update msg = [rrset] \<and> rn = nm_to_text N (rr_name rrset)
          \<and> name_eq N (nm_canonicalize N (rr_name rrset)) (rt_record_name r))"
proof (cases "admit N P D msg")
  case None
  then show ?thesis using assms(2) by (simp add: dispatch_def)
next
  case (Some x)
  obtain route b rrset us where x: "x = (route, b, rrset, us)" by (cases x)
  have e: "p = rt_provider route" "z = nm_to_text N (rt_zone route)" "rn = nm_to_text N (rr_name rrset)"
    using dispatch_log [of N P D msg route b rrset us src s] Some x assms(2) by auto
  have "lookup zz = Some route \<Longrightarrow> route \<in> routes" for zz by (rule lookup_configured)
  moreover have "\<exists>zz. d_routing D zz = Some route" "um_update msg = [rrset]"
      "name_eq N (nm_canonicalize N (rr_name rrset)) (rt_record_name route)"
    using Some x by (auto simp: admit_Some validate_write_surface_Inr)
  ultimately show ?thesis using e assms(1) by blast
qed

end

lemma match_fuel_configured:
  "match_fuel n N t z = Some (Some r) \<Longrightarrow> r \<in> snd ` set t"
  by (induction n N t z rule: match_fuel.induct)
     (auto split: option.splits dest!: map_of_SomeD intro: rev_image_eqI)

lemma table_match_configured: "table_match N t z = Some r \<Longrightarrow> r \<in> snd ` set t"
  by (auto simp: table_match_def split: option.splits dest: match_fuel_configured simp del: match_fuel.simps)

definition cached_routes :: "'n routing_cache \<Rightarrow> ('n, string) route set" where
  "cached_routes c = (case ca_snapshot c of None \<Rightarrow> {} | Some s \<Rightarrow> snd ` set (ru_routing (sn_runtime s)))"

interpretation rt: routing_source "table_match N t" "snd ` set t" for N t
  by unfold_locales (rule table_match_configured)

interpretation rc: routing_source "cache_match N c" "cached_routes c" for N c
  by unfold_locales (auto simp: cache_match_def cached_routes_def split: option.splits dest: table_match_configured)

text \<open>
  A dispatcher that serves from the cache calls only providers of routes in the current
  snapshot, with the zone of that route, for an owner name that is the record the route permits;
  before the first successful load it calls none.
\<close>

theorem cached_dispatch_calls_configured:
  assumes "d_routing D = cache_match N c"
    and "Called p a z rn vs \<in> set (drop (length (event_log s))
           (event_log (snd (dispatch N (spy_ops P) (spy_dispatcher D) msg src s))))"
  shows "is_populated c \<and> (\<exists>r \<in> cached_routes c. p = rt_provider r \<and> z = nm_to_text N (rt_zone r)
     \<and> (\<exists>rrset. um_update msg = [rrset] \<and> rn = nm_to_text N (rr_name rrset)
          \<and> name_eq N (nm_canonicalize N (rr_name rrset)) (rt_record_name r)))"
  using rc.calls_configured [OF assms]
  by (auto simp: is_populated_def cached_routes_def split: option.splits)

section \<open>Refreshing\<close>

definition cache_after :: "'n snapshot res list \<Rightarrow> 'n routing_cache" where
  "cache_after outcomes = foldl (\<lambda>c r. snd (cache_refresh r c)) cache_init outcomes"

definition successes :: "'n snapshot res list \<Rightarrow> 'n snapshot list" where
  "successes outcomes = List.map_filter (\<lambda>r. case r of Inr s \<Rightarrow> Some s | Inl _ \<Rightarrow> None) outcomes"

lemma successes_snoc:
  "successes (rs @ [r]) = successes rs @ (case r of Inr s \<Rightarrow> [s] | Inl _ \<Rightarrow> [])"
  by (simp add: successes_def List.map_filter_def split: sum.splits)

lemma cache_after_snapshot:
  "ca_snapshot (cache_after rs) = (if successes rs = [] then None else Some (last (successes rs)))"
proof (induction rs rule: rev_induct)
  case Nil
  then show ?case by (simp add: cache_after_def successes_def cache_init_def List.map_filter_def)
next
  case (snoc r rs)
  have "cache_after (rs @ [r]) = snd (cache_refresh r (cache_after rs))" by (simp add: cache_after_def)
  with snoc show ?case by (simp add: cache_refresh_def successes_snoc split: sum.splits)
qed

definition sample_cache :: "string list routing_cache" where
  "sample_cache = cache_after [Inr \<lparr>sn_runtime = sample_runtime, sn_tsig_key_ids = []\<rparr>, Inl InvalidToken]"

definition sample_cache_ops :: "(string, unit) provider_ops" where
  "sample_cache_ops =
     \<lparr>pv_type = (\<lambda>p. p), pv_supports_multivalue = (\<lambda>p. False), pv_supports_delete = (\<lambda>p. False),
      pv_present = (\<lambda>p z r v w. (Inr (), w)), pv_cleanup = (\<lambda>p z r v w. (Inr (), w)),
      pv_validate = (\<lambda>p w. (Inr (), w))\<rparr>"

definition sample_cache_dispatcher :: "(string list, string, unit) dispatcher" where
  "sample_cache_dispatcher =
     \<lparr>d_routing = cache_match sample_names sample_cache,
      d_clock = (\<lambda>w. (0, w)), d_perf_counter = (\<lambda>w. (0, w)), d_audit = None, d_tsig_resolver = None\<rparr>"

theorem cached_dispatch_calls_configured_witness:
  "\<exists>r \<in> cached_routes sample_cache. rt_provider r = ''he''"
proof -
  let ?s = "sample_state ((), []) :: (unit \<times> string devent list) dstate"
  have d: "d_routing sample_cache_dispatcher = cache_match sample_names sample_cache"
    by (simp add: sample_cache_dispatcher_def)
  have e: "drop (length (event_log ?s)) (event_log (snd (dispatch sample_names (spy_ops sample_cache_ops)
      (spy_dispatcher sample_cache_dispatcher) (sample_update sample_owner None) ''ip'' ?s)))
    = [Called ''he'' PRESENT ''a.org.'' ''_ACME-challenge.a.org.'' [''ABC'']]" by code_simp
  have "Called ''he'' PRESENT ''a.org.'' ''_ACME-challenge.a.org.'' [''ABC''] \<in>
      set (drop (length (event_log ?s)) (event_log (snd (dispatch sample_names (spy_ops sample_cache_ops)
      (spy_dispatcher sample_cache_dispatcher) (sample_update sample_owner None) ''ip'' ?s))))"
    unfolding e by simp
  from cached_dispatch_calls_configured [OF d this] show ?thesis by auto
qed

text \<open>
  C38: the cache serves the last good snapshot. After any sequence of loads, some of which may
  raise, every read (routes, keyring, providers, key ids) is answered from the last load that
  succeeded, and from an empty configuration before the first one; a load that raises is reported
  to the caller and changes nothing.
\<close>

theorem cache_serves_last_good:
  "(case successes rs of
      [] \<Rightarrow> \<not> is_populated (cache_after rs) \<and> cache_match N (cache_after rs) z = None
            \<and> cache_keyring (cache_after rs) = [] \<and> cache_providers (cache_after rs) = []
            \<and> tsig_key_id_for N (cache_after rs) z = None
    | ss \<Rightarrow> (let s = last ss
            in cache_match N (cache_after rs) z = table_match N (ru_routing (sn_runtime s)) z
               \<and> cache_keyring (cache_after rs) = ru_keyring (sn_runtime s)
               \<and> cache_providers (cache_after rs) = ru_providers (sn_runtime s)
               \<and> tsig_key_id_for N (cache_after rs) z
                   = map_of (sn_tsig_key_ids s) (nm_labels N (nm_canonicalize N z))))
   \<and> cache_refresh (Inl e) c = (Inl e, c)"
  using cache_after_snapshot [of rs]
  by (auto simp: is_populated_def cache_match_def cache_keyring_def cache_providers_def tsig_key_id_for_def
      cache_refresh_def Let_def split: list.splits)

end
