(* ===== verification/Rotation.thy ===== *)
theory Rotation
  imports Store
begin

text \<open>
  \<^verbatim>\<open>rotation.py\<close>: re-encryption of every stored secret under the primary key. The loops
  change the session's rows; the database changes only if the final commit succeeds.
\<close>

record rotation_counts =
  rn_backends :: nat
  rn_domains :: nat
  rn_tsig_keys :: nat

definition rotation_total :: "rotation_counts \<Rightarrow> nat" where
  "rotation_total c = rn_backends c + rn_domains c + rn_tsig_keys c"

fun rotate_backends ::
  "('f, 'w) fernet_ops \<Rightarrow> 'f kek \<Rightarrow> backend list \<Rightarrow> 'w \<Rightarrow> backend list res \<times> 'w" where
  "rotate_backends F kek [] w = (Inr [], w)"
| "rotate_backends F kek (b # bs) w =
     (case kek_rotate F kek (b_config_encrypted b) w of
        (Inl e, w1) \<Rightarrow> (Inl e, w1)
      | (Inr t, w1) \<Rightarrow>
          (case rotate_backends F kek bs w1 of
             (Inl e, w2) \<Rightarrow> (Inl e, w2)
           | (Inr bs', w2) \<Rightarrow> (Inr (b\<lparr>b_config_encrypted := t\<rparr> # bs'), w2)))"

fun rotate_domains ::
  "('f, 'w) fernet_ops \<Rightarrow> 'f kek \<Rightarrow> nat \<Rightarrow> domain list \<Rightarrow> 'w \<Rightarrow> (nat \<times> domain list) res \<times> 'w" where
  "rotate_domains F kek n [] w = (Inr (n, []), w)"
| "rotate_domains F kek n (d # ds) w =
     (case dm_secret_encrypted d of
        None \<Rightarrow>
          (case rotate_domains F kek n ds w of
             (Inl e, w2) \<Rightarrow> (Inl e, w2)
           | (Inr (m, ds'), w2) \<Rightarrow> (Inr (m, d # ds'), w2))
      | Some token \<Rightarrow>
          (case kek_rotate F kek token w of
             (Inl e, w1) \<Rightarrow> (Inl e, w1)
           | (Inr t, w1) \<Rightarrow>
               (case rotate_domains F kek (Suc n) ds w1 of
                  (Inl e, w2) \<Rightarrow> (Inl e, w2)
                | (Inr (m, ds'), w2) \<Rightarrow> (Inr (m, d\<lparr>dm_secret_encrypted := Some t\<rparr> # ds'), w2))))"

fun rotate_tsig_keys ::
  "('f, 'w) fernet_ops \<Rightarrow> 'f kek \<Rightarrow> tsig_row list \<Rightarrow> 'w \<Rightarrow> tsig_row list res \<times> 'w" where
  "rotate_tsig_keys F kek [] w = (Inr [], w)"
| "rotate_tsig_keys F kek (k # ks) w =
     (case kek_rotate F kek (tr_secret_encrypted k) w of
        (Inl e, w1) \<Rightarrow> (Inl e, w1)
      | (Inr t, w1) \<Rightarrow>
          (case rotate_tsig_keys F kek ks w1 of
             (Inl e, w2) \<Rightarrow> (Inl e, w2)
           | (Inr ks', w2) \<Rightarrow> (Inr (k\<lparr>tr_secret_encrypted := t\<rparr> # ks'), w2)))"

definition rotate_stored_secrets ::
  "('f, 'w) fernet_ops \<Rightarrow> 'w db_env \<Rightarrow> 'f kek \<Rightarrow> db \<Rightarrow> 'w \<Rightarrow> rotation_counts res \<times> db \<times> 'w" where
  "rotate_stored_secrets F E kek d w =
     (case rotate_backends F kek (db_backends d) w of
        (Inl e, w1) \<Rightarrow> (Inl e, d, w1)
      | (Inr bs, w1) \<Rightarrow>
          (case rotate_domains F kek 0 (db_domains d) w1 of
             (Inl e, w2) \<Rightarrow> (Inl e, d, w2)
           | (Inr (rotated_domains, ds), w2) \<Rightarrow>
               (case rotate_tsig_keys F kek (db_tsig_keys d) w2 of
                  (Inl e, w3) \<Rightarrow> (Inl e, d, w3)
                | (Inr ks, w3) \<Rightarrow>
                    (let (bs', w4) = restamp_backends E (db_backends d) bs w3
                     in case transact E d (d\<lparr>db_backends := bs', db_domains := ds, db_tsig_keys := ks\<rparr>) w4 of
                          (Inl e, d', w5) \<Rightarrow> (Inl e, d', w5)
                        | (Inr _, d', w5) \<Rightarrow>
                            (Inr \<lparr>rn_backends = length bs, rn_domains = rotated_domains,
                                  rn_tsig_keys = length ks\<rparr>, d', w5)))))"

section \<open>Rotation keeps every secret\<close>

text \<open>A token and its rotation: the new primary key alone reads what the key list read before.\<close>

definition resealed :: "('f, 'w) fernet_ops \<Rightarrow> 'f \<Rightarrow> 'f list \<Rightarrow> bytes \<Rightarrow> bytes \<Rightarrow> bool" where
  "resealed F f fs t t' \<longleftrightarrow> (\<exists>b. fo_decrypt F (f # fs) t = Inr b \<and> fo_decrypt F [f] t' = Inr b)"

lemma kek_rotate_resealed:
  "fernet_laws F \<Longrightarrow> kek_rotate F (f # fs) t w = (Inr t', w') \<Longrightarrow> resealed F f fs t t'"
  using rotate_ok [of F f fs t w t'] by (auto simp: resealed_def kek_rotate_def)

lemma rotate_backends_ok:
  assumes "fernet_laws F" and "rotate_backends F (f # fs) bs w = (Inr bs', w')"
  shows "list_all2 (\<lambda>b b'. \<exists>t. b' = b\<lparr>b_config_encrypted := t\<rparr> \<and> resealed F f fs (b_config_encrypted b) t) bs bs'"
  using assms(2)
  by (induction bs arbitrary: bs' w w')
     (auto split: prod.splits sum.splits dest: kek_rotate_resealed [OF assms(1)])

lemma rotate_tsig_keys_ok:
  assumes "fernet_laws F" and "rotate_tsig_keys F (f # fs) ks w = (Inr ks', w')"
  shows "list_all2 (\<lambda>k k'. \<exists>t. k' = k\<lparr>tr_secret_encrypted := t\<rparr> \<and> resealed F f fs (tr_secret_encrypted k) t) ks ks'"
  using assms(2)
  by (induction ks arbitrary: ks' w w')
     (auto split: prod.splits sum.splits dest: kek_rotate_resealed [OF assms(1)])

definition domain_resealed :: "('f, 'w) fernet_ops \<Rightarrow> 'f \<Rightarrow> 'f list \<Rightarrow> domain \<Rightarrow> domain \<Rightarrow> bool" where
  "domain_resealed F f fs d d' \<longleftrightarrow>
     (case dm_secret_encrypted d of
        None \<Rightarrow> d' = d
      | Some t \<Rightarrow> (\<exists>t'. d' = d\<lparr>dm_secret_encrypted := Some t'\<rparr> \<and> resealed F f fs t t'))"

lemma rotate_domains_ok:
  assumes "fernet_laws F" and "rotate_domains F (f # fs) n ds w = (Inr (m, ds'), w')"
  shows "list_all2 (domain_resealed F f fs) ds ds'
       \<and> m = n + length (filter (\<lambda>d. dm_secret_encrypted d \<noteq> None) ds)"
  using assms(2)
proof (induction ds arbitrary: n m ds' w w')
  case (Cons d ds)
  show ?case
  proof (cases "dm_secret_encrypted d")
    case None
    then obtain es where e: "rotate_domains F (f # fs) n ds w = (Inr (m, es), w')" "ds' = d # es"
      using Cons.prems by (auto split: prod.splits sum.splits)
    show ?thesis using Cons.IH [OF e(1)] e(2) None by (simp add: domain_resealed_def)
  next
    case (Some t)
    then obtain t' w1 es where e: "kek_rotate F (f # fs) t w = (Inr t', w1)"
        "rotate_domains F (f # fs) (Suc n) ds w1 = (Inr (m, es), w')"
        "ds' = d\<lparr>dm_secret_encrypted := Some t'\<rparr> # es"
      using Cons.prems by (auto split: prod.splits sum.splits)
    have "domain_resealed F f fs d (d\<lparr>dm_secret_encrypted := Some t'\<rparr>)"
      using Some kek_rotate_resealed [OF assms(1) e(1)] by (auto simp: domain_resealed_def)
    then show ?thesis using Cons.IH [OF e(2)] e(3) Some by simp
  qed
qed simp

lemma rotate_stored_secrets_Inl:
  assumes "rotate_stored_secrets F E kek d w = (Inl e, d', w')"
  shows "d' = d"
proof -
  obtain r1 w1 where b: "rotate_backends F kek (db_backends d) w = (r1, w1)" by fastforce
  obtain r2 w2 where dm: "rotate_domains F kek 0 (db_domains d) w1 = (r2, w2)" by fastforce
  obtain r3 w3 where k: "rotate_tsig_keys F kek (db_tsig_keys d) w2 = (r3, w3)" by fastforce
  show ?thesis
    using assms by (cases r1; cases r2; cases r3)
      (auto simp: rotate_stored_secrets_def b dm k transact_def Let_def split: sum.splits prod.splits)
qed

text \<open>What a successful rotation did to each row.\<close>

definition backend_resealed :: "('f, 'w) fernet_ops \<Rightarrow> 'f \<Rightarrow> 'f list \<Rightarrow> backend \<Rightarrow> backend \<Rightarrow> bool" where
  "backend_resealed F f fs b b' \<longleftrightarrow>
     (\<exists>t u. b' = b\<lparr>b_config_encrypted := t, b_updated_at := u\<rparr> \<and> resealed F f fs (b_config_encrypted b) t)"

definition tsig_resealed :: "('f, 'w) fernet_ops \<Rightarrow> 'f \<Rightarrow> 'f list \<Rightarrow> tsig_row \<Rightarrow> tsig_row \<Rightarrow> bool" where
  "tsig_resealed F f fs k k' \<longleftrightarrow>
     (\<exists>t. k' = k\<lparr>tr_secret_encrypted := t\<rparr> \<and> resealed F f fs (tr_secret_encrypted k) t)"

lemma restamped_resealed:
  assumes "list_all2 (\<lambda>b b'. \<exists>t. b' = b\<lparr>b_config_encrypted := t\<rparr> \<and> resealed F f fs (b_config_encrypted b) t) olds news"
  shows "list_all2 (backend_resealed F f fs) olds (fst (restamp_backends E olds news w))"
proof -
  have "list_all2 (\<lambda>b b'. \<exists>u. b' = b\<lparr>b_updated_at := u\<rparr>) news (fst (restamp_backends E olds news w))"
    using assms by (intro restamp_backends_frame) (simp add: list_all2_lengthD)
  with assms show ?thesis
    by (rule list_all2_trans [rotated]) (fastforce simp: backend_resealed_def)
qed

lemma rotate_stored_secrets_Inr:
  assumes "fernet_laws F" and "rotate_stored_secrets F E (f # fs) d w = (Inr counts, d', w')"
  obtains bs ds ks where
    "d' = d\<lparr>db_backends := bs, db_domains := ds, db_tsig_keys := ks\<rparr>"
    "list_all2 (backend_resealed F f fs) (db_backends d) bs"
    "list_all2 (domain_resealed F f fs) (db_domains d) ds"
    "list_all2 (tsig_resealed F f fs) (db_tsig_keys d) ks"
    "counts = \<lparr>rn_backends = length (db_backends d),
       rn_domains = length (filter (\<lambda>dm. dm_secret_encrypted dm \<noteq> None) (db_domains d)),
       rn_tsig_keys = length (db_tsig_keys d)\<rparr>"
proof -
  let ?kek = "f # fs"
  obtain bs w1 where b: "rotate_backends F ?kek (db_backends d) w = (Inr bs, w1)"
    using assms(2) by (cases "rotate_backends F ?kek (db_backends d) w"; cases "fst (rotate_backends F ?kek (db_backends d) w)")
      (auto simp: rotate_stored_secrets_def)
  obtain n ds w2 where dm: "rotate_domains F ?kek 0 (db_domains d) w1 = (Inr (n, ds), w2)"
    using assms(2) b by (cases "rotate_domains F ?kek 0 (db_domains d) w1"; cases "fst (rotate_domains F ?kek 0 (db_domains d) w1)")
      (auto simp: rotate_stored_secrets_def)
  obtain ks w3 where k: "rotate_tsig_keys F ?kek (db_tsig_keys d) w2 = (Inr ks, w3)"
    using assms(2) b dm by (cases "rotate_tsig_keys F ?kek (db_tsig_keys d) w2"; cases "fst (rotate_tsig_keys F ?kek (db_tsig_keys d) w2)")
      (auto simp: rotate_stored_secrets_def)
  note ok = rotate_backends_ok [OF assms(1) b] rotate_domains_ok [OF assms(1) dm] rotate_tsig_keys_ok [OF assms(1) k]
  let ?bs = "fst (restamp_backends E (db_backends d) bs w3)"
  have e: "d' = d\<lparr>db_backends := ?bs, db_domains := ds, db_tsig_keys := ks\<rparr>"
      "counts = \<lparr>rn_backends = length bs, rn_domains = n, rn_tsig_keys = length ks\<rparr>"
    using assms(2) b dm k
    by (auto simp: rotate_stored_secrets_def transact_def split_beta split: sum.splits)
  have c: "length bs = length (db_backends d)" "length ks = length (db_tsig_keys d)"
    using ok(1,3) by (simp_all add: list_all2_lengthD)
  have t: "list_all2 (tsig_resealed F f fs) (db_tsig_keys d) ks"
    using ok(3) by (rule list_all2_mono) (auto simp: tsig_resealed_def)
  show ?thesis
    by (rule that [OF e(1) restamped_resealed [OF ok(1)] _ t]) (use ok(2) e(2) c in auto)
qed

text \<open>
  C35: rotating is safe and complete. When it succeeds, every stored secret decrypts under the
  new primary key alone to the plaintext it had under the whole list, so the retired keys can be
  dropped; NULL secrets stay NULL, no other column but the
  restamped \<open>updated_at\<close> and no other table changes, and the counts are
  the numbers of secrets. When it raises, the database is unchanged.
\<close>

theorem rotation_preserves_secrets:
  assumes "fernet_laws F" and "rotate_stored_secrets F E (f # fs) d w = (r, d', w')"
  shows "case r of
      Inl e \<Rightarrow> d' = d
    | Inr counts \<Rightarrow>
        (\<exists>bs ds ks. d' = d\<lparr>db_backends := bs, db_domains := ds, db_tsig_keys := ks\<rparr>
           \<and> list_all2 (backend_resealed F f fs) (db_backends d) bs
           \<and> list_all2 (domain_resealed F f fs) (db_domains d) ds
           \<and> list_all2 (tsig_resealed F f fs) (db_tsig_keys d) ks)
        \<and> rotation_total counts = length (db_backends d) + length (db_tsig_keys d)
            + length (filter (\<lambda>dm. dm_secret_encrypted dm \<noteq> None) (db_domains d))"
proof (cases r)
  case (Inl e)
  then show ?thesis using assms(2) rotate_stored_secrets_Inl by auto
next
  case (Inr counts)
  show ?thesis
    by (rule rotate_stored_secrets_Inr [OF assms(1) assms(2) [unfolded Inr]])
       (auto simp: Inr rotation_total_def)
qed

definition sample_db :: db where
  "sample_db =
     \<lparr>db_backends = [\<lparr>b_id = Some 1, b_name = ''he'', b_type = ''hurricane'', b_config_encrypted = [7, 123, 125],
        b_created_at = 0, b_updated_at = 0\<rparr>],
      db_domains = [\<lparr>dm_id = Some 1, dm_zone = ''a.org'', dm_backend_id = 1,
        dm_record_name = ''_acme-challenge.a.org'', dm_secret_encrypted = Some [7, 107],
        dm_created_at = 0\<rparr>],
      db_tsig_keys = [\<lparr>tr_id = Some 1, tr_name = ''k'', tr_algorithm = ''hmac-sha256'', tr_secret_encrypted = [9, 65],
        tr_created_at = 0\<rparr>],
      db_api_tokens = [], db_events = [], db_admin = None\<rparr>"

lemma sample_rotation:
  "\<exists>counts d' w'. rotate_stored_secrets sample_fernet sample_db_env [9, 7] sample_db 0 = (Inr counts, d', w')"
  by (simp add: rotate_stored_secrets_def transact_def sample_db_def sample_fernet_def kek_rotate_def
      restamp_backend_def sample_db_env_def schema_ok_def Let_def)

theorem rotation_preserves_secrets_witness:
  "\<exists>counts d' w'. rotate_stored_secrets sample_fernet sample_db_env [9, 7] sample_db 0 = (Inr counts, d', w')
     \<and> rotation_total counts = 3"
proof -
  obtain counts d' w' where
    e: "rotate_stored_secrets sample_fernet sample_db_env [9, 7] sample_db 0 = (Inr counts, d', w')"
    using sample_rotation by blast
  then show ?thesis
    using rotation_preserves_secrets [OF sample_fernet_laws e] by (auto simp: sample_db_def)
qed

end
