(* ===== verification/Serving.thy ===== *)
theory Serving
  imports Cache Rotation
begin

text \<open>
  Properties across the stored secrets, the key-encryption key and the served configuration.
\<close>

section \<open>Rotation and the served configuration\<close>

lemma map_res_cong2:
  "list_all2 (\<lambda>x y. f x = g y) xs ys \<Longrightarrow> map_res f xs = map_res g ys"
  by (induction rule: list_all2_induct) (simp_all split: sum.splits)

lemma resealed_decrypt: "resealed F f fs t t' \<Longrightarrow> kek_decrypt F (f # fs) t = kek_decrypt F [f] t'"
  by (auto simp: resealed_def kek_decrypt_def)

lemma resealed_text: "resealed F f fs t t' \<Longrightarrow> decrypt_text F (f # fs) t = decrypt_text F [f] t'"
  by (simp add: decrypt_text_def resealed_decrypt)

lemma resealed_json: "resealed F f fs t t' \<Longrightarrow> decrypt_json F (f # fs) t = decrypt_json F [f] t'"
  by (simp add: decrypt_json_def resealed_decrypt)

definition same_backend :: "backend \<Rightarrow> backend \<Rightarrow> bool" where
  "same_backend b b' \<longleftrightarrow> b_id b = b_id b' \<and> b_name b = b_name b' \<and> b_type b = b_type b'"

lemma backend_by_id_cong:
  assumes "list_all2 same_backend bs bs'"
  shows "rel_option same_backend (backend_by_id bs i) (backend_by_id bs' i)"
proof -
  have "list_all2 same_backend xs ys \<Longrightarrow>
      rel_option same_backend (map_of (map (\<lambda>b. (b_id b, b)) xs) k) (map_of (map (\<lambda>b. (b_id b, b)) ys) k)" for xs ys k
    by (induction rule: list_all2_induct) (auto simp: same_backend_def)
  from this [of "rev bs" "rev bs'"] show ?thesis using assms by (simp add: backend_by_id_def list_all2_rev)
qed

lemma zone_of_row_resealed:
  assumes "list_all2 same_backend bs bs'" and "domain_resealed F f fs d d'"
  shows "zone_of_row F (f # fs) bs d = zone_of_row F [f] bs' d'"
proof -
  have e: "dm_backend_id d' = dm_backend_id d" "dm_zone d' = dm_zone d" "dm_record_name d' = dm_record_name d"
    using assms(2) by (auto simp: domain_resealed_def split: option.splits)
  have s: "dm_secret_encrypted d = None \<and> dm_secret_encrypted d' = None
      \<or> (\<exists>t t'. dm_secret_encrypted d = Some t \<and> dm_secret_encrypted d' = Some t'
           \<and> decrypt_text F (f # fs) t = decrypt_text F [f] t')"
    using assms(2) resealed_text by (fastforce simp: domain_resealed_def split: option.splits)
  have "rel_option same_backend (backend_by_id bs (dm_backend_id d)) (backend_by_id bs' (dm_backend_id d'))"
    using backend_by_id_cong [OF assms(1)] e(1) by simp
  then show ?thesis
    using s by (cases rule: option.rel_cases) (auto simp: zone_of_row_def e same_backend_def split: sum.splits)
qed

lemma tsig_key_ids_loop_cong:
  "list_all2 (\<lambda>k k'. tr_id k = tr_id k' \<and> tr_name k = tr_name k') ks ks' \<Longrightarrow>
     tsig_key_ids_loop N ids ks = tsig_key_ids_loop N ids ks'"
  by (induction arbitrary: ids rule: list_all2_induct) (auto split: option.splits)

text \<open>
  C36: rotating the KEK and then dropping the retired keys does not change what is served: after
  a successful rotation, loading the database with the new primary key alone gives the same
  snapshot (keyring, routes, providers with their keys, key ids), or the same error, as loading the
  old database with the whole key list.
\<close>

theorem rotation_keeps_serving:
  assumes "fernet_laws F" and "rotate_stored_secrets F E (f # fs) d w = (Inr counts, d', w')"
  shows "db_loader N decode V F [f] d' = db_loader N decode V F (f # fs) d"
proof -
  obtain bs ds ks where e: "d' = d\<lparr>db_backends := bs, db_domains := ds, db_tsig_keys := ks\<rparr>"
    and bo: "list_all2 (backend_resealed F f fs) (db_backends d) bs"
    and dm: "list_all2 (domain_resealed F f fs) (db_domains d) ds"
    and ko: "list_all2 (tsig_resealed F f fs) (db_tsig_keys d) ks"
    by (rule rotate_stored_secrets_Inr [OF assms])
  have sb: "list_all2 same_backend (db_backends d) bs"
    using bo by (rule list_all2_mono) (auto simp: same_backend_def backend_resealed_def)
  have "map_res (tsig_spec_of_row F (f # fs)) (db_tsig_keys d) = map_res (tsig_spec_of_row F [f]) ks"
    using ko by (intro map_res_cong2, elim list_all2_mono)
      (auto simp: tsig_resealed_def tsig_spec_of_row_def resealed_text split: sum.splits)
  moreover have "map_res (backend_of_row F (f # fs)) (db_backends d) = map_res (backend_of_row F [f]) bs"
    using bo by (intro map_res_cong2, elim list_all2_mono)
      (auto simp: backend_resealed_def backend_of_row_def resealed_json split: sum.splits pyval.splits)
  moreover have "map_res (zone_of_row F (f # fs) (db_backends d)) (db_domains d) = map_res (zone_of_row F [f] bs) ds"
    using dm by (intro map_res_cong2) (auto elim!: list_all2_mono simp: zone_of_row_resealed [OF sb])
  moreover have "load_tsig_key_ids N d' = load_tsig_key_ids N d"
    unfolding load_tsig_key_ids_def e
    by (simp, rule tsig_key_ids_loop_cong [symmetric]) (use ko in \<open>auto elim!: list_all2_mono simp: tsig_resealed_def\<close>)
  moreover have "db_backends d' = bs" "db_domains d' = ds" "db_tsig_keys d' = ks" by (simp_all add: e)
  ultimately show ?thesis unfolding db_loader_def load_config_from_db_def by (simp only:)
qed

theorem rotation_keeps_serving_witness:
  "db_loader sample_names (\<lambda>_. Inr []) sample_validators (sample_fernet :: (u8, int) fernet_ops) [9]
     (fst (snd (rotate_stored_secrets sample_fernet sample_db_env [9, 7] sample_db 0)))
   = db_loader sample_names (\<lambda>_. Inr []) sample_validators (sample_fernet :: (u8, int) fernet_ops) [9, 7] sample_db"
proof -
  obtain counts d' w' where
    e: "rotate_stored_secrets sample_fernet sample_db_env [9, 7] sample_db 0 = (Inr counts, d', w')"
    using sample_rotation by blast
  show ?thesis using rotation_keeps_serving [OF sample_fernet_laws e] e by simp
qed

end
