(* ===== verification/SlidingWindow.thy ===== *)
theory SlidingWindow
  imports Prelude
begin

text \<open>
  The sliding window of time stamps that the restart limiter and the login limiter share: a deque
  to whose end the current time is appended, and from whose front the entries that are too old are
  dropped.
\<close>

definition prune :: "real \<Rightarrow> real \<Rightarrow> real list \<Rightarrow> real list" where
  "prune window now events = dropWhile (\<lambda>e. e \<le> now - window) events"

lemma dropWhile_sorted_filter: "sorted (xs :: real list) \<Longrightarrow> dropWhile (\<lambda>e. e \<le> c) xs = filter (\<lambda>e. c < e) xs"
proof (induction xs)
  case (Cons x xs)
  show ?case
  proof (cases "x \<le> c")
    case True
    then show ?thesis using Cons by simp
  next
    case False
    then have "\<forall>y \<in> set xs. c < y" using Cons.prems by auto
    with False show ?thesis by (auto simp: filter_id_conv)
  qed
qed simp

lemma prune_filter: "sorted events \<Longrightarrow> prune window now events = filter (\<lambda>e. now - window < e) events"
  by (simp add: prune_def dropWhile_sorted_filter)

lemma sorted_prune: "sorted events \<Longrightarrow> sorted (prune window now events)"
  by (simp add: prune_def sorted_dropWhile)

lemma prune_append_now:
  "0 < window \<Longrightarrow> prune window now (events @ [now]) = prune window now events @ [now]"
  by (simp add: prune_def dropWhile_append)

text \<open>A window state: its entries are in order and none is later than the given time.\<close>

definition window_ok :: "real \<Rightarrow> real list \<Rightarrow> bool" where
  "window_ok now events \<longleftrightarrow> sorted events \<and> (\<forall>e \<in> set events. e \<le> now)"

lemma window_ok_mono: "window_ok t events \<Longrightarrow> t \<le> now \<Longrightarrow> window_ok now events"
  by (auto simp: window_ok_def)

lemma window_ok_prune: "window_ok t events \<Longrightarrow> window_ok t (prune window now events)"
  using set_dropWhileD by (fastforce simp: window_ok_def sorted_prune prune_def sorted_dropWhile)

lemma window_ok_snoc: "window_ok t events \<Longrightarrow> t \<le> now \<Longrightarrow> window_ok now (events @ [now])"
  by (auto simp: window_ok_def sorted_append)

text \<open>
  A deque that holds of a history \<open>H\<close> at least the entries of the window that ends at \<open>t\<close>: pruning it
  at a later time leaves exactly the entries of the window that ends then.
\<close>

definition covers :: "real \<Rightarrow> real \<Rightarrow> real list \<Rightarrow> real list \<Rightarrow> bool" where
  "covers window t events H \<longleftrightarrow> window_ok t H \<and> (\<exists>c \<le> t - window. events = filter (\<lambda>x. c < x) H)"

abbreviation recent :: "real \<Rightarrow> real \<Rightarrow> real list \<Rightarrow> real list" where
  "recent window now H \<equiv> filter (\<lambda>x. now - window < x) H"

lemma covers_Nil [simp]: "covers window t [] []"
  by (auto simp: covers_def window_ok_def)

lemma covers_mono: "covers window t events H \<Longrightarrow> t \<le> now \<Longrightarrow> covers window now events H"
  using window_ok_mono [of t H now]
  by (simp add: covers_def) (metis diff_right_mono order_trans)

lemma covers_prune:
  assumes "covers window t events H" and "t \<le> now"
  shows "prune window now events = recent window now H"
proof -
  obtain c where c: "c \<le> t - window" "events = filter (\<lambda>x. c < x) H" and H: "sorted H"
    using assms(1) by (auto simp: covers_def window_ok_def)
  have "sorted events" using c(2) H by (simp add: sorted_wrt_filter)
  then have "prune window now events = filter (\<lambda>x. c < x \<and> now - window < x) H"
    using c(2) by (simp add: prune_filter)
  also have "\<dots> = recent window now H" using c(1) assms(2) by (intro filter_cong) auto
  finally show ?thesis .
qed

lemma covers_recent:
  assumes "covers window t events H" and "t \<le> now"
  shows "covers window now (recent window now H) H"
  using assms by (auto simp: covers_def intro: window_ok_mono)

lemma covers_snoc:
  assumes "covers window t events H" and "t \<le> now" and "0 < window"
  shows "prune window now (events @ [now]) = recent window now (H @ [now])"
    and "covers window now (recent window now (H @ [now])) (H @ [now])"
proof -
  show "prune window now (events @ [now]) = recent window now (H @ [now])"
    using assms by (simp add: prune_append_now covers_prune)
  show "covers window now (recent window now (H @ [now])) (H @ [now])"
    using assms window_ok_snoc by (auto simp: covers_def)
qed

lemma covers_push:
  "covers window t events H \<Longrightarrow> t \<le> now \<Longrightarrow> 0 < window \<Longrightarrow>
   covers window now (prune window now (events @ [now])) (H @ [now])"
  using covers_snoc [of window t events H now] by simp

section \<open>The interface\<close>

text \<open>
  A limiter whose step at a time prunes the window and may append that time. What its clients need:
  under a clock that does not go back, the window stays in order, and it holds exactly the entries
  of the last \<open>width\<close> seconds.
\<close>

locale event_window =
  fixes events :: "'s \<Rightarrow> real list" and width :: "'s \<Rightarrow> real" and step :: "real \<Rightarrow> 's \<Rightarrow> 's"
  assumes step_width: "width (step now s) = width s"
    and step_events: "0 < width s \<Longrightarrow>
          events (step now s) = prune (width s) now (events s)
          \<or> events (step now s) = prune (width s) now (events s) @ [now]"
begin

lemma step_ok:
  "0 < width s \<Longrightarrow> window_ok t (events s) \<Longrightarrow> t \<le> now \<Longrightarrow> window_ok now (events (step now s))"
  using step_events [of s now] window_ok_prune window_ok_snoc window_ok_mono by metis

lemma step_recent:
  assumes "0 < width s" and "window_ok t (events s)" and "t \<le> now" and "e \<in> set (events (step now s))"
  shows "now - width s < e \<and> e \<le> now"
proof -
  have s: "sorted (events s)" "\<forall>e \<in> set (events s). e \<le> now"
    using assms(2,3) by (auto simp: window_ok_def)
  then have "set (prune (width s) now (events s)) \<subseteq> {e. now - width s < e \<and> e \<le> now}"
    by (auto simp: prune_filter)
  then show ?thesis using step_events [OF assms(1), of now] assms(1,4) by auto
qed

lemma run_ok:
  assumes "0 < width s" and "window_ok t (events s)" and "sorted (t # ts)"
  shows "width (fold step ts s) = width s \<and> window_ok (last (t # ts)) (events (fold step ts s))"
  using assms
proof (induction ts arbitrary: s t)
  case (Cons now ts)
  have "window_ok now (events (step now s))" using Cons.prems by (intro step_ok) auto
  then show ?case using Cons.IH [of "step now s" now] Cons.prems by (simp add: step_width)
qed simp

end

end
