(* ===== verification/Supervisor.thy ===== *)
theory Supervisor
  imports SlidingWindow Observability
begin

text \<open>
  \<^verbatim>\<open>supervisor.py\<close>: the restart limiter and the supervision loop. The plane's factory,
  the clock, the random jitter, the sleep and the shutdown event are the fields of \<open>sup_env\<close>.
\<close>

section \<open>RestartLimiter\<close>

record restart_limiter =
  rl_max :: int
  rl_window :: real
  rl_base_backoff :: real
  rl_max_backoff :: real
  rl_events :: "real list"

definition restart_limiter_init :: "int \<Rightarrow> real \<Rightarrow> real \<Rightarrow> real \<Rightarrow> restart_limiter" where
  "restart_limiter_init max_restarts window_seconds base_backoff max_backoff =
     \<lparr>rl_max = max_restarts, rl_window = window_seconds, rl_base_backoff = base_backoff,
      rl_max_backoff = max_backoff, rl_events = []\<rparr>"

definition default_limiter :: restart_limiter where
  "default_limiter = restart_limiter_init 5 60 (1 / 2) 30"

definition allow :: "real \<Rightarrow> restart_limiter \<Rightarrow> bool \<times> restart_limiter" where
  "allow now L =
     (let events = prune (rl_window L) now (rl_events L)
      in if rl_max L \<le> int (length events) then (False, L\<lparr>rl_events := events\<rparr>)
         else (True, L\<lparr>rl_events := events @ [now]\<rparr>))"

text \<open>The delay; \<open>jitter\<close> is the draw of \<^verbatim>\<open>random.uniform(0.0, base_backoff)\<close>.\<close>

definition backoff :: "real \<Rightarrow> restart_limiter \<Rightarrow> real" where
  "backoff jitter L =
     (let count = max (length (rl_events L)) 1
      in min (rl_max_backoff L) (rl_base_backoff L * 2 ^ (count - 1)) + jitter)"

section \<open>supervise\<close>

datatype plane_outcome = Completed | PlaneCancelled | Crashed

record 'w sup_env =
  se_factory :: "'w \<Rightarrow> plane_outcome \<times> 'w"
  se_clock :: "'w \<Rightarrow> real \<times> 'w"
  se_uniform :: "real \<Rightarrow> 'w \<Rightarrow> real \<times> 'w"
  se_sleep :: "real \<Rightarrow> 'w \<Rightarrow> bool \<times> 'w"
  se_is_set :: "'w \<Rightarrow> bool"
  se_set :: "'w \<Rightarrow> 'w"

record 'w sup_state =
  su_limiter :: restart_limiter
  su_metrics :: metrics
  su_world :: 'w

datatype sup_result = Returned | Raised

text \<open>
  The loop, with a bound on its iterations: \<open>None\<close> means that the bound was not enough. \<open>se_sleep\<close>
  says whether the sleep was cancelled.
\<close>

fun supervise :: "nat \<Rightarrow> 'w sup_env \<Rightarrow> string \<Rightarrow> 'w sup_state \<Rightarrow> (sup_result \<times> 'w sup_state) option" where
  "supervise 0 E name s = None"
| "supervise (Suc n) E name s =
     (if se_is_set E (su_world s) then Some (Returned, s)
      else (case se_factory E (su_world s) of
              (Completed, w) \<Rightarrow> Some (Returned, s\<lparr>su_world := w\<rparr>)
            | (PlaneCancelled, w) \<Rightarrow> Some (Raised, s\<lparr>su_world := w\<rparr>)
            | (Crashed, w) \<Rightarrow>
                let m = record_plane_restart name (su_metrics s);
                    (now, w1) = se_clock E w;
                    (ok, L) = allow now (su_limiter s)
                in if \<not> ok
                   then Some (Returned,
                          \<lparr>su_limiter = L, su_metrics = set_plane_unhealthy name True m, su_world = se_set E w1\<rparr>)
                   else (let (jitter, w2) = se_uniform E (rl_base_backoff L) w1;
                             (cancelled, w3) = se_sleep E (backoff jitter L) w2;
                             s' = \<lparr>su_limiter = L, su_metrics = m, su_world = w3\<rparr>
                         in if cancelled then Some (Raised, s') else supervise n E name s')))"

section \<open>The restart budget\<close>

interpretation rw: event_window rl_events rl_window "\<lambda>now L. snd (allow now L)"
  by unfold_locales (auto simp: allow_def Let_def)

text \<open>The times at which a sequence of crashes is granted a restart.\<close>

fun grants :: "restart_limiter \<Rightarrow> real list \<Rightarrow> real list" where
  "grants L [] = []"
| "grants L (t # ts) = (if fst (allow t L) then [t] else []) @ grants (snd (allow t L)) ts"

lemma covers_allow:
  assumes "covers (rl_window L) t (rl_events L) H" and "t \<le> now" and "0 < rl_window L"
  shows "covers (rl_window L) now (rl_events (snd (allow now L))) (H @ (if fst (allow now L) then [now] else []))
       \<and> (fst (allow now L) \<longleftrightarrow> int (length (recent (rl_window L) now H)) < rl_max L)
       \<and> rl_max (snd (allow now L)) = rl_max L \<and> rl_window (snd (allow now L)) = rl_window L"
  using covers_prune [OF assms(1,2)] covers_recent [OF assms(1,2)] covers_snoc(2) [OF assms] assms(3)
  by (auto simp: allow_def Let_def)

lemma grants_budget:
  assumes "covers (rl_window L) t (rl_events L) H" and "0 < rl_window L" and "sorted (t # ts)" and "k < length (grants L ts)"
  shows "int (length (filter (\<lambda>x. grants L ts ! k - rl_window L < x) (H @ take (Suc k) (grants L ts)))) \<le> rl_max L"
  using assms
proof (induction ts arbitrary: L H t k)
  case Nil
  then show ?case by simp
next
  case (Cons now ts)
  let ?L = "snd (allow now L)" and ?G = "if fst (allow now L) then [now] else []"
  have le: "t \<le> now" "sorted (now # ts)" using Cons.prems(3) by auto
  note a = covers_allow [OF Cons.prems(1) le(1) Cons.prems(2)]
  show ?case
  proof (cases "fst (allow now L) \<and> k = 0")
    case True
    then have "int (length (filter (\<lambda>x. now - rl_window L < x) H)) < rl_max L" using a by blast
    with Cons.prems(2) show ?thesis using True by simp
  next
    case False
    define j where "j = (if fst (allow now L) then k - 1 else k)"
    have g: "grants L (now # ts) = ?G @ grants ?L ts" by simp
    have j: "j < length (grants ?L ts)" "grants L (now # ts) ! k = grants ?L ts ! j"
        "take (Suc k) (grants L (now # ts)) = ?G @ take (Suc j) (grants ?L ts)"
      using Cons.prems(4) False by (auto simp: j_def nth_Cons' take_Cons')
    have "int (length (filter (\<lambda>x. grants ?L ts ! j - rl_window ?L < x) ((H @ ?G) @ take (Suc j) (grants ?L ts))))
        \<le> rl_max ?L"
      by (rule Cons.IH) (use a le(2) j(1) Cons.prems(2) in auto)
    then show ?thesis unfolding j(2,3) using a by simp
  qed
qed

text \<open>
  The restart budget is a true sliding window. However a plane crashes, under a clock that
  does not go back each restart that is granted is at most the \<open>max_restarts\<close>-th one granted within
  the \<open>window_seconds\<close> that end at it.
\<close>

theorem restart_budget:
  assumes "0 < window" and "sorted ts" and "k < length (grants (restart_limiter_init mx window b mb) ts)"
  shows "int (length (filter (\<lambda>x. grants (restart_limiter_init mx window b mb) ts ! k - window < x)
            (take (Suc k) (grants (restart_limiter_init mx window b mb) ts)))) \<le> mx"
proof -
  let ?L = "restart_limiter_init mx window b mb"
  define t0 where "t0 = (case ts of [] \<Rightarrow> 0 | t # _ \<Rightarrow> t)"
  have t: "covers (rl_window ?L) t0 (rl_events ?L) []" "0 < rl_window ?L"
    using assms(1) by (simp_all add: restart_limiter_init_def)
  have s: "sorted (t0 # ts)" using assms(2) by (cases ts) (auto simp: t0_def)
  show ?thesis using grants_budget [OF t s assms(3)] by (simp add: restart_limiter_init_def)
qed

theorem restart_budget_witness:
  "int (length (filter (\<lambda>x. grants (restart_limiter_init 2 60 1 30) [0, 1, 2, 61] ! 2 - 60 < x)
      (take (Suc 2) (grants (restart_limiter_init 2 60 1 30) [0, 1, 2, 61])))) \<le> 2"
proof -
  have g: "grants (restart_limiter_init 2 60 1 30) [0, 1, 2, 61] = [0, 1, 61]"
    by (simp add: allow_def restart_limiter_init_def prune_def Let_def)
  show ?thesis using restart_budget [of 60 "[0, 1, 2, 61]" 2 2 1 30] unfolding g by simp
qed

section \<open>A plane that never comes up\<close>

text \<open>
  A failing plane, over a world with a time that passes: in the worlds \<open>I\<close> shutdown is not requested, each run of the plane
  crashes within \<open>run\<close> seconds, the clock reads the time, the jitter is in its range, and a sleep is not cancelled and ends at
  most \<open>late\<close> seconds too late.
\<close>

definition failing_plane :: "'w sup_env \<Rightarrow> ('w \<Rightarrow> real) \<Rightarrow> real \<Rightarrow> real \<Rightarrow> ('w \<Rightarrow> bool) \<Rightarrow> bool" where
  "failing_plane E time run late I \<longleftrightarrow>
     (\<forall>w. I w \<longrightarrow> \<not> se_is_set E w
        \<and> (\<exists>w'. se_factory E w = (Crashed, w') \<and> I w' \<and> time w \<le> time w' \<and> time w' \<le> time w + run)
        \<and> (\<exists>w'. se_clock E w = (time w, w') \<and> I w' \<and> time w' = time w)
        \<and> (\<forall>c \<ge> 0. \<exists>j w'. se_uniform E c w = (j, w') \<and> I w' \<and> 0 \<le> j \<and> j \<le> c \<and> time w' = time w)
        \<and> (\<forall>d \<ge> 0. \<exists>w'. se_sleep E d w = (False, w') \<and> I w' \<and> time w + d \<le> time w' \<and> time w' \<le> time w + d + late))"

text \<open>The longest that the pause after the restart with number \<open>i\<close> (from 0) can take.\<close>

definition pause_bound :: "restart_limiter \<Rightarrow> real \<Rightarrow> nat \<Rightarrow> real" where
  "pause_bound L late i = min (rl_max_backoff L) (rl_base_backoff L * 2 ^ i) + rl_base_backoff L + late"

lemma backoff_bound:
  assumes "0 \<le> j" and "j \<le> rl_base_backoff L" and "0 \<le> rl_base_backoff L" and "0 \<le> rl_max_backoff L"
  shows "0 \<le> backoff j (L\<lparr>rl_events := es @ [now]\<rparr>)"
    and "backoff j (L\<lparr>rl_events := es @ [now]\<rparr>) + late \<le> pause_bound L late (length es)"
  using assms by (auto simp: backoff_def pause_bound_def Let_def)

text \<open>The time of the remaining runs and pauses, if \<open>k\<close> restarts are left after \<open>n\<close>.\<close>

definition left_bound :: "restart_limiter \<Rightarrow> real \<Rightarrow> real \<Rightarrow> nat \<Rightarrow> nat \<Rightarrow> real" where
  "left_bound L run late n k = run + (\<Sum>i<k. pause_bound L late (n + i) + run)"

lemma left_bound_Suc: "left_bound L run late n (Suc k) = run + pause_bound L late n + left_bound L run late (Suc n) k"
  by (simp add: left_bound_def sum.lessThan_Suc_shift algebra_simps del: sum.lessThan_Suc)

lemma left_bound_ge:
  assumes "0 \<le> run" and "0 \<le> late" and "0 \<le> rl_base_backoff L" and "0 \<le> rl_max_backoff L"
  shows "run \<le> left_bound L run late n k"
  using assms by (auto simp: left_bound_def pause_bound_def intro!: sum_nonneg)

definition crashed_state :: "string \<Rightarrow> 'w sup_env \<Rightarrow> 'w sup_state \<Rightarrow> nat \<Rightarrow> 'w sup_state \<Rightarrow> bool" where
  "crashed_state name E s n s' \<longleftrightarrow>
     plane_restarts (su_metrics s') name = plane_restarts (su_metrics s) name + n
     \<and> plane_unhealthy (su_metrics s') name = Some 1 \<and> se_is_set E (su_world s')"

text \<open>One crash: within the window nothing is pruned, and the budget decides.\<close>

lemma supervise_crash:
  assumes f: "failing_plane E time run late I" and I: "I (su_world s)"
    and L: "\<forall>e \<in> set (rl_events (su_limiter s)). t0 \<le> e" "time (su_world s) + run < t0 + rl_window (su_limiter s)"
  obtains now w1 where "I w1" "time w1 = now" "time (su_world s) \<le> now" "now \<le> time (su_world s) + run"
    "supervise (Suc n) E name s =
       (let L = su_limiter s; m = record_plane_restart name (su_metrics s)
        in if rl_max L \<le> int (length (rl_events L))
           then Some (Returned, \<lparr>su_limiter = L, su_metrics = set_plane_unhealthy name True m, su_world = se_set E w1\<rparr>)
           else (let L' = L\<lparr>rl_events := rl_events L @ [now]\<rparr>; (j, w2) = se_uniform E (rl_base_backoff L) w1;
                     (cancelled, w3) = se_sleep E (backoff j L') w2; s' = \<lparr>su_limiter = L', su_metrics = m, su_world = w3\<rparr>
                 in if cancelled then Some (Raised, s') else supervise n E name s'))"
proof -
  obtain w where w: "se_factory E (su_world s) = (Crashed, w)" "I w" "time (su_world s) \<le> time w" "time w \<le> time (su_world s) + run"
    using f I unfolding failing_plane_def by blast
  obtain w1 where w1: "se_clock E w = (time w, w1)" "I w1" "time w1 = time w"
    using f w(2) unfolding failing_plane_def by blast
  have "prune (rl_window (su_limiter s)) (time w) (rl_events (su_limiter s)) = rl_events (su_limiter s)"
    using L w(4) by (cases "rl_events (su_limiter s)") (auto simp: prune_def)
  moreover have "\<not> se_is_set E (su_world s)" using f I unfolding failing_plane_def by blast
  ultimately show ?thesis
    using w w1 by (intro that [of w1 "time w"]) (simp_all add: allow_def Let_def split_beta)
qed

lemma supervise_failing_plane:
  assumes f: "failing_plane E time run late I" and set: "\<forall>w. se_is_set E (se_set E w)"
    and pos: "0 \<le> run" "0 \<le> late" "0 \<le> rl_base_backoff L0" "0 \<le> rl_max_backoff L0"
    and I: "I (su_world s)" and L: "su_limiter s = L0\<lparr>rl_events := es\<rparr>" "\<forall>e \<in> set es. t0 \<le> e"
      "int (length es) + int k = rl_max L0" "t0 \<le> time (su_world s)"
      "time (su_world s) + left_bound L0 run late (length es) k < t0 + rl_window L0"
  shows "\<exists>s'. supervise (Suc k) E name s = Some (Returned, s') \<and> crashed_state name E s (Suc k) s'"
  using I L
proof (induction k arbitrary: s es)
  case 0
  have b: "time (su_world s) + run < t0 + rl_window (su_limiter s)" using 0 by (simp add: left_bound_def)
  have ev: "\<forall>e \<in> set (rl_events (su_limiter s)). t0 \<le> e" using 0(2,3) by simp
  show ?case
    by (rule supervise_crash [OF f 0(1) ev b, of 0 name])
       (use set 0 in \<open>simp add: crashed_state_def record_plane_restart_def set_plane_unhealthy_def\<close>)
next
  case (Suc k)
  have b: "time (su_world s) + run < t0 + rl_window (su_limiter s)"
    using Suc.prems(2,6) left_bound_ge [OF pos, of "length es" "Suc k"] by simp
  have ev: "\<forall>e \<in> set (rl_events (su_limiter s)). t0 \<le> e" using Suc.prems(2,3) by simp
  obtain now w1 where w1: "I w1" "time w1 = now" "time (su_world s) \<le> now" "now \<le> time (su_world s) + run"
    and e: "supervise (Suc (Suc k)) E name s =
       (let L = su_limiter s; m = record_plane_restart name (su_metrics s)
        in if rl_max L \<le> int (length (rl_events L))
           then Some (Returned, \<lparr>su_limiter = L, su_metrics = set_plane_unhealthy name True m, su_world = se_set E w1\<rparr>)
           else (let L' = L\<lparr>rl_events := rl_events L @ [now]\<rparr>; (j, w2) = se_uniform E (rl_base_backoff L) w1;
                     (cancelled, w3) = se_sleep E (backoff j L') w2; s' = \<lparr>su_limiter = L', su_metrics = m, su_world = w3\<rparr>
                 in if cancelled then Some (Raised, s') else supervise (Suc k) E name s'))"
    by (rule supervise_crash [OF f Suc.prems(1) ev b])
  let ?L = "L0\<lparr>rl_events := es @ [now]\<rparr>"
  obtain j w2 where j: "se_uniform E (rl_base_backoff L0) w1 = (j, w2)" "I w2" "0 \<le> j" "j \<le> rl_base_backoff L0" "time w2 = now"
    using f w1(1,2) pos(3) unfolding failing_plane_def by blast
  note d = backoff_bound [OF j(3,4) pos(3,4), of es now]
  obtain w3 where w3: "se_sleep E (backoff j ?L) w2 = (False, w3)" "I w3" "time w2 + backoff j ?L \<le> time w3"
      "time w3 \<le> time w2 + backoff j ?L + late"
    using f j(2) d(1) unfolding failing_plane_def by blast
  let ?s = "\<lparr>su_limiter = ?L, su_metrics = record_plane_restart name (su_metrics s), su_world = w3\<rparr>"
  have "supervise (Suc (Suc k)) E name s = supervise (Suc k) E name ?s"
    unfolding e using Suc.prems(2,4) by (simp add: j(1) w3(1) Let_def del: supervise.simps)
  moreover have "\<exists>s'. supervise (Suc k) E name ?s = Some (Returned, s') \<and> crashed_state name E ?s (Suc k) s'"
  proof (rule Suc.IH [of ?s "es @ [now]"])
    show "time (su_world ?s) + left_bound L0 run late (length (es @ [now])) k < t0 + rl_window L0"
      using Suc.prems(6) w1(4) w3(4) j(5) d(2) [of late] by (simp add: left_bound_Suc)
  qed (use Suc.prems w1 w3 j(5) d(1) in auto)
  ultimately show ?case by (auto simp: crashed_state_def record_plane_restart_def)
qed

lemma spaced_crash_allowed:
  assumes "0 < rl_max L" and "\<forall>e \<in> set (rl_events L). e \<le> now - rl_window L"
  shows "fst (allow now L)"
proof -
  have "prune (rl_window L) now (rl_events L) = []" using assms(2) unfolding prune_def dropWhile_eq_Nil_conv .
  then show ?thesis using assms(1) by (simp add: allow_def Let_def)
qed

text \<open>
  C39: a plane that keeps crashing within one window does not restart for ever. If each run of the plane crashes within
  \<open>run\<close> seconds and \<open>max_restarts + 1\<close> such runs with the longest pauses between them take less than one
  window, the loop ends after exactly that many crashes, having counted each of them, marked the plane unhealthy and
  requested the shutdown of the process. A crash that comes a window after the others is granted a restart
  (\<open>spaced_crash_allowed\<close>), so nothing is claimed of a plane that crashes more slowly.
\<close>

theorem crash_loop_gives_up:
  assumes "failing_plane E time run late I" and "\<forall>w. se_is_set E (se_set E w)" and "I w"
    and "0 \<le> mx" and "0 \<le> run" and "0 \<le> late" and "0 \<le> b" and "0 \<le> mb"
    and "real (Suc (nat mx)) * run + (\<Sum>i<nat mx. min mb (b * 2 ^ i) + b + late) < window"
  shows "\<exists>s'. supervise (Suc (nat mx)) E name
            \<lparr>su_limiter = restart_limiter_init mx window b mb, su_metrics = m, su_world = w\<rparr> = Some (Returned, s')
     \<and> plane_restarts (su_metrics s') name = plane_restarts m name + Suc (nat mx)
     \<and> plane_unhealthy (su_metrics s') name = Some 1 \<and> se_is_set E (su_world s')"
proof -
  let ?L = "restart_limiter_init mx window b mb"
  let ?s = "\<lparr>su_limiter = ?L, su_metrics = m, su_world = w\<rparr>"
  have L: "rl_base_backoff ?L = b" "rl_max_backoff ?L = mb" "rl_max ?L = mx" "rl_window ?L = window"
    and e: "su_limiter ?s = ?L\<lparr>rl_events := []\<rparr>"
    by (simp_all add: restart_limiter_init_def)
  have "left_bound ?L run late 0 (nat mx) < window"
    using assms(9) by (simp add: left_bound_def pause_bound_def L sum.distrib algebra_simps)
  then have "\<exists>s'. supervise (Suc (nat mx)) E name ?s = Some (Returned, s') \<and> crashed_state name E ?s (Suc (nat mx)) s'"
    using assms(3-8) L
    by (intro supervise_failing_plane [OF assms(1,2) _ _ _ _ _ e, of "time w"]) auto
  then show ?thesis by (auto simp: crashed_state_def)
qed

text \<open>A plane that crashes after two seconds, on a clock that the run and the sleep advance, with the default limiter.\<close>

definition sample_crash_env :: "(bool \<times> real) sup_env" where
  "sample_crash_env =
     \<lparr>se_factory = (\<lambda>(x, t). (Crashed, (x, t + 2))), se_clock = (\<lambda>(x, t). (t, (x, t))),
      se_uniform = (\<lambda>c w. (c, w)), se_sleep = (\<lambda>d (x, t). (False, (x, t + d))),
      se_is_set = fst, se_set = (\<lambda>(x, t). (True, t))\<rparr>"

theorem crash_loop_gives_up_witness:
  "\<exists>s'. supervise 6 sample_crash_env ''dns''
       \<lparr>su_limiter = default_limiter, su_metrics = init_metrics, su_world = (False, 0)\<rparr> = Some (Returned, s')
     \<and> plane_restarts (su_metrics s') ''dns'' = 6 \<and> plane_unhealthy (su_metrics s') ''dns'' = Some 1"
proof -
  have c: "failing_plane sample_crash_env snd 2 0 (\<lambda>w. \<not> fst w)"
    by (auto simp: failing_plane_def sample_crash_env_def)
  have s: "\<forall>w. se_is_set sample_crash_env (se_set sample_crash_env w)" by (auto simp: sample_crash_env_def)
  have w: "\<not> fst (False, 0 :: real)" by simp
  have b: "real (Suc (nat 5)) * 2 + (\<Sum>i<nat 5. min 30 (1 / 2 * 2 ^ i) + 1 / 2 + 0) < (60 :: real)"
    by (simp add: eval_nat_numeral)
  have n: "Suc (nat 5) = 6" by simp
  show ?thesis
    using crash_loop_gives_up [OF c s w _ _ _ _ _ b, of "''dns''" init_metrics]
    unfolding n default_limiter_def by (auto simp: init_metrics_def simp del: supervise.simps)
qed

end
