(* ===== verification/RateLimit.thy ===== *)
theory RateLimit
  imports SlidingWindow
begin

text \<open>
  \<^verbatim>\<open>api/ratelimit.py\<close>: the login limiter. Each operation takes the reading of the clock
  that it makes.
\<close>

section \<open>Definitions\<close>

record login_limiter =
  ll_max :: int
  ll_window :: real
  ll_base :: real
  ll_max_lockout :: real
  ll_global_max :: int
  ll_failures :: "(string \<times> real list) list"
  ll_locked_until :: "(string \<times> real) list"
  ll_global :: "real list"
  ll_global_locked_until :: real

definition login_limiter_init :: "int \<Rightarrow> real \<Rightarrow> real \<Rightarrow> real \<Rightarrow> int \<Rightarrow> login_limiter" where
  "login_limiter_init max_attempts window_seconds base_lockout max_lockout global_max_attempts =
     \<lparr>ll_max = max_attempts, ll_window = window_seconds, ll_base = base_lockout,
      ll_max_lockout = max_lockout, ll_global_max = global_max_attempts, ll_failures = [],
      ll_locked_until = [], ll_global = [], ll_global_locked_until = 0\<rparr>"

definition default_login_limiter :: login_limiter where
  "default_login_limiter = login_limiter_init 5 300 60 3600 20"

definition locked_until :: "login_limiter \<Rightarrow> string \<Rightarrow> real" where
  "locked_until L key = (case map_of (ll_locked_until L) key of Some t \<Rightarrow> t | None \<Rightarrow> 0)"

definition failures_of :: "login_limiter \<Rightarrow> string \<Rightarrow> real list" where
  "failures_of L key = (case map_of (ll_failures L) key of Some es \<Rightarrow> es | None \<Rightarrow> [])"

definition is_allowed :: "real \<Rightarrow> string \<Rightarrow> login_limiter \<Rightarrow> bool" where
  "is_allowed now key L \<longleftrightarrow> (if now < ll_global_locked_until L then False else locked_until L key \<le> now)"

text \<open>
  \<^verbatim>\<open>2.0 ** over\<close> for a non-negative integer: Python raises \<^verbatim>\<open>OverflowError\<close> when
  the result is not a finite double.
\<close>

definition py_pow2 :: "int \<Rightarrow> real res" where
  "py_pow2 over = (if 1024 \<le> over then Inl (OtherError ''OverflowError'') else Inr (2 ^ nat over))"

definition lock_source :: "real \<Rightarrow> string \<Rightarrow> real list \<Rightarrow> login_limiter \<Rightarrow> unit res \<times> login_limiter" where
  "lock_source now key events L =
     (if ll_max L \<le> int (length events)
      then (case py_pow2 (int (length events) - ll_max L) of
              Inl e \<Rightarrow> (Inl e, L)
            | Inr p \<Rightarrow>
                (let delay = min (ll_max_lockout L) (ll_base L * p)
                 in (Inr (), L\<lparr>ll_locked_until := AList.update key (now + delay) (ll_locked_until L)\<rparr>)))
      else (Inr (), L))"

definition record_failure :: "real \<Rightarrow> string \<Rightarrow> login_limiter \<Rightarrow> unit res \<times> login_limiter" where
  "record_failure now key L =
     (let events = prune (ll_window L) now (failures_of L key @ [now]);
          glob = prune (ll_window L) now (ll_global L @ [now]);
          L1 = L\<lparr>ll_failures := AList.update key events (ll_failures L), ll_global := glob\<rparr>
      in case lock_source now key events L1 of
           (Inl e, L2) \<Rightarrow> (Inl e, L2)
         | (Inr _, L2) \<Rightarrow>
             (Inr (), if ll_global_max L2 \<le> int (length (ll_global L2))
                      then L2\<lparr>ll_global_locked_until := now + ll_base L2\<rparr> else L2))"

definition record_success :: "string \<Rightarrow> login_limiter \<Rightarrow> login_limiter" where
  "record_success key L =
     L\<lparr>ll_failures := AList.delete key (ll_failures L), ll_locked_until := AList.delete key (ll_locked_until L)\<rparr>"

definition retry_after :: "real \<Rightarrow> string \<Rightarrow> login_limiter \<Rightarrow> int" where
  "retry_after now key L =
     (let until = max (locked_until L key) (ll_global_locked_until L) in max 0 (py_int (until - now)))"

section \<open>Selectors\<close>

lemma lock_source_sel [simp]:
  "ll_max (snd (lock_source now key es L)) = ll_max L" "ll_window (snd (lock_source now key es L)) = ll_window L"
  "ll_base (snd (lock_source now key es L)) = ll_base L"
  "ll_max_lockout (snd (lock_source now key es L)) = ll_max_lockout L"
  "ll_global_max (snd (lock_source now key es L)) = ll_global_max L"
  "ll_global (snd (lock_source now key es L)) = ll_global L"
  "ll_failures (snd (lock_source now key es L)) = ll_failures L"
  "ll_global_locked_until (snd (lock_source now key es L)) = ll_global_locked_until L"
  by (simp_all add: lock_source_def Let_def split: sum.splits)

lemma record_failure_sel [simp]:
  "ll_max (snd (record_failure now key L)) = ll_max L" "ll_window (snd (record_failure now key L)) = ll_window L"
  "ll_base (snd (record_failure now key L)) = ll_base L"
  "ll_max_lockout (snd (record_failure now key L)) = ll_max_lockout L"
  "ll_global_max (snd (record_failure now key L)) = ll_global_max L"
  "ll_global (snd (record_failure now key L)) = prune (ll_window L) now (ll_global L @ [now])"
  by (simp_all add: record_failure_def Let_def split_beta split: sum.splits)

lemma failures_of_record [simp]:
  "failures_of (snd (record_failure now key L)) k =
     (if k = key then prune (ll_window L) now (failures_of L key @ [now]) else failures_of L k)"
  by (simp add: record_failure_def failures_of_def Let_def split_beta split: sum.splits)

lemma record_success_sel [simp]:
  "ll_max (record_success key L) = ll_max L" "ll_window (record_success key L) = ll_window L"
  "ll_base (record_success key L) = ll_base L" "ll_max_lockout (record_success key L) = ll_max_lockout L"
  "ll_global_max (record_success key L) = ll_global_max L" "ll_global (record_success key L) = ll_global L"
  "ll_global_locked_until (record_success key L) = ll_global_locked_until L"
  "failures_of (record_success key L) k = (if k = key then [] else failures_of L k)"
  "locked_until (record_success key L) k = (if k = key then 0 else locked_until L k)"
  by (auto simp: record_success_def failures_of_def locked_until_def delete_conv')

lemma login_limiter_init_sel [simp]:
  "ll_max (login_limiter_init mx w b mb gm) = mx" "ll_window (login_limiter_init mx w b mb gm) = w"
  "ll_base (login_limiter_init mx w b mb gm) = b" "ll_max_lockout (login_limiter_init mx w b mb gm) = mb"
  "ll_global_max (login_limiter_init mx w b mb gm) = gm" "ll_global (login_limiter_init mx w b mb gm) = []"
  "ll_global_locked_until (login_limiter_init mx w b mb gm) = 0"
  "failures_of (login_limiter_init mx w b mb gm) k = []" "locked_until (login_limiter_init mx w b mb gm) k = 0"
  by (simp_all add: login_limiter_init_def failures_of_def locked_until_def)

text \<open>The locks that a failure sets, by the number of failures in the two windows.\<close>

definition source_lock :: "login_limiter \<Rightarrow> real \<Rightarrow> nat \<Rightarrow> real \<Rightarrow> real" where
  "source_lock L now n old =
     (if ll_max L \<le> int n \<and> int n < ll_max L + 1024
      then now + min (ll_max_lockout L) (ll_base L * 2 ^ nat (int n - ll_max L)) else old)"

lemma locked_until_lock_source:
  "locked_until (snd (lock_source now key es L)) k =
     (if k = key then source_lock L now (length es) (locked_until L k) else locked_until L k)"
  by (simp add: lock_source_def py_pow2_def source_lock_def locked_until_def Let_def)

lemma locked_until_record:
  "locked_until (snd (record_failure now key L)) k =
     (if k = key
      then source_lock L now (length (failures_of (snd (record_failure now key L)) key)) (locked_until L k)
      else locked_until L k)"
proof -
  let ?es = "prune (ll_window L) now (failures_of L key @ [now])"
  let ?L1 = "L\<lparr>ll_failures := AList.update key ?es (ll_failures L),
    ll_global := prune (ll_window L) now (ll_global L @ [now])\<rparr>"
  have "locked_until (snd (record_failure now key L)) k = locked_until (snd (lock_source now key ?es ?L1)) k"
    by (simp add: record_failure_def locked_until_def Let_def split_beta split: sum.splits)
  moreover have "locked_until ?L1 j = locked_until L j" for j by (simp add: locked_until_def)
  moreover have "source_lock ?L1 = source_lock L" by (intro ext) (simp add: source_lock_def)
  ultimately show ?thesis unfolding locked_until_lock_source failures_of_record by simp
qed

definition overflows :: "login_limiter \<Rightarrow> nat \<Rightarrow> bool" where
  "overflows L n \<longleftrightarrow> ll_max L + 1024 \<le> int n"

lemma fst_lock_source:
  "fst (lock_source now key es L) = (if overflows L (length es) then Inl (OtherError ''OverflowError'') else Inr ())"
  by (auto simp: lock_source_def py_pow2_def overflows_def Let_def)

lemma global_lock_record:
  "ll_global_locked_until (snd (record_failure now key L)) =
     (if \<not> overflows L (length (failures_of (snd (record_failure now key L)) key))
         \<and> ll_global_max L \<le> int (length (ll_global (snd (record_failure now key L))))
      then now + ll_base L else ll_global_locked_until L)"
proof -
  let ?es = "prune (ll_window L) now (failures_of L key @ [now])"
  let ?L1 = "L\<lparr>ll_failures := AList.update key ?es (ll_failures L),
    ll_global := prune (ll_window L) now (ll_global L @ [now])\<rparr>"
  have "overflows ?L1 n = overflows L n" for n by (simp add: overflows_def)
  then show ?thesis
    using fst_lock_source [of now key ?es ?L1] unfolding failures_of_record record_failure_sel
    by (simp add: record_failure_def Let_def split_beta split: if_splits)
qed

lemma is_allowed_iff: "is_allowed now k L \<longleftrightarrow> ll_global_locked_until L \<le> now \<and> locked_until L k \<le> now"
  by (auto simp: is_allowed_def)

interpretation lg: event_window ll_global ll_window "\<lambda>now L. snd (record_failure now key L)" for key
  by unfold_locales (simp_all add: prune_append_now)

interpretation lk: event_window "\<lambda>L. failures_of L key" ll_window "\<lambda>now L. snd (record_failure now key L)" for key
  by unfold_locales (simp_all add: prune_append_now)

section \<open>Histories\<close>

text \<open>
  A history of login attempts: failures of sources and successful logins, with their times.
  \<open>live\<close> are the failures of a source since its last success.
\<close>

datatype attempt = Failure real string | Success real string

fun attempt_time :: "attempt \<Rightarrow> real" where
  "attempt_time (Failure t k) = t"
| "attempt_time (Success t k) = t"

fun apply_attempt :: "attempt \<Rightarrow> login_limiter \<Rightarrow> login_limiter" where
  "apply_attempt (Failure t k) L = snd (record_failure t k L)"
| "apply_attempt (Success t k) L = record_success k L"

fun live_step :: "string \<Rightarrow> attempt \<Rightarrow> real list \<Rightarrow> real list" where
  "live_step k (Failure t k') es = (if k' = k then es @ [t] else es)"
| "live_step k (Success t k') es = (if k' = k then [] else es)"

definition live :: "string \<Rightarrow> attempt list \<Rightarrow> real list" where
  "live k H = fold (live_step k) H []"

fun failure_step :: "attempt \<Rightarrow> real list \<Rightarrow> real list" where
  "failure_step (Failure t k) es = es @ [t]"
| "failure_step (Success t k) es = es"

definition all_failures :: "attempt list \<Rightarrow> real list" where
  "all_failures H = fold failure_step H []"

text \<open>A limiter whose windows reflect a history up to the time \<open>t\<close>.\<close>

definition reflects :: "login_limiter \<Rightarrow> (string \<Rightarrow> real list) \<Rightarrow> real list \<Rightarrow> real \<Rightarrow> bool" where
  "reflects L per_key glob t \<longleftrightarrow> 0 < ll_window L
     \<and> (\<forall>k. covers (ll_window L) t (failures_of L k) (per_key k)) \<and> covers (ll_window L) t (ll_global L) glob"

lemma reflects_step:
  assumes "reflects L per_key glob t" and "t \<le> attempt_time a"
  shows "reflects (apply_attempt a L) (\<lambda>k. live_step k a (per_key k)) (failure_step a glob) (attempt_time a)"
proof (cases a)
  case (Failure now key)
  then show ?thesis
    using assms by (auto simp: reflects_def intro: covers_push covers_mono)
next
  case (Success now key)
  then show ?thesis using assms covers_mono [of "ll_window L" t _ _ now] by (auto simp: reflects_def)
qed

lemma reflects_run:
  "reflects L per_key glob t \<Longrightarrow> sorted (t # map attempt_time H) \<Longrightarrow>
   reflects (fold apply_attempt H L) (\<lambda>k. fold (live_step k) H (per_key k)) (fold failure_step H glob)
     (last (t # map attempt_time H))"
proof (induction H arbitrary: L per_key glob t)
  case (Cons a H)
  have "reflects (apply_attempt a L) (\<lambda>k. live_step k a (per_key k)) (failure_step a glob) (attempt_time a)"
    using Cons.prems by (intro reflects_step) auto
  from Cons.IH [OF this] show ?case using Cons.prems by simp
qed simp

lemma apply_attempt_sel [simp]:
  "ll_max (apply_attempt a L) = ll_max L" "ll_window (apply_attempt a L) = ll_window L"
  "ll_base (apply_attempt a L) = ll_base L" "ll_max_lockout (apply_attempt a L) = ll_max_lockout L"
  "ll_global_max (apply_attempt a L) = ll_global_max L"
  by (cases a; simp)+

lemma run_sel [simp]:
  "ll_max (fold apply_attempt H L) = ll_max L" "ll_window (fold apply_attempt H L) = ll_window L"
  "ll_base (fold apply_attempt H L) = ll_base L" "ll_max_lockout (fold apply_attempt H L) = ll_max_lockout L"
  "ll_global_max (fold apply_attempt H L) = ll_global_max L"
  by (induction H arbitrary: L; simp)+

lemma failure_windows:
  assumes "0 < w" and "sorted (map attempt_time (H @ [Failure t k]))"
    and L_def: "L = fold apply_attempt H (login_limiter_init mx w b mb gm)"
  shows "failures_of (snd (record_failure t k L)) k = recent w t (live k (H @ [Failure t k]))"
    and "ll_global (snd (record_failure t k L)) = recent w t (all_failures (H @ [Failure t k]))"
proof -
  let ?L0 = "login_limiter_init mx w b mb gm"
  define t0 where "t0 = (case H of [] \<Rightarrow> t | a # _ \<Rightarrow> attempt_time a)"
  have r0: "reflects ?L0 (\<lambda>k. []) [] t0" using assms(1) by (simp add: reflects_def)
  have so: "sorted (t0 # map attempt_time H)" "last (t0 # map attempt_time H) \<le> t"
    using assms(2) by (cases H; auto simp: t0_def sorted_append last_map)+
  have r: "reflects L (\<lambda>k. live k H) (all_failures H) (last (t0 # map attempt_time H))"
    using reflects_run [OF r0 so(1)] by (simp add: L_def live_def all_failures_def)
  have w: "ll_window L = w" by (simp add: L_def)
  have c: "covers w (last (t0 # map attempt_time H)) (failures_of L k) (live k H)"
      "covers w (last (t0 # map attempt_time H)) (ll_global L) (all_failures H)"
    using r by (auto simp: reflects_def w)
  show "failures_of (snd (record_failure t k L)) k = recent w t (live k (H @ [Failure t k]))"
    using covers_snoc(1) [OF c(1) so(2) assms(1)] by (simp add: w live_def)
  show "ll_global (snd (record_failure t k L)) = recent w t (all_failures (H @ [Failure t k]))"
    using covers_snoc(1) [OF c(2) so(2) assms(1)] by (simp add: w all_failures_def)
qed

lemma fst_record_failure:
  "fst (record_failure now key L) =
     (if overflows L (length (failures_of (snd (record_failure now key L)) key)) then Inl (OtherError ''OverflowError'') else Inr ())"
proof -
  let ?es = "prune (ll_window L) now (failures_of L key @ [now])"
  let ?L1 = "L\<lparr>ll_failures := AList.update key ?es (ll_failures L),
    ll_global := prune (ll_window L) now (ll_global L @ [now])\<rparr>"
  have "overflows ?L1 n = overflows L n" for n by (simp add: overflows_def)
  moreover have "fst (record_failure now key L) = fst (lock_source now key ?es ?L1)"
    by (simp add: record_failure_def Let_def split_beta split: sum.splits)
  ultimately show ?thesis unfolding failures_of_record fst_lock_source by simp
qed

text \<open>
  C40: the lockout is a sliding window with exponential backoff, up to an overflow. Take any history of
  attempts that ends with a failure of a source, under a clock that does not go back, and let \<open>n\<close> be the failures of that
  source since its last success within the last \<open>window\<close> seconds. If \<open>n\<close> is below \<open>max_attempts + 1024\<close>, recording the failure
  succeeds: with \<open>n \<ge> max_attempts\<close> the source is refused for the next \<open>min max_lockout (base * 2 ^ (n - max_attempts))\<close>
  seconds, with \<open>global_max_attempts\<close> failures of any sources in the window every source is refused for \<open>base\<close>
  seconds, and otherwise the failure changes no answer. From \<open>max_attempts + 1024\<close> on, the power overflows: recording the
  failure raises, and neither lock is set.
\<close>

theorem login_lockout:
  assumes "0 < w" and "sorted (map attempt_time (H @ [Failure t k]))"
    and "n = length (recent w t (live k (H @ [Failure t k])))"
    and "m = length (recent w t (all_failures (H @ [Failure t k])))"
    and L_def: "L = fold apply_attempt H (login_limiter_init mx w b mb gm)"
  shows "fst (record_failure t k L) = (if int n < mx + 1024 then Inr () else Inl (OtherError ''OverflowError''))
    \<and> (is_allowed u s (apply_attempt (Failure t k) L) \<longleftrightarrow>
      (if s = k \<and> mx \<le> int n \<and> int n < mx + 1024 then t + min mb (b * 2 ^ nat (int n - mx)) else locked_until L s) \<le> u
      \<and> (if gm \<le> int m \<and> int n < mx + 1024 then t + b else ll_global_locked_until L) \<le> u)"
proof -
  note f = failure_windows [OF assms(1,2) L_def]
  have p: "ll_max L = mx" "ll_base L = b" "ll_max_lockout L = mb" "ll_global_max L = gm" by (simp_all add: L_def)
  have l: "locked_until (snd (record_failure t k L)) s =
      (if s = k \<and> mx \<le> int n \<and> int n < mx + 1024 then t + min mb (b * 2 ^ nat (int n - mx)) else locked_until L s)"
    unfolding locked_until_record f(1) assms(3) [symmetric] by (simp add: source_lock_def p)
  have g: "ll_global_locked_until (snd (record_failure t k L)) =
      (if gm \<le> int m \<and> int n < mx + 1024 then t + b else ll_global_locked_until L)"
    unfolding global_lock_record f assms(3,4) [symmetric] by (auto simp: overflows_def p)
  have r: "fst (record_failure t k L) = (if int n < mx + 1024 then Inr () else Inl (OtherError ''OverflowError''))"
    unfolding fst_record_failure f assms(3) [symmetric] by (simp add: overflows_def p)
  show ?thesis unfolding is_allowed_iff apply_attempt.simps l g using r by blast
qed

text \<open>A lock never outlasts \<open>max_lockout\<close> after the last failure, and a success lifts the source's lock.\<close>

lemma lock_bound_step:
  assumes "\<forall>k. locked_until L k \<le> B" and "ll_global_locked_until L \<le> B"
    and "attempt_time a + max (ll_max_lockout L) (ll_base L) \<le> B" and "0 \<le> B"
  shows "(\<forall>k. locked_until (apply_attempt a L) k \<le> B) \<and> ll_global_locked_until (apply_attempt a L) \<le> B"
proof (cases a)
  case (Failure t key)
  have "source_lock L t n old \<le> B" if "old \<le> B" for n old
    using assms(3) that by (auto simp: Failure source_lock_def)
  then show ?thesis
    using assms by (auto simp: Failure locked_until_record global_lock_record)
next
  case (Success t key)
  then show ?thesis using assms by simp
qed

lemma lock_bound_run:
  assumes "\<forall>k. locked_until L k \<le> B" and "ll_global_locked_until L \<le> B"
    and "\<forall>a \<in> set H. attempt_time a + max (ll_max_lockout L) (ll_base L) \<le> B" and "0 \<le> B"
  shows "(\<forall>k. locked_until (fold apply_attempt H L) k \<le> B) \<and> ll_global_locked_until (fold apply_attempt H L) \<le> B"
  using assms
proof (induction H arbitrary: L)
  case (Cons a H)
  then have "(\<forall>k. locked_until (apply_attempt a L) k \<le> B) \<and> ll_global_locked_until (apply_attempt a L) \<le> B"
    by (intro lock_bound_step) auto
  then show ?case using Cons by simp
qed simp

text \<open>
  Nobody is locked out for good. Whatever the attempts of anyone, a login is allowed again at
  the latest \<open>max_lockout\<close> (or \<open>base_lockout\<close>, if that is longer) seconds after the last attempt; and
  a successful login leaves its source with no failures and no lock of its own.
\<close>

theorem lockout_ends:
  assumes "\<forall>a \<in> set H. attempt_time a \<le> t" and "t + max mb b \<le> u" and "0 \<le> u"
    and L_def: "L = fold apply_attempt H (login_limiter_init mx w b mb gm)"
  shows "is_allowed u k L
    \<and> failures_of (record_success k L) k = []
    \<and> (is_allowed v k (record_success k L) \<longleftrightarrow> ll_global_locked_until L \<le> v \<and> 0 \<le> v)"
  using lock_bound_run [of "login_limiter_init mx w b mb gm" u H] assms(1-3)
  by (fastforce simp: is_allowed_iff L_def)

text \<open>
  The value of the Retry-After header is truncated: a client that waits exactly that long comes
  less than a second too early.
\<close>

lemma retry_after_truncates:
  assumes "\<not> is_allowed now key L"
  defines "until \<equiv> max (locked_until L key) (ll_global_locked_until L)"
  shows "0 \<le> retry_after now key L \<and> now + retry_after now key L \<le> until \<and> until < now + retry_after now key L + 1"
proof -
  have "0 < until - now" using assms(1) by (auto simp: until_def is_allowed_iff)
  then show ?thesis unfolding until_def by (simp add: retry_after_def py_int_def Let_def) linarith
qed

theorem login_lockout_witness:
  "\<not> is_allowed 63 ''ip'' (apply_attempt (Failure 4 ''ip'') (fold apply_attempt
      [Failure 0 ''ip'', Failure 1 ''ip'', Failure 2 ''ip'', Failure 3 ''ip''] (login_limiter_init 5 300 60 3600 20)))"
proof -
  let ?H = "[Failure 0 ''ip'', Failure 1 ''ip'', Failure 2 ''ip'', Failure 3 ''ip'']"
  have w: "0 < (300 :: real)" and so: "sorted (map attempt_time (?H @ [Failure 4 ''ip'']))" by simp_all
  have n: "5 = length (recent 300 4 (live ''ip'' (?H @ [Failure 4 ''ip''])))"
    and m: "5 = length (recent 300 4 (all_failures (?H @ [Failure 4 ''ip''])))"
    by (simp_all add: live_def all_failures_def)
  show ?thesis using login_lockout [OF w so n m refl, of 5] by simp
qed

theorem lockout_ends_witness:
  "is_allowed 3601 ''ip'' (fold apply_attempt [Failure 0 ''ip'', Failure 1 ''ip''] (login_limiter_init 1 300 60 3600 20))"
proof -
  have h: "\<forall>a \<in> set [Failure 0 ''ip'', Failure 1 ''ip'']. attempt_time a \<le> 1" by simp
  show ?thesis using lockout_ends [OF h _ _ refl, of 3600 60 3601 "''ip''" 1 300 20] by simp
qed

end
