(* ===== verification/AuditLog.thy ===== *)
theory AuditLog
  imports Dispatcher Models
begin

text \<open>
  \<^verbatim>\<open>audit.py\<close>: the audit sink that appends challenge events to the database, and the
  dispatcher of \<^verbatim>\<open>main.serve\<close>, which writes to it. The database is a component of the
  world that providers and clocks do not see.
\<close>

section \<open>Definitions\<close>

definition event_of_record :: "int option \<Rightarrow> utc \<Rightarrow> audit_record \<Rightarrow> challenge_event" where
  "event_of_record i ts rec =
     \<lparr>ce_id = i, ce_ts = ts, ce_zone = ar_zone rec, ce_record_name = ar_record_name rec,
      ce_action = ar_action rec, ce_provider = ar_provider rec, ce_result = ar_result rec,
      ce_latency_ms = ar_latency_ms rec, ce_tsig_key_id = ar_tsig_key_id rec, ce_source = ar_source rec,
      ce_error_detail = ar_error_detail rec\<rparr>"

text \<open>\<^verbatim>\<open>DbAuditSink.record\<close>; the id is the one that the insert draws.\<close>

definition db_audit_record :: "'w db_env \<Rightarrow> audit_record \<Rightarrow> db \<times> 'w \<Rightarrow> unit res \<times> (db \<times> 'w)" where
  "db_audit_record E rec dw =
     (let (d, w) = dw;
          (ts, w1) = de_now E w;
          (i, w2) = de_next_id E w1
      in transact E d (d\<lparr>db_events := db_events d @ [event_of_record (Some i) ts rec]\<rparr>) w2)"

definition on_world :: "('w \<Rightarrow> 'a \<times> 'w) \<Rightarrow> 'd \<times> 'w \<Rightarrow> 'a \<times> ('d \<times> 'w)" where
  "on_world f dw = (let (d, w) = dw; (x, w') = f w in (x, (d, w')))"

definition beside_db :: "('p, 'w) provider_ops \<Rightarrow> ('p, 'd \<times> 'w) provider_ops" where
  "beside_db P =
     \<lparr>pv_type = pv_type P, pv_supports_multivalue = pv_supports_multivalue P,
      pv_supports_delete = pv_supports_delete P,
      pv_present = (\<lambda>p z r v. on_world (pv_present P p z r v)),
      pv_cleanup = (\<lambda>p z r v. on_world (pv_cleanup P p z r v)),
      pv_validate = (\<lambda>p. on_world (pv_validate P p))\<rparr>"

text \<open>The dispatcher of \<open>D\<close> with a given sink for its audit rows.\<close>

definition audited_dispatcher ::
  "(audit_record \<Rightarrow> 'd \<times> 'w \<Rightarrow> unit res \<times> ('d \<times> 'w)) \<Rightarrow> ('n, 'p, 'w) dispatcher \<Rightarrow>
   ('n, 'p, 'd \<times> 'w) dispatcher" where
  "audited_dispatcher sink D =
     \<lparr>d_routing = d_routing D, d_clock = on_world (d_clock D), d_perf_counter = on_world (d_perf_counter D),
      d_audit = Some sink, d_tsig_resolver = d_tsig_resolver D\<rparr>"

lemma on_world_simp [simp]: "on_world f (d, w) = (fst (f w), d, snd (f w))"
  by (simp add: on_world_def split_beta)

lemma beside_db_fields [simp]:
  "pv_type (beside_db P) = pv_type P" "pv_supports_multivalue (beside_db P) = pv_supports_multivalue P"
  "pv_present (beside_db P) p z r v = on_world (pv_present P p z r v)"
  "pv_cleanup (beside_db P) p z r v = on_world (pv_cleanup P p z r v)"
  by (simp_all add: beside_db_def)

lemma audited_dispatcher_fields [simp]:
  "d_routing (audited_dispatcher sink D) = d_routing D"
  "d_clock (audited_dispatcher sink D) = on_world (d_clock D)"
  "d_perf_counter (audited_dispatcher sink D) = on_world (d_perf_counter D)"
  "d_audit (audited_dispatcher sink D) = Some sink"
  "d_tsig_resolver (audited_dispatcher sink D) = d_tsig_resolver D"
  by (simp_all add: audited_dispatcher_def)

section \<open>The row of a call\<close>

definition call_row ::
  "'n name_ops \<Rightarrow> ('p, 'w) provider_ops \<Rightarrow> ('n, 'p) route \<Rightarrow> action \<Rightarrow> string \<Rightarrow> string \<Rightarrow> int option \<Rightarrow>
   string option \<Rightarrow> int \<Rightarrow> audit_record" where
  "call_row N P route a rn src kid ed ms =
     \<lparr>ar_zone = nm_to_text N (rt_zone route), ar_record_name = rn, ar_action = action_value a,
      ar_provider = pv_type P (rt_provider route), ar_result = (if ed = None then ''ok'' else ''error''),
      ar_latency_ms = ms, ar_tsig_key_id = kid, ar_source = src, ar_error_detail = ed\<rparr>"

lemma finish_call_write:
  fixes s :: "('d \<times> 'w) dstate"
  obtains ms s2 where "fst (ds_world s2) = fst (ds_world s)"
    "audit_failures (ds_metrics s2) = audit_failures (ds_metrics s)"
    "snd (finish_call N (beside_db P) (audited_dispatcher sink D) route a rn src kid t0 ed s)
       = write_audit (audited_dispatcher sink D) (call_row N P route a rn src kid ed ms) s2"
proof -
  let ?D = "audited_dispatcher sink D"
  let ?lat = "fst (d_perf_counter ?D (ds_world s)) - t0"
  let ?s1 = "s\<lparr>ds_world := snd (d_perf_counter ?D (ds_world s)),
      ds_metrics := call_metrics (pv_type P (rt_provider route)) a (if ed = None then ''ok'' else ''error'') ?lat (ds_metrics s)\<rparr>"
  let ?s2 = "if ed = None then ?s1\<lparr>ds_world := snd (d_clock ?D (ds_world ?s1)),
      ds_metrics := mark_zone_success (nm_to_text N (rt_zone route)) (fst (d_clock ?D (ds_world ?s1))) (ds_metrics ?s1)\<rparr>
    else ?s1"
  show ?thesis
  proof (rule that [of ?s2 "py_int (?lat * 1000)"])
    show "fst (ds_world ?s2) = fst (ds_world s)"
      by (cases "ds_world s") simp
    show "audit_failures (ds_metrics ?s2) = audit_failures (ds_metrics s)"
      by (simp add: call_metrics_def metric_defs Let_def)
    show "snd (finish_call N (beside_db P) ?D route a rn src kid t0 ed s)
       = write_audit ?D (call_row N P route a rn src kid ed (py_int (?lat * 1000))) ?s2"
      by (cases ed) (simp_all add: finish_call_def call_row_def call_result_def Let_def split_beta)
  qed
qed

lemma admit_audited [simp]: "admit N (beside_db P) (audited_dispatcher sink D) msg = admit N P D msg"
  unfolding admit_def by (simp only: beside_db_fields audited_dispatcher_fields)

lemma resolve_audited [simp]: "resolve_tsig_key_id (audited_dispatcher sink D) msg = resolve_tsig_key_id D msg"
  by (simp add: resolve_tsig_key_id_def)

definition called_state ::
  "'n name_ops \<Rightarrow> ('p, 'w) provider_ops \<Rightarrow> ('n, 'p, 'w) dispatcher \<Rightarrow> ('n, 'p) route \<Rightarrow> action \<Rightarrow> 'n rrset \<Rightarrow>
   string list \<Rightarrow> ('d \<times> 'w) dstate \<Rightarrow> ('d \<times> 'w) dstate" where
  "called_state N P D route a rrset vs s =
     (lock_for (record_key N rrset) s)\<lparr>ds_world := (fst (ds_world s),
        snd ((if a = PRESENT then pv_present P else pv_cleanup P) (rt_provider route) (nm_to_text N (rt_zone route))
          (nm_to_text N (rr_name rrset)) vs (snd (d_perf_counter D (snd (ds_world s))))))\<rparr>"

lemma called_state_frame [simp]:
  "fst (ds_world (called_state N P D route a rrset vs s)) = fst (ds_world s)"
  "ds_metrics (called_state N P D route a rrset vs s) = ds_metrics s"
  by (simp_all add: called_state_def)

lemma audited_dispatch:
  assumes "admit N P D msg = Some (route, a, rrset, vs)" and "ds_world s = (d, w)"
  shows "dispatch N (beside_db P) (audited_dispatcher sink D) msg src s =
      (let fin = finish_call N (beside_db P) (audited_dispatcher sink D) route a (nm_to_text N (rr_name rrset)) src
             (resolve_tsig_key_id D msg) (fst (d_perf_counter D w));
           s1 = called_state N P D route a rrset vs s
       in case provider_outcome N P D route a rrset vs w of
            Inl (ProviderError m) \<Rightarrow> fin (Some m) s1 | Inl e \<Rightarrow> (Inl e, s1) | Inr _ \<Rightarrow> fin None s1)"
  using assms
  by (cases a)
     (simp_all add: dispatch_def invoke_provider_def provider_outcome_def called_state_def Let_def split_beta
        split: sum.splits exn.splits)

section \<open>The interface\<close>

text \<open>
  The \<^verbatim>\<open>AuditSink\<close> protocol: a write that returns has appended one row with the content
  of the record, a write that raises has changed nothing, and no write touches anything else.
\<close>

locale audit_sink =
  fixes sink :: "audit_record \<Rightarrow> 'd \<times> 'w \<Rightarrow> unit res \<times> ('d \<times> 'w)"
    and rows :: "'d \<Rightarrow> 'r list" and content :: "'r \<Rightarrow> audit_record" and frame :: "'d \<Rightarrow> 'f"
  assumes write_ok: "sink rec (d, w) = (Inr u, d', w') \<Longrightarrow>
      frame d' = frame d \<and> (\<exists>r. rows d' = rows d @ [r] \<and> content r = rec)"
    and write_error: "sink rec (d, w) = (Inl e, d', w') \<Longrightarrow> d' = d"
begin

definition logged :: "audit_record \<Rightarrow> ('d \<times> 'w) dstate \<Rightarrow> ('d \<times> 'w) dstate \<Rightarrow> bool" where
  "logged rec s s' \<longleftrightarrow>
     frame (fst (ds_world s')) = frame (fst (ds_world s))
     \<and> ((\<exists>r. rows (fst (ds_world s')) = rows (fst (ds_world s)) @ [r] \<and> content r = rec)
          \<and> audit_failures (ds_metrics s') = audit_failures (ds_metrics s)
        \<or> fst (ds_world s') = fst (ds_world s)
          \<and> audit_failures (ds_metrics s') = Suc (audit_failures (ds_metrics s)))"

lemma write_audit_logged: "logged rec s (write_audit (audited_dispatcher sink D) rec s)"
proof -
  obtain d w where w: "ds_world s = (d, w)" by fastforce
  obtain r d' w' where r: "sink rec (d, w) = (r, d', w')" by (cases "sink rec (d, w)") auto
  show ?thesis
    using write_ok [of rec d w _ d' w'] write_error [of rec d w _ d' w'] r
    by (cases r) (auto simp: logged_def write_audit_def w record_audit_failure_def)
qed

lemma logged_frame:
  "logged rec s2 s' \<Longrightarrow> fst (ds_world s2) = fst (ds_world s) \<Longrightarrow>
   audit_failures (ds_metrics s2) = audit_failures (ds_metrics s) \<Longrightarrow> logged rec s s'"
  by (simp add: logged_def)

lemma finish_call_logged:
  "\<exists>ms. logged (call_row N P route a rn src kid ed ms) s
     (snd (finish_call N (beside_db P) (audited_dispatcher sink D) route a rn src kid t0 ed s))"
proof -
  let ?D = "audited_dispatcher sink D"
  obtain ms s2 where
    f: "fst (ds_world s2) = fst (ds_world s)" "audit_failures (ds_metrics s2) = audit_failures (ds_metrics s)"
    and e: "snd (finish_call N (beside_db P) ?D route a rn src kid t0 ed s)
            = write_audit ?D (call_row N P route a rn src kid ed ms) s2"
    by (rule finish_call_write)
  show ?thesis unfolding e using logged_frame [OF write_audit_logged f] by blast
qed

text \<open>The state after a dispatch, by the outcome of the provider call.\<close>

lemma dispatch_logged:
  assumes "admit N P D msg = Some (route, a, rrset, vs)"
  shows "\<exists>ms. let s' = snd (dispatch N (beside_db P) (audited_dispatcher sink D) msg src s)
     in case provider_outcome N P D route a rrset vs (snd (ds_world s)) of
          Inr _ \<Rightarrow> logged (call_row N P route a (nm_to_text N (rr_name rrset)) src (resolve_tsig_key_id D msg) None ms) s s'
        | Inl (ProviderError m) \<Rightarrow>
            logged (call_row N P route a (nm_to_text N (rr_name rrset)) src (resolve_tsig_key_id D msg) (Some m) ms) s s'
        | Inl e \<Rightarrow> fst (ds_world s') = fst (ds_world s) \<and> ds_metrics s' = ds_metrics s"
proof -
  let ?D = "audited_dispatcher sink D" and ?rn = "nm_to_text N (rr_name rrset)"
  let ?kid = "resolve_tsig_key_id D msg" and ?t0 = "fst (d_perf_counter D (snd (ds_world s)))"
  let ?fin = "finish_call N (beside_db P) ?D route a ?rn src ?kid ?t0"
  obtain d w where w: "ds_world s = (d, w)" by fastforce
  define out where "out = provider_outcome N P D route a rrset vs (snd (ds_world s))"
  define s1 where "s1 = called_state N P D route a rrset vs s"
  have d: "dispatch N (beside_db P) ?D msg src s =
      (case out of Inl (ProviderError m) \<Rightarrow> ?fin (Some m) s1 | Inl e \<Rightarrow> (Inl e, s1) | Inr _ \<Rightarrow> ?fin None s1)"
    unfolding out_def s1_def audited_dispatch [OF assms w] unfolding w snd_conv Let_def ..
  have fin: "\<exists>ms. logged (call_row N P route a ?rn src ?kid ed ms) s (snd (?fin ed s1))" for ed
  proof -
    obtain ms where "logged (call_row N P route a ?rn src ?kid ed ms) s1 (snd (?fin ed s1))"
      using finish_call_logged by blast
    from logged_frame [OF this, of s] show ?thesis by (auto simp: s1_def)
  qed
  show ?thesis
  proof (cases "\<exists>e. out = Inl e \<and> (\<forall>m. e \<noteq> ProviderError m)")
    case True
    then show ?thesis unfolding d out_def [symmetric] by (auto simp: s1_def split: exn.splits)
  next
    case False
    then consider "out = Inr ()" | m where "out = Inl (ProviderError m)" by (cases out) auto
    then show ?thesis using fin by cases (simp_all add: d out_def [symmetric])
  qed
qed

end

section \<open>The database sink\<close>

definition record_of_event :: "challenge_event \<Rightarrow> audit_record" where
  "record_of_event ce =
     \<lparr>ar_zone = ce_zone ce, ar_record_name = ce_record_name ce, ar_action = ce_action ce,
      ar_provider = ce_provider ce, ar_result = ce_result ce, ar_latency_ms = ce_latency_ms ce,
      ar_tsig_key_id = ce_tsig_key_id ce, ar_source = ce_source ce, ar_error_detail = ce_error_detail ce\<rparr>"

lemma record_of_event_of_record [simp]: "record_of_event (event_of_record i ts rec) = rec"
  by (simp add: record_of_event_def event_of_record_def)

definition but_events :: "db \<Rightarrow> db" where
  "but_events d = d\<lparr>db_events := []\<rparr>"

interpretation da: audit_sink "db_audit_record E" db_events record_of_event but_events for E
proof unfold_locales
  fix rec d w u d' w'
  assume "db_audit_record E rec (d, w) = (Inr u, d', w')"
  then show "but_events d' = but_events d \<and> (\<exists>r. db_events d' = db_events d @ [r] \<and> record_of_event r = rec)"
    by (auto simp: db_audit_record_def transact_def but_events_def split_beta split: sum.splits)
next
  fix rec d w e d' w'
  assume "db_audit_record E rec (d, w) = (Inl e, d', w')"
  then show "d' = d" by (auto simp: db_audit_record_def transact_def split_beta split: sum.splits)
qed

text \<open>
  No outcome is lost silently. With the database sink, a dispatch that called a provider and
  got an answer appends exactly one event, with the zone, owner, action, provider, result, key id,
  source and error of that call, or it counts one audit failure and leaves the database as it was;
  it changes nothing else in the database either way. A refused message, and a call that ends with
  an exception that is not a ProviderError, leave both the database and the counter alone.
\<close>

theorem dispatch_event_or_counted:
  "let s' = snd (dispatch N (beside_db P) (audited_dispatcher (db_audit_record E) D) msg src s);
       d = fst (ds_world s); d' = fst (ds_world s');
       failed = audit_failures (ds_metrics s); failed' = audit_failures (ds_metrics s');
       written = (\<lambda>route a rrset ed. \<exists>ms r. db_events d' = db_events d @ [r]
          \<and> record_of_event r
              = call_row N P route a (nm_to_text N (rr_name rrset)) src (resolve_tsig_key_id D msg) ed ms)
   in d' = d\<lparr>db_events := db_events d'\<rparr>
    \<and> (case admit N P D msg of
         None \<Rightarrow> d' = d \<and> failed' = failed
       | Some (route, a, rrset, vs) \<Rightarrow>
           (case provider_outcome N P D route a rrset vs (snd (ds_world s)) of
              Inr _ \<Rightarrow> written route a rrset None \<and> failed' = failed \<or> d' = d \<and> failed' = Suc failed
            | Inl (ProviderError m) \<Rightarrow>
                written route a rrset (Some m) \<and> failed' = failed \<or> d' = d \<and> failed' = Suc failed
            | Inl e \<Rightarrow> d' = d \<and> failed' = failed))"
proof (cases "admit N P D msg")
  case None
  then show ?thesis by (simp add: dispatch_def Let_def)
next
  case (Some x)
  obtain route a rrset vs where x: "x = (route, a, rrset, vs)" by (cases x)
  have f: "but_events d' = but_events d \<Longrightarrow> d' = d\<lparr>db_events := db_events d'\<rparr>" for d d'
    by (cases d; cases d') (simp add: but_events_def)
  show ?thesis
    using da.dispatch_logged [OF Some [unfolded x], of E src s] f unfolding da.logged_def Some x
    by (fastforce simp: Let_def split: sum.splits exn.splits)
qed

end
