(* ===== verification/Redaction.thy ===== *)
theory Redaction
  imports Correlation Store "HOL-Library.Sublist"
begin

text \<open>
  \<^verbatim>\<open>logging_config.py\<close>: the redaction of log records. The regular expressions are terms
  of a small datatype with the semantics of Python's backtracking matcher: the matches at a position,
  in the order in which it tries them, of which \<^verbatim>\<open>re.sub\<close> takes the first. Characters are
  those of Latin-1. The rendering of a message with its arguments is an argument of the filter.
\<close>

section \<open>Regular expressions\<close>

text \<open>
  \<open>Run p lo hi\<close> is a greedy repetition of a character class. \<open>Lit\<close> compares without case, as under
  the flag \<^verbatim>\<open>(?i)\<close>; the literals of patterns without the flag have no letters.
\<close>

datatype rx =
    Run "char \<Rightarrow> bool" nat "nat option"
  | Lit string
  | Boundary
  | Alt "rx list"
  | Seq "rx list"
  | Opt rx
  | Grp string rx

definition is_word :: "char \<Rightarrow> bool" where
  "is_word c \<longleftrightarrow>
     (let n = chr_code c
      in 48 \<le> n \<and> n \<le> 57 \<or> 65 \<le> n \<and> n \<le> 90 \<or> n = 95 \<or> 97 \<le> n \<and> n \<le> 122
         \<or> n \<in> {170, 178, 179, 181, 185, 186, 188, 189, 190} \<or> 192 \<le> n \<and> n \<noteq> 215 \<and> n \<noteq> 247)"

definition at_boundary :: "char option \<Rightarrow> string \<Rightarrow> bool" where
  "at_boundary prev s \<longleftrightarrow>
     (case prev of None \<Rightarrow> False | Some c \<Rightarrow> is_word c) \<noteq> (case s of [] \<Rightarrow> False | c # _ \<Rightarrow> is_word c)"

definition last_char :: "char option \<Rightarrow> string \<Rightarrow> char option" where
  "last_char prev u = (if u = [] then prev else Some (last u))"

type_synonym groups = "(string \<times> string) list"

fun matches :: "rx \<Rightarrow> char option \<Rightarrow> string \<Rightarrow> (string \<times> groups) list" where
  "matches (Run p lo hi) prev s =
     (let n = length (takeWhile p s); m = (case hi of None \<Rightarrow> n | Some h \<Rightarrow> min n h)
      in map (\<lambda>k. (take k s, [])) (rev [lo..<Suc m]))"
| "matches (Lit t) prev s =
     (if length t \<le> length s \<and> py_lower (take (length t) s) = py_lower t then [(take (length t) s, [])] else [])"
| "matches Boundary prev s = (if at_boundary prev s then [([], [])] else [])"
| "matches (Alt rs) prev s = concat (map (\<lambda>r. matches r prev s) rs)"
| "matches (Seq []) prev s = [([], [])]"
| "matches (Seq (r # rs)) prev s =
     concat (map (\<lambda>(u, g). map (\<lambda>(v, h). (u @ v, g @ h)) (matches (Seq rs) (last_char prev u) (drop (length u) s)))
       (matches r prev s))"
| "matches (Opt r) prev s = matches r prev s @ [([], [])]"
| "matches (Grp n r) prev s = map (\<lambda>(u, g). (u, (n, u) # g)) (matches r prev s)"

text \<open>
  \<^verbatim>\<open>pattern.sub\<close>. A text that was matched is replaced and skipped; where nothing (or only the
  empty text, which the patterns here never match) matches, the character is copied.
\<close>

function re_sub :: "rx \<Rightarrow> (groups \<Rightarrow> string) \<Rightarrow> char option \<Rightarrow> string \<Rightarrow> string" where
  "re_sub r repl prev [] = []"
| "re_sub r repl prev (c # s) =
     (case matches r prev (c # s) of
        [] \<Rightarrow> c # re_sub r repl (Some c) s
      | (u, g) # _ \<Rightarrow>
          if u = [] then c # re_sub r repl (Some c) s
          else repl g @ re_sub r repl (last_char prev u) (drop (length u) (c # s)))"
  by pat_completeness auto
termination by (relation "measure (\<lambda>(r, repl, prev, s). length s)") auto

section \<open>The patterns\<close>

definition REDACTED :: string where "REDACTED = ''<REDACTED>''"

definition group :: "groups \<Rightarrow> string \<Rightarrow> string" where
  "group g n = (case map_of g n of Some t \<Rightarrow> t | None \<Rightarrow> [])"

abbreviation not_in :: "string \<Rightarrow> char \<Rightarrow> bool" where
  "not_in cs c \<equiv> c \<notin> set cs"

definition is_base64 :: "char \<Rightarrow> bool" where
  "is_base64 c \<longleftrightarrow>
     (let n = chr_code c
      in 65 \<le> n \<and> n \<le> 90 \<or> 97 \<le> n \<and> n \<le> 122 \<or> 48 \<le> n \<and> n \<le> 57) \<or> c \<in> set ''+/_-''"

definition dsn_pattern :: rx where
  "dsn_pattern = Seq
     [Grp ''pre'' (Seq [Lit ''://'', Run (\<lambda>c. \<not> is_space c \<and> not_in '':/@'' c) 1 None, Lit '':'']),
      Run (\<lambda>c. \<not> is_space c \<and> not_in ''@/'' c) 1 None, Grp ''at'' (Lit ''@'')]"

definition header_pattern :: rx where
  "header_pattern = Seq
     [Grp ''name'' (Seq [Boundary, Alt [Lit ''authorization'', Lit ''proxy-authorization'', Lit ''x-api-key'',
        Seq [Lit ''api'', Run (\<lambda>c. c \<in> set ''_-'') 0 (Some 1), Lit ''key''], Lit ''cookie'', Lit ''set-cookie'']]),
      Grp ''sep'' (Seq [Run is_space 0 None, Run (\<lambda>c. c \<in> set '':='') 1 (Some 1), Run is_space 0 None]),
      Opt (Alt [Seq [Lit ''bearer'', Run is_space 1 None], Seq [Lit ''basic'', Run is_space 1 None]]),
      Run (\<lambda>c. \<not> is_space c \<and> not_in '',;'' c) 1 None]"

definition bearer_pattern :: rx where
  "bearer_pattern = Seq
     [Boundary, Grp ''scheme'' (Alt [Lit ''bearer'', Lit ''basic'']), Run is_space 1 None,
      Run (\<lambda>c. is_base64 c \<or> c \<in> set ''.~='') 8 None]"

definition word_dot_dash :: "char \<Rightarrow> bool" where
  "word_dot_dash c \<longleftrightarrow> is_word c \<or> c \<in> set ''.-''"

definition assignment_pattern :: rx where
  "assignment_pattern = Seq
     [Grp ''key'' (Seq [Boundary, Run word_dot_dash 0 None,
        Alt [Lit ''password'', Lit ''passwd'', Lit ''secret'', Lit ''credential'', Lit ''kek'', Lit ''token'',
          Seq [Lit ''api'', Run (\<lambda>c. c \<in> set ''_-'') 0 (Some 1), Lit ''key'']],
        Run word_dot_dash 0 None]),
      Grp ''sep'' (Seq [Run is_space 0 None, Lit ''='', Run is_space 0 None]),
      Run (\<lambda>c. c = char_of (34 :: nat) \<or> c = char_of (39 :: nat)) 0 (Some 1),
      Run (\<lambda>c. \<not> is_space c \<and> c \<noteq> char_of (34 :: nat) \<and> c \<noteq> char_of (39 :: nat) \<and> not_in '',;'' c) 1 None,
      Run (\<lambda>c. c = char_of (34 :: nat) \<or> c = char_of (39 :: nat)) 0 (Some 1)]"

definition base64_pattern :: rx where
  "base64_pattern = Seq [Run is_base64 40 None, Run (\<lambda>c. c = CHR ''='') 0 (Some 2)]"

definition VALUE_PATTERNS :: "(rx \<times> (groups \<Rightarrow> string)) list" where
  "VALUE_PATTERNS =
     [(dsn_pattern, \<lambda>g. group g ''pre'' @ REDACTED @ group g ''at''),
      (header_pattern, \<lambda>g. group g ''name'' @ group g ''sep'' @ REDACTED),
      (bearer_pattern, \<lambda>g. group g ''scheme'' @ '' '' @ REDACTED),
      (assignment_pattern, \<lambda>g. group g ''key'' @ group g ''sep'' @ REDACTED),
      (base64_pattern, \<lambda>g. REDACTED)]"

definition scrub_value :: "string \<Rightarrow> string" where
  "scrub_value text = fold (\<lambda>(pattern, replacement) t. re_sub pattern replacement None t) VALUE_PATTERNS text"

section \<open>Log records\<close>

definition DENY_FIELD_FRAGMENTS :: "string list" where
  "DENY_FIELD_FRAGMENTS =
     [''password'', ''passwd'', ''secret'', ''token'', ''credential'', ''kek'', ''dsn'', ''authorization'',
      ''api_key'', ''apikey'', ''x_api_key'', ''cookie'', ''he_dynamic_key'', ''dynamic_key'', ''private_key'',
      ''tsig_secret'', ''session_secret'', ''password_hash'', ''bearer'', ''passphrase'']"

definition ALLOW_FIELDS :: "string list" where
  "ALLOW_FIELDS =
     [''key_name'', ''tsig_key_name'', ''key_id'', ''tsig_key_id'', ''token_count'', ''token_type'', ''public_key'']"

text \<open>The attributes of a fresh \<^verbatim>\<open>LogRecord\<close>, and three more.\<close>

definition RESERVED_ATTRS :: "string list" where
  "RESERVED_ATTRS =
     [''name'', ''msg'', ''args'', ''levelname'', ''levelno'', ''pathname'', ''filename'', ''module'', ''exc_info'',
      ''exc_text'', ''stack_info'', ''lineno'', ''funcName'', ''created'', ''msecs'', ''relativeCreated'', ''thread'',
      ''threadName'', ''processName'', ''process'', ''message'', ''asctime'', ''taskName'']"

definition is_secret_key :: "string \<Rightarrow> bool" where
  "is_secret_key name =
     (let normalized = replace_char (CHR ''-'') ''_'' (py_lower name)
      in if normalized \<in> set ALLOW_FIELDS then False
         else list_ex (\<lambda>fragment. sublist fragment normalized) DENY_FIELD_FRAGMENTS)"

definition redact_mapping :: "(string \<times> pyval) list \<Rightarrow> (string \<times> pyval) list" where
  "redact_mapping m = map (\<lambda>(key, v). (key, if is_secret_key key then PStr REDACTED else v)) m"

datatype log_args = ArgsMapping "(string \<times> pyval) list" | ArgsTuple "pyval list"

text \<open>
  A log record: its attributes other than the message and the arguments are \<open>lr_attrs\<close>, the reserved
  ones and the extras. The exception that \<^verbatim>\<open>exc_info\<close> carries is kept as its formatted text.
\<close>

record log_record =
  lr_logger :: string
  lr_levelname :: string
  lr_msg :: string
  lr_args :: log_args
  lr_attrs :: "(string \<times> pyval) list"
  lr_exception :: "string option"

definition redact_attr :: "string \<times> pyval \<Rightarrow> string \<times> pyval" where
  "redact_attr kv =
     (case kv of (key, v) \<Rightarrow>
        if key \<in> set RESERVED_ATTRS then (key, v)
        else if is_secret_key key then (key, PStr REDACTED)
        else (case v of PStr s \<Rightarrow> (key, PStr (scrub_value s)) | _ \<Rightarrow> (key, v)))"

definition redact_args :: "log_args \<Rightarrow> log_args" where
  "redact_args args =
     (case args of
        ArgsMapping m \<Rightarrow> ArgsMapping (redact_mapping m)
      | ArgsTuple vs \<Rightarrow> ArgsTuple (map (\<lambda>v. case v of PDict m \<Rightarrow> PDict (redact_mapping m) | _ \<Rightarrow> v) vs))"

text \<open>The filter; \<open>render\<close> is \<^verbatim>\<open>getMessage\<close>, which raises when the arguments do not fit.\<close>

definition redaction_filter ::
  "(string \<Rightarrow> log_args \<Rightarrow> string res) \<Rightarrow> log_record \<Rightarrow> bool res \<times> log_record" where
  "redaction_filter render r =
     (let r1 = r\<lparr>lr_attrs := map redact_attr (lr_attrs r)\<rparr>;
          r2 = r1\<lparr>lr_args := redact_args (lr_args r1)\<rparr>
      in case render (lr_msg r2) (lr_args r2) of
           Inl e \<Rightarrow> (Inl e, r2)
         | Inr text \<Rightarrow> (Inr True, r2\<lparr>lr_msg := scrub_value text, lr_args := ArgsTuple []\<rparr>))"

text \<open>\<^verbatim>\<open>JsonFormatter.format\<close>: the payload that is dumped. The message has no arguments left.\<close>

definition format_payload :: "string \<Rightarrow> log_record \<Rightarrow> (string \<times> pyval) list" where
  "format_payload ts r =
     [(''ts'', PStr ts), (''level'', PStr (lr_levelname r)), (''logger'', PStr (lr_logger r)),
      (''correlation_id'', case map_of (lr_attrs r) ''correlation_id'' of Some v \<Rightarrow> v | None \<Rightarrow> PNone),
      (''message'', PStr (lr_msg r))]
     @ (case lr_exception r of Some text \<Rightarrow> [(''exc_info'', PStr text)] | None \<Rightarrow> [])"

text \<open>The handler: the correlation id is stamped first, then the record is redacted and formatted.\<close>

definition stamp_correlation :: "correlation \<Rightarrow> log_record \<Rightarrow> log_record" where
  "stamp_correlation ctx r =
     r\<lparr>lr_attrs := AList.update ''correlation_id'' (PStr (correlation_filter ctx)) (lr_attrs r)\<rparr>"

definition emit_payload ::
  "(string \<Rightarrow> log_args \<Rightarrow> string res) \<Rightarrow> correlation \<Rightarrow> string \<Rightarrow> log_record \<Rightarrow> (string \<times> pyval) list res" where
  "emit_payload render ctx ts r =
     (case redaction_filter render (stamp_correlation ctx r) of
        (Inl e, _) \<Rightarrow> Inl e
      | (Inr _, r') \<Rightarrow> Inr (format_payload ts r'))"

section \<open>Long tokens\<close>

definition lead :: "string \<Rightarrow> nat" where
  "lead s = length (takeWhile is_base64 s)"

fun run_free :: "string \<Rightarrow> bool" where
  "run_free [] = True"
| "run_free (c # s) = (lead (c # s) < 40 \<and> run_free s)"

lemma lead_simps [simp]: "lead [] = 0" "lead (c # s) = (if is_base64 c then Suc (lead s) else 0)"
  by (simp_all add: lead_def)

lemma run_free_infix:
  assumes "run_free (u @ v @ w)" and "list_all is_base64 v"
  shows "length v < 40"
proof -
  have "run_free (v @ w)" using assms(1) by (induction u) auto
  moreover have "length v \<le> lead (v @ w)" using assms(2) by (simp add: lead_def list_all_iff takeWhile_append2)
  ultimately show ?thesis by (cases "v @ w") auto
qed

lemma run_free_sep:
  assumes "run_free t" and "\<not> is_base64 x" and "length a < 40"
  shows "run_free (a @ x # t)"
proof -
  have "lead (a @ x # t) \<le> length a" for a using assms(2) by (induction a) auto
  then show ?thesis using assms by (induction a) (auto simp: less_Suc_eq_le intro: le_less_trans)
qed

lemma run_free_REDACTED: "run_free t \<Longrightarrow> run_free (REDACTED @ t)" "lead (REDACTED @ t) = 0"
proof -
  have eq: "REDACTED @ t = ''<REDACTED'' @ CHR ''>'' # t" by (simp add: REDACTED_def)
  show "run_free t \<Longrightarrow> run_free (REDACTED @ t)" unfolding eq by (rule run_free_sep) (simp_all add: is_base64_def)
  show "lead (REDACTED @ t) = 0" by (simp add: REDACTED_def is_base64_def)
qed

lemma matches_base64_short: "lead s < 40 \<Longrightarrow> matches base64_pattern prev s = []"
  by (simp add: base64_pattern_def lead_def Let_def)

lemma matches_base64_long:
  assumes "40 \<le> lead s"
  shows "\<exists>u g ms. matches base64_pattern prev s = (u, g) # ms \<and> u \<noteq> []"
proof -
  let ?n = "lead s"
  have r: "rev [40..<Suc ?n] = ?n # rev [40..<?n]" using assms by simp
  have len: "?n \<le> length s" by (simp add: lead_def length_takeWhile_le)
  have ne: "take ?n s \<noteq> []" using assms len by auto
  obtain e es where e: "matches (Run (\<lambda>c. c = CHR ''='') 0 (Some 2)) (last_char prev (take ?n s)) (drop ?n s) = e # es"
    by (simp add: Let_def)
  have "matches (Run is_base64 40 None) prev s = (take ?n s, []) # map (\<lambda>k. (take k s, [])) (rev [40..<?n])"
    by (simp add: Let_def lead_def [symmetric] r del: upt_Suc)
  then show ?thesis using e ne len by (simp add: base64_pattern_def min_absorb2 split_beta del: matches.simps(1))
qed

lemma re_sub_base64_run_free: "run_free (re_sub base64_pattern (\<lambda>g. REDACTED) prev s)
    \<and> lead (re_sub base64_pattern (\<lambda>g. REDACTED) prev s) \<le> (if lead s < 40 then lead s else 0)"
proof (induction "length s" arbitrary: prev s rule: less_induct)
  case less
  let ?sub = "re_sub base64_pattern (\<lambda>g. REDACTED)"
  show ?case
  proof (cases s)
    case (Cons c s')
    show ?thesis
    proof (cases "lead s < 40")
      case True
      then have e: "?sub prev s = c # ?sub (Some c) s'"
        using matches_base64_short [of s prev] by (simp add: Cons)
      have IH: "run_free (?sub (Some c) s')" "lead (?sub (Some c) s') \<le> (if lead s' < 40 then lead s' else 0)"
        using less [of s' "Some c"] by (simp_all add: Cons)
      have "lead (c # ?sub (Some c) s') \<le> lead (c # s')" using IH(2) True by (simp add: Cons split: if_splits)
      then have "lead (?sub prev s) \<le> lead s" unfolding e Cons [symmetric] .
      then show ?thesis using True IH(1) by (simp add: e del: lead_simps(2))
    next
      case False
      then obtain u g ms where m: "matches base64_pattern prev s = (u, g) # ms" "u \<noteq> []"
        using matches_base64_long [of s prev] by auto
      then have e: "?sub prev s = REDACTED @ ?sub (last_char prev u) (drop (length u) s)" by (simp add: Cons)
      have "length (drop (length u) s) < length s" using m(2) Cons by simp
      then have "run_free (?sub (last_char prev u) (drop (length u) s))" using less by blast
      then show ?thesis using False run_free_REDACTED unfolding e by simp
    qed
  qed simp
qed

lemma scrub_value_run_free: "run_free (scrub_value text)"
  using re_sub_base64_run_free by (simp add: scrub_value_def VALUE_PATTERNS_def)

text \<open>A text with a run of forty base64 characters does not occur in a scrubbed one.\<close>

lemma long_token_scrubbed:
  assumes "list_all is_base64 (take 40 token)" and "40 \<le> length token"
  shows "\<not> sublist token (scrub_value t)"
proof
  assume "sublist token (scrub_value t)"
  then obtain u w where "scrub_value t = u @ take 40 token @ (drop 40 token @ w)"
    by (metis append.assoc append_take_drop_id sublist_def)
  with run_free_infix assms scrub_value_run_free [of t] show False by (metis length_take min_absorb2 less_irrefl)
qed

lemma b64_char_base64: "n < 64 \<Longrightarrow> is_base64 (b64_char n)"
proof -
  have "list_all is_base64 ''ABCDEFGHIJKLMNOPQRSTUVWXYZabcdefghijklmnopqrstuvwxyz0123456789+/''" by code_simp
  moreover have "length ''ABCDEFGHIJKLMNOPQRSTUVWXYZabcdefghijklmnopqrstuvwxyz0123456789+/'' = 64" by simp
  ultimately show "n < 64 \<Longrightarrow> is_base64 (b64_char n)" unfolding b64_char_def list_all_length by metis
qed

lemma u8_bound: "unat (x :: u8) < 256"
  using unsigned_less [of x] by simp

lemma take_four: "take (4 * Suc n) (a # b # c # d # xs) = a # b # c # d # take (4 * n) xs"
  by (simp add: eval_nat_numeral)

lemma b64encode_groups:
  "length b = 3 * n + m \<Longrightarrow> list_all is_base64 (take (4 * n) (b64encode b)) \<and> 4 * n \<le> length (b64encode b)"
proof (induction n arbitrary: b)
  case (Suc n)
  then obtain x y z bs where b: "b = x # y # z # bs" "length bs = 3 * n + m"
    by (cases b; cases "tl b"; cases "tl (tl b)") auto
  have "unat x * 65536 + unat y * 256 + unat z < 16777216"
    using u8_bound [of x] u8_bound [of y] u8_bound [of z] by linarith
  then show ?case using Suc.IH [OF b(2)] 
    by (simp add: b(1) Let_def b64_char_base64 take_four del: mult_Suc_right) simp
qed simp

lemma redact_attr_key [simp]: "fst (redact_attr kv) = fst kv"
  by (auto simp: redact_attr_def split: prod.splits pyval.splits)

lemma redaction_filter_Inr:
  assumes "redaction_filter render r = (Inr ok, r')"
  obtains t where "lr_msg r' = scrub_value t" and "lr_attrs r' = map redact_attr (lr_attrs r)"
    and "lr_exception r' = lr_exception r"
  using assms by (auto simp: redaction_filter_def Let_def split: sum.splits)

lemma redact_attr_cases:
  assumes "(key, v) = redact_attr kv" and "key \<notin> set RESERVED_ATTRS"
  shows "is_secret_key key \<Longrightarrow> v = PStr REDACTED"
    and "v = PStr t \<Longrightarrow> t = REDACTED \<or> (\<exists>s. t = scrub_value s)"
  using assms by (auto simp: redact_attr_def split: prod.splits pyval.splits if_splits)

text \<open>
  C15: what the filter hides in the message and in the extra attributes of a record. After the filter every
  extra attribute with a secret name is masked, and neither the message nor any extra attribute that is a
  string contains a token whose first forty characters are of the base64 alphabets; in particular the message
  contains no TSIG secret that the API has minted from 32 random octets, whatever the format string and
  the arguments were. The reserved attributes of a record are not scrubbed, and neither is the text of an exception
  (\<open>exception_text_verbatim\<close>).
\<close>

theorem redaction_hides_secrets:
  assumes "redaction_filter render r = (Inr ok, r')"
  shows "(\<forall>key v. (key, v) \<in> set (lr_attrs r') \<and> key \<notin> set RESERVED_ATTRS \<and> is_secret_key key \<longrightarrow> v = PStr REDACTED)
     \<and> (\<forall>token t. 40 \<le> length token \<and> list_all is_base64 (take 40 token)
          \<and> (t = lr_msg r' \<or> (\<exists>key. key \<notin> set RESERVED_ATTRS \<and> (key, PStr t) \<in> set (lr_attrs r'))) \<longrightarrow> \<not> sublist token t)
     \<and> (\<forall>b. length b = 32 \<longrightarrow> \<not> sublist (b64encode b) (lr_msg r'))"
proof -
  obtain t where r': "lr_msg r' = scrub_value t" "lr_attrs r' = map redact_attr (lr_attrs r)"
    by (rule redaction_filter_Inr [OF assms])
  have attr: "\<exists>kv. kv \<in> set (lr_attrs r) \<and> (key, v) = redact_attr kv" if "(key, v) \<in> set (lr_attrs r')" for key v
    using that unfolding r' by auto
  have short: "\<not> sublist token REDACTED" if "40 \<le> length token" for token
    using that sublist_length_le [of token REDACTED] by (auto simp: REDACTED_def)
  have "\<not> sublist token u" if "40 \<le> length token" "list_all is_base64 (take 40 token)"
      "u = lr_msg r' \<or> (\<exists>key. key \<notin> set RESERVED_ATTRS \<and> (key, PStr u) \<in> set (lr_attrs r'))" for token u
    using that long_token_scrubbed [of token] short attr redact_attr_cases(2) r'(1) by metis
  moreover have "\<not> sublist (b64encode b) (lr_msg r')" if "length b = 32" for b
    using b64encode_groups [of b 10 2] that long_token_scrubbed [of "b64encode b"] r'(1) by simp
  ultimately show ?thesis using attr redact_attr_cases(1) by metis
qed

section \<open>Secret-named values do not matter\<close>

definition same_entry :: "(string \<Rightarrow> bool) \<Rightarrow> string \<times> pyval \<Rightarrow> string \<times> pyval \<Rightarrow> bool" where
  "same_entry hidden kv kv' \<longleftrightarrow> fst kv = fst kv' \<and> (hidden (fst kv) \<or> snd kv = snd kv')"

definition same_item :: "pyval \<Rightarrow> pyval \<Rightarrow> bool" where
  "same_item v v' \<longleftrightarrow>
     v = v' \<or> (\<exists>m m'. v = PDict m \<and> v' = PDict m' \<and> list_all2 (same_entry is_secret_key) m m')"

definition same_args :: "log_args \<Rightarrow> log_args \<Rightarrow> bool" where
  "same_args a a' \<longleftrightarrow>
     (\<exists>m m'. a = ArgsMapping m \<and> a' = ArgsMapping m' \<and> list_all2 (same_entry is_secret_key) m m')
     \<or> (\<exists>vs vs'. a = ArgsTuple vs \<and> a' = ArgsTuple vs' \<and> list_all2 same_item vs vs')"

definition hidden_attr :: "string \<Rightarrow> bool" where
  "hidden_attr key \<longleftrightarrow> key \<notin> set RESERVED_ATTRS \<and> is_secret_key key"

text \<open>Records that agree except for the values under secret names.\<close>

definition log_equiv :: "log_record \<Rightarrow> log_record \<Rightarrow> bool" where
  "log_equiv r r' \<longleftrightarrow>
     lr_logger r = lr_logger r' \<and> lr_levelname r = lr_levelname r' \<and> lr_msg r = lr_msg r'
     \<and> lr_exception r = lr_exception r' \<and> list_all2 (same_entry hidden_attr) (lr_attrs r) (lr_attrs r')
     \<and> same_args (lr_args r) (lr_args r')"

lemma map_cong2: "list_all2 R xs ys \<Longrightarrow> (\<And>x y. R x y \<Longrightarrow> f x = f y) \<Longrightarrow> map f xs = map f ys"
  by (induction rule: list_all2_induct) auto

lemma redact_mapping_cong: "list_all2 (same_entry is_secret_key) m m' \<Longrightarrow> redact_mapping m = redact_mapping m'"
  unfolding redact_mapping_def by (erule map_cong2) (auto simp: same_entry_def split: prod.splits)

lemma redact_item_cong:
  "same_item v v' \<Longrightarrow> (case v of PDict m \<Rightarrow> PDict (redact_mapping m) | _ \<Rightarrow> v) = (case v' of PDict m \<Rightarrow> PDict (redact_mapping m) | _ \<Rightarrow> v')"
  by (auto simp: same_item_def redact_mapping_cong)

lemma redact_args_cong: "same_args a a' \<Longrightarrow> redact_args a = redact_args a'"
  by (auto simp: same_args_def redact_args_def redact_mapping_cong intro!: map_cong2 redact_item_cong)

lemma redact_attr_cong: "same_entry hidden_attr kv kv' \<Longrightarrow> redact_attr kv = redact_attr kv'"
  by (cases kv; cases kv') (auto simp: same_entry_def hidden_attr_def redact_attr_def)

lemma update_same:
  "list_all2 (same_entry h) xs ys \<Longrightarrow> list_all2 (same_entry h) (AList.update k v xs) (AList.update k v ys)"
  by (induction rule: list_all2_induct) (auto simp: same_entry_def)

text \<open>
  What is stored under a secret name does not influence the log. Two records that agree except for
  the values of secret-named extra attributes and of secret-named keys of mapping arguments are
  emitted alike: the same line, or the same error, under every rendering of messages.
\<close>

theorem redaction_noninterference:
  assumes "log_equiv r r'"
  shows "emit_payload render ctx ts r = emit_payload render ctx ts r'"
proof -
  have "map redact_attr (lr_attrs (stamp_correlation ctx r)) = map redact_attr (lr_attrs (stamp_correlation ctx r'))"
    using assms unfolding log_equiv_def stamp_correlation_def
    by (intro map_cong2 [of "same_entry hidden_attr"]) (auto intro: update_same redact_attr_cong)
  moreover have "redact_args (lr_args r) = redact_args (lr_args r')"
    using assms by (simp add: log_equiv_def redact_args_cong)
  ultimately show ?thesis
    using assms by (simp add: emit_payload_def redaction_filter_def stamp_correlation_def log_equiv_def format_payload_def
        Let_def split: sum.splits)
qed

text \<open>The text of an exception is not redacted.\<close>

lemma exception_text_verbatim:
  assumes "emit_payload render ctx ts r = Inr payload" and "lr_exception r = Some t"
  shows "(''exc_info'', PStr t) \<in> set payload"
  using assms by (auto simp: emit_payload_def stamp_correlation_def format_payload_def split: prod.splits sum.splits
      elim!: redaction_filter_Inr)

section \<open>A sample record\<close>

definition sample_log :: "string \<Rightarrow> log_record" where
  "sample_log secret =
     \<lparr>lr_logger = ''astropath'', lr_levelname = ''INFO'', lr_msg = ''created key'', lr_args = ArgsTuple [],
      lr_attrs = [(''name'', PStr ''astropath''), (''tsig_secret'', PStr secret), (''key_name'', PStr ''k'')],
      lr_exception = None\<rparr>"

definition sample_render :: "string \<Rightarrow> log_args \<Rightarrow> string res" where
  "sample_render msg args = Inr msg"

lemma sample_secret_name: "is_secret_key ''tsig_secret''" "''tsig_secret'' \<notin> set RESERVED_ATTRS"
  by code_simp+

theorem redaction_hides_secrets_witness:
  "\<not> sublist (b64encode (replicate 32 7)) (lr_msg (snd (redaction_filter sample_render (sample_log ''A''))))"
proof -
  obtain r' where e: "redaction_filter sample_render (sample_log ''A'') = (Inr True, r')"
    by (simp add: redaction_filter_def sample_render_def Let_def)
  have "length (replicate 32 (7 :: u8)) = 32" by simp
  then have "\<not> sublist (b64encode (replicate 32 7)) (lr_msg r')" using redaction_hides_secrets [OF e] by blast
  then show ?thesis by (simp add: e)
qed

theorem redaction_noninterference_witness:
  "emit_payload sample_render None ''now'' (sample_log ''A'') = emit_payload sample_render None ''now'' (sample_log ''B'')"
proof -
  have "log_equiv (sample_log ''A'') (sample_log ''B'')"
    using sample_secret_name by (simp add: log_equiv_def sample_log_def same_args_def same_entry_def hidden_attr_def)
  then show ?thesis by (rule redaction_noninterference)
qed

end
