(* ===== verification/ApiBase.thy ===== *)
theory ApiBase
  imports Cache RateLimit Rotation
begin

text \<open>
  What the handlers of the management API share: requests and answers, the resources of
  \<^verbatim>\<open>api/deps.py\<close>, the session marker of \<^verbatim>\<open>api/session.py\<close> and the origin check
  of \<^verbatim>\<open>api/csrf.py\<close>. FastAPI and Starlette are outside the repository: a request comes with
  its header names in lower case, its parsed cookies, and the session that SessionMiddleware
  restored from the signed cookie (empty when the signature or the age is not right).
\<close>

section \<open>Requests and answers\<close>

type_synonym session = "(string \<times> pyval) list"

record request =
  rq_method :: string
  rq_path :: string
  rq_headers :: "(string \<times> string) list"
  rq_cookies :: "(string \<times> string) list"
  rq_client :: "string option"
  rq_session :: session

text \<open>
  The end of a handler: a status with a body, an HTTPException (status, detail, headers), a body or
  parameter that the request schema rejects (FastAPI answers 422), or any other exception (500).
\<close>

datatype 'a handled =
    Answer int 'a
  | HttpError int pyval "(string \<times> string) list"
  | RequestInvalid
  | Raise exn

definition status :: "'a handled \<Rightarrow> int" where
  "status r = (case r of Answer c _ \<Rightarrow> c | HttpError c _ _ \<Rightarrow> c | RequestInvalid \<Rightarrow> 422 | Raise _ \<Rightarrow> 500)"

definition http_error :: "int \<Rightarrow> string \<Rightarrow> 'a handled" where
  "http_error code detail = HttpError code (PStr detail) []"

text \<open>Going on with the value of a call that may raise or end the request.\<close>

definition and_then :: "'a handled \<times> 's \<Rightarrow> (int \<Rightarrow> 'a \<Rightarrow> 's \<Rightarrow> 'b handled \<times> 's) \<Rightarrow> 'b handled \<times> 's" where
  "and_then m f =
     (case m of
        (Answer c x, s) \<Rightarrow> f c x s
      | (HttpError c d hs, s) \<Rightarrow> (HttpError c d hs, s)
      | (RequestInvalid, s) \<Rightarrow> (RequestInvalid, s)
      | (Raise e, s) \<Rightarrow> (Raise e, s))"

definition IntegrityError :: exn where
  "IntegrityError = OtherError ''IntegrityError''"

section \<open>Resources\<close>

text \<open>
  The environment: what the handlers call outside the API package: the loader of the routing cache
  and what is outside the repository; \<open>ae_validation_errors\<close> are the errors of an exception
  that is a pydantic ValidationError, and nothing for any other. The resources are those that \<^verbatim>\<open>main\<close> injects; the state holds the
  objects that requests change.
\<close>

record validation_error =
  ve_loc :: "pyval list"
  ve_msg :: string
  ve_type :: string
  ve_input :: pyval

record ('n, 'f, 'w) api_env =
  ae_loader :: "db \<Rightarrow> 'n snapshot res"
  ae_validators :: validators
  ae_validation_errors :: "exn \<Rightarrow> validation_error list option"
  ae_fernet :: "('f, 'w) fernet_ops"
  ae_db :: "'w db_env"
  ae_sha256_hex :: "bytes \<Rightarrow> string"
  ae_argon2 :: "'w argon2"
  ae_token_urlsafe :: "'w \<Rightarrow> string \<times> 'w"
  ae_token_bytes :: "'w \<Rightarrow> bytes \<times> 'w"
  ae_monotonic :: "'w \<Rightarrow> real \<times> 'w"
  ae_time :: "'w \<Rightarrow> real \<times> 'w"
  ae_json_schema :: "provider_class \<Rightarrow> pyval"

record 'f app_resources =
  rs_admin_password_hash :: string
  rs_management_origin :: "string option"
  rs_has_database :: bool
  rs_kek :: "'f kek option"

record ('n, 'w) api_state =
  as_db :: db
  as_cache :: "'n routing_cache option"
  as_limiter :: login_limiter
  as_world :: 'w

definition get_session :: "'f app_resources \<Rightarrow> unit res" where
  "get_session R =
     (if rs_has_database R then Inr ()
      else Inl (RuntimeError ''database is not configured for this app instance''))"

definition get_kek :: "'f app_resources \<Rightarrow> 'f kek res" where
  "get_kek R =
     (case rs_kek R of
        Some kek \<Rightarrow> Inr kek
      | None \<Rightarrow> Inl (RuntimeError ''credential KEK is not configured for this app instance''))"

text \<open>A refresh that fails is logged only.\<close>

definition refresh_routing_cache ::
  "('n, 'f, 'w) api_env \<Rightarrow> ('n, 'w) api_state \<Rightarrow> ('n, 'w) api_state" where
  "refresh_routing_cache E st =
     (case as_cache st of
        None \<Rightarrow> st
      | Some c \<Rightarrow> (let (_, c') = cache_refresh (ae_loader E (as_db st)) c in st\<lparr>as_cache := Some c'\<rparr>))"

text \<open>A commit of the request's session.\<close>

definition commit_session ::
  "('n, 'f, 'w) api_env \<Rightarrow> db \<Rightarrow> ('n, 'w) api_state \<Rightarrow> unit res \<times> ('n, 'w) api_state" where
  "commit_session E new st =
     (let (r, d, w) = transact (ae_db E) (as_db st) new (as_world st) in (r, st\<lparr>as_db := d, as_world := w\<rparr>))"

definition next_id :: "('n, 'f, 'w) api_env \<Rightarrow> ('n, 'w) api_state \<Rightarrow> int \<times> ('n, 'w) api_state" where
  "next_id E st = (let (i, w) = de_next_id (ae_db E) (as_world st) in (i, st\<lparr>as_world := w\<rparr>))"

section \<open>The session marker\<close>

definition SESSION_COOKIE :: string where "SESSION_COOKIE = ''session''"

definition mark_admin :: "real \<Rightarrow> session \<Rightarrow> session" where
  "mark_admin now s = AList.update ''iat'' (PInt (py_int now)) (AList.update ''admin'' (PBool True) s)"

definition session_is_admin :: "session \<Rightarrow> bool" where
  "session_is_admin s \<longleftrightarrow> map_of s ''admin'' = Some (PBool True)"

definition clear_session :: "session \<Rightarrow> session" where
  "clear_session s = []"

section \<open>The origin check\<close>

definition SAFE_METHODS :: "string list" where
  "SAFE_METHODS = [''GET'', ''HEAD'', ''OPTIONS'', ''TRACE'']"

text \<open>
  \<^verbatim>\<open>urllib.parse.urlsplit\<close> as far as the scheme and the network location: leading control
  characters and spaces are dropped, tabs and line ends are removed, a scheme is a letter followed by
  letters, digits, plus, minus and dots up to the first colon, and the location ends at the first
  slash, question mark or number sign. A location with one kind of bracket only raises; the
  further checks of a location (bracketed addresses, normalisation) are the argument.
\<close>

definition url_alpha :: "char \<Rightarrow> bool" where
  "url_alpha c \<longleftrightarrow> (let n = chr_code c in 65 \<le> n \<and> n \<le> 90 \<or> 97 \<le> n \<and> n \<le> 122)"

definition url_scheme_char :: "char \<Rightarrow> bool" where
  "url_scheme_char c \<longleftrightarrow>
     url_alpha c \<or> (48 \<le> chr_code c \<and> chr_code c \<le> 57) \<or> c \<in> {CHR ''+'', CHR ''-'', CHR ''.''}"

definition url_clean :: "string \<Rightarrow> string" where
  "url_clean url = filter (\<lambda>c. chr_code c \<notin> {9, 10, 13}) (dropWhile (\<lambda>c. chr_code c \<le> 32) url)"

definition split_scheme :: "string \<Rightarrow> string \<times> string" where
  "split_scheme url =
     (let s = takeWhile (\<lambda>c. c \<noteq> CHR '':'') url
      in if s \<noteq> [] \<and> length s < length url \<and> url_alpha (hd s) \<and> list_all url_scheme_char s
         then (py_lower s, drop (Suc (length s)) url) else ([], url))"

definition split_netloc :: "string \<Rightarrow> string" where
  "split_netloc url =
     (case url of
        a # b # rest \<Rightarrow>
          if a = CHR ''/'' \<and> b = CHR ''/'' then takeWhile (\<lambda>c. c \<notin> {CHR ''/'', CHR ''?'', CHR ''#''}) rest else []
      | _ \<Rightarrow> [])"

definition urlsplit :: "(string \<Rightarrow> bool) \<Rightarrow> string \<Rightarrow> (string \<times> string) res" where
  "urlsplit netloc_ok url =
     (let (scheme, rest) = split_scheme (url_clean url); netloc = split_netloc rest
      in if (CHR ''['' \<in> set netloc) \<noteq> (CHR '']'' \<in> set netloc) \<or> \<not> netloc_ok netloc
         then Inl (ValueError ''Invalid IPv6 URL'') else Inr (scheme, netloc))"

definition origin_of :: "(string \<Rightarrow> bool) \<Rightarrow> string \<Rightarrow> string option res" where
  "origin_of netloc_ok url =
     (case urlsplit netloc_ok url of
        Inl e \<Rightarrow> Inl e
      | Inr (scheme, netloc) \<Rightarrow>
          Inr (if scheme = [] \<or> netloc = [] then None else Some (scheme @ ''://'' @ netloc)))"

definition csrf_needs_check :: "string option \<Rightarrow> string \<Rightarrow> request \<Rightarrow> bool" where
  "csrf_needs_check allowed protected rq \<longleftrightarrow>
     (if allowed = None then False
      else if rq_method rq \<in> set SAFE_METHODS then False
      else if take (length protected) (rq_path rq) \<noteq> protected then False
      else map_of (rq_headers rq) ''x-api-key'' = None)"

definition csrf_origin_allowed :: "(string \<Rightarrow> bool) \<Rightarrow> string option \<Rightarrow> request \<Rightarrow> bool res" where
  "csrf_origin_allowed netloc_ok allowed rq =
     (case (case map_of (rq_headers rq) ''origin'' of
              Some origin \<Rightarrow> Inr (Some origin)
            | None \<Rightarrow>
                (case map_of (rq_headers rq) ''referer'' of
                   Some referer \<Rightarrow> if referer = [] then Inr None else origin_of netloc_ok referer
                 | None \<Rightarrow> Inr None)) of
        Inl e \<Rightarrow> Inl e
      | Inr origin \<Rightarrow> Inr (origin \<noteq> None \<and> origin = allowed))"

definition csrf_dispatch ::
  "(string \<Rightarrow> bool) \<Rightarrow> string option \<Rightarrow> string \<Rightarrow> (request \<Rightarrow> 's \<Rightarrow> 'a handled \<times> 's) \<Rightarrow> request \<Rightarrow> 's \<Rightarrow>
   'a handled \<times> 's" where
  "csrf_dispatch netloc_ok allowed protected call_next rq s =
     (if csrf_needs_check allowed protected rq
      then (case csrf_origin_allowed netloc_ok allowed rq of
              Inl e \<Rightarrow> (Raise e, s)
            | Inr ok \<Rightarrow> if \<not> ok then (http_error 403 ''origin check failed'', s) else call_next rq s)
      else call_next rq s)"

section \<open>Lemmas\<close>

lemma and_then_simps [simp]:
  "and_then (Answer c x, s) f = f c x s" "and_then (HttpError c d hs, s) f = (HttpError c d hs, s)"
  "and_then (RequestInvalid, s) f = (RequestInvalid, s)" "and_then (Raise e, s) f = (Raise e, s)"
  by (simp_all add: and_then_def)

lemma session_marked [simp]: "session_is_admin (mark_admin now s)"
  by (simp add: session_is_admin_def mark_admin_def update_conv')

lemma session_cleared [simp]: "\<not> session_is_admin (clear_session s)"
  by (simp add: session_is_admin_def clear_session_def)

lemma refresh_routing_cache_sel [simp]:
  "as_db (refresh_routing_cache E st) = as_db st"
  "as_limiter (refresh_routing_cache E st) = as_limiter st"
  "as_world (refresh_routing_cache E st) = as_world st"
  by (simp_all add: refresh_routing_cache_def split_beta split: option.splits)

lemma next_id_sel [simp]:
  "as_db (snd (next_id E st)) = as_db st" "as_cache (snd (next_id E st)) = as_cache st"
  "as_limiter (snd (next_id E st)) = as_limiter st"
  by (simp_all add: next_id_def split_beta)

lemma commit_session_sel [simp]:
  "as_cache (snd (commit_session E new st)) = as_cache st"
  "as_limiter (snd (commit_session E new st)) = as_limiter st"
  by (simp_all add: commit_session_def split_beta)

lemma commit_session_cache: "commit_session E new st = (r, st') \<Longrightarrow> as_cache st' = as_cache st"
  using commit_session_sel(1) [of E new st] by simp

lemma commit_session_db:
  "as_db (snd (commit_session E new st)) = (case fst (commit_session E new st) of Inl _ \<Rightarrow> as_db st | Inr _ \<Rightarrow> new)"
  by (auto simp: commit_session_def transact_def split_beta split: sum.splits)

lemma commit_session_schema:
  "enforces_schema (ae_db E) \<Longrightarrow> schema_ok (as_db st) \<Longrightarrow> schema_ok (as_db (snd (commit_session E new st)))"
  by (cases "transact (ae_db E) (as_db st) new (as_world st)")
     (auto simp: commit_session_def intro: transact_schema)

end
