(* ===== verification/ApiAuth.thy ===== *)
theory ApiAuth
  imports ApiBase
begin

text \<open>
  \<^verbatim>\<open>api/auth.py\<close> and \<^verbatim>\<open>api/routes_auth.py\<close>: resolution of API tokens and of the
  admin password against the database, the admin guard, and the login, logout and password routes.
\<close>

section \<open>The authentication service\<close>

definition MultipleResultsFound :: exn where
  "MultipleResultsFound = OtherError ''MultipleResultsFound''"

definition api_token_valid ::
  "('n, 'f, 'w) api_env \<Rightarrow> 'f app_resources \<Rightarrow> string \<Rightarrow> ('n, 'w) api_state \<Rightarrow> bool res \<times> ('n, 'w) api_state" where
  "api_token_valid E R api_key st =
     (if \<not> rs_has_database R then (Inr False, st)
      else (let digest = hash_token (ae_sha256_hex E) api_key
            in case filter (\<lambda>row. at_token_hash row = digest) (db_api_tokens (as_db st)) of
                 [] \<Rightarrow> (Inr False, st)
               | [_] \<Rightarrow>
                   (let (now, w) = de_now (ae_db E) (as_world st);
                        rows = map (\<lambda>row. if at_token_hash row = digest then row\<lparr>at_last_used_at := Some now\<rparr> else row)
                                 (db_api_tokens (as_db st));
                        (r, st') = commit_session E ((as_db st)\<lparr>db_api_tokens := rows\<rparr>) (st\<lparr>as_world := w\<rparr>)
                    in case r of Inl e \<Rightarrow> (Inl e, st') | Inr _ \<Rightarrow> (Inr True, st'))
               | _ \<Rightarrow> (Inl MultipleResultsFound, st)))"

definition stored_admin_hash :: "'f app_resources \<Rightarrow> db \<Rightarrow> string \<times> bool" where
  "stored_admin_hash R d =
     (case db_admin d of
        Some row \<Rightarrow> (ac_password_hash row, True)
      | None \<Rightarrow> (rs_admin_password_hash R, False))"

text \<open>
  A new row gets its time stamp from the default factory; a row that is changed gets it when the
  session is flushed.
\<close>

definition persist_admin_hash :: "'w db_env \<Rightarrow> string \<Rightarrow> db \<Rightarrow> 'w \<Rightarrow> db \<times> 'w" where
  "persist_admin_hash E new_hash d w =
     (case db_admin d of
        Some row \<Rightarrow>
          if ac_password_hash row = new_hash then (d, w)
          else (let (now, w') = de_now E w
                in (d\<lparr>db_admin := Some \<lparr>ac_password_hash = new_hash, ac_updated_at = now\<rparr>\<rparr>, w'))
      | None \<Rightarrow>
          (let (now, w') = de_now E w
           in (d\<lparr>db_admin := Some \<lparr>ac_password_hash = new_hash, ac_updated_at = now\<rparr>\<rparr>, w')))"

definition commit_admin_hash ::
  "('n, 'f, 'w) api_env \<Rightarrow> string \<Rightarrow> ('n, 'w) api_state \<Rightarrow> unit res \<times> ('n, 'w) api_state" where
  "commit_admin_hash E new_hash st =
     (let (d, w) = persist_admin_hash (ae_db E) new_hash (as_db st) (as_world st)
      in commit_session E d (st\<lparr>as_world := w\<rparr>))"

definition verify_admin_password ::
  "('n, 'f, 'w) api_env \<Rightarrow> 'f app_resources \<Rightarrow> string \<Rightarrow> ('n, 'w) api_state \<Rightarrow> bool res \<times> ('n, 'w) api_state" where
  "verify_admin_password E R password st =
     (if \<not> rs_has_database R then (verify_password (ae_argon2 E) (rs_admin_password_hash R) password, st)
      else (let (stored, _) = stored_admin_hash R (as_db st)
            in case verify_password (ae_argon2 E) stored password of
                 Inl e \<Rightarrow> (Inl e, st)
               | Inr False \<Rightarrow> (Inr False, st)
               | Inr True \<Rightarrow>
                   (case password_needs_rehash (ae_argon2 E) stored of
                      Inl e \<Rightarrow> (Inl e, st)
                    | Inr False \<Rightarrow> (Inr True, st)
                    | Inr True \<Rightarrow>
                        (let (upgraded, w) = hash_password (ae_argon2 E) password (as_world st);
                             (r, st') = commit_admin_hash E upgraded (st\<lparr>as_world := w\<rparr>)
                         in case r of Inl e \<Rightarrow> (Inl e, st') | Inr _ \<Rightarrow> (Inr True, st')))))"

definition set_admin_password ::
  "('n, 'f, 'w) api_env \<Rightarrow> 'f app_resources \<Rightarrow> string \<Rightarrow> ('n, 'w) api_state \<Rightarrow> unit res \<times> ('n, 'w) api_state" where
  "set_admin_password E R new_password st =
     (if \<not> rs_has_database R then (Inl (RuntimeError ''cannot persist admin password without a database''), st)
      else (let (new_hash, w) = hash_password (ae_argon2 E) new_password (as_world st)
            in commit_admin_hash E new_hash (st\<lparr>as_world := w\<rparr>)))"

section \<open>The admin guard\<close>

text \<open>The extractors give \<open>None\<close> for a missing and for an empty credential.\<close>

definition credential :: "(string \<times> string) list \<Rightarrow> string \<Rightarrow> string option" where
  "credential kvs name = (case map_of kvs name of Some v \<Rightarrow> if v = [] then None else Some v | None \<Rightarrow> None)"

definition require_admin ::
  "('n, 'f, 'w) api_env \<Rightarrow> 'f app_resources \<Rightarrow> request \<Rightarrow> ('n, 'w) api_state \<Rightarrow>
   unit handled \<times> ('n, 'w) api_state" where
  "require_admin E R rq st =
     (if credential (rq_cookies rq) SESSION_COOKIE \<noteq> None \<and> session_is_admin (rq_session rq)
      then (Answer 200 (), st)
      else (case credential (rq_headers rq) ''x-api-key'' of
              None \<Rightarrow> (http_error 401 ''authentication required'', st)
            | Some api_key \<Rightarrow>
                (case api_token_valid E R api_key st of
                   (Inl e, st') \<Rightarrow> (Raise e, st')
                 | (Inr True, st') \<Rightarrow> (Answer 200 (), st')
                 | (Inr False, st') \<Rightarrow> (http_error 401 ''authentication required'', st'))))"

section \<open>Routes\<close>

definition source :: "request \<Rightarrow> string" where
  "source rq = (case rq_client rq of Some host \<Rightarrow> host | None \<Rightarrow> ''unknown'')"

text \<open>A reading of the limiter's clock.\<close>

definition monotonic :: "('n, 'f, 'w) api_env \<Rightarrow> ('n, 'w) api_state \<Rightarrow> real \<times> ('n, 'w) api_state" where
  "monotonic E st = (let (t, w) = ae_monotonic E (as_world st) in (t, st\<lparr>as_world := w\<rparr>))"

text \<open>The body schema, then the handler, which also returns the session.\<close>

definition login_request_ok :: "string \<Rightarrow> bool" where
  "login_request_ok password \<longleftrightarrow> 1 \<le> length password"

definition login ::
  "('n, 'f, 'w) api_env \<Rightarrow> 'f app_resources \<Rightarrow> string \<Rightarrow> request \<Rightarrow> ('n, 'w) api_state \<Rightarrow>
   (bool \<times> session) handled \<times> ('n, 'w) api_state" where
  "login E R password rq st =
     (if \<not> login_request_ok password then (RequestInvalid, st)
      else (let key = source rq; (t0, st0) = monotonic E st
            in if \<not> is_allowed t0 key (as_limiter st0)
               then (let (t1, st1) = monotonic E st0
                     in (HttpError 429 (PStr ''too many login attempts; try again later'')
                           [(''Retry-After'', int_str (retry_after t1 key (as_limiter st1)))], st1))
               else (case verify_admin_password E R password st0 of
                       (Inl e, st1) \<Rightarrow> (Raise e, st1)
                     | (Inr False, st1) \<Rightarrow>
                         (let (t2, st2) = monotonic E st1;
                              (r, L) = record_failure t2 key (as_limiter st2);
                              st3 = st2\<lparr>as_limiter := L\<rparr>
                          in case r of
                               Inl e \<Rightarrow> (Raise e, st3)
                             | Inr _ \<Rightarrow> (http_error 401 ''invalid credentials'', st3))
                     | (Inr True, st1) \<Rightarrow>
                         (let (now, w) = ae_time E (as_world st1)
                          in (Answer 200 (True, mark_admin now (rq_session rq)),
                              st1\<lparr>as_limiter := record_success key (as_limiter st1), as_world := w\<rparr>)))))"

definition logout :: "request \<Rightarrow> ('n, 'w) api_state \<Rightarrow> (bool \<times> session) handled \<times> ('n, 'w) api_state" where
  "logout rq st = (Answer 200 (False, clear_session (rq_session rq)), st)"

definition session_status ::
  "('n, 'f, 'w) api_env \<Rightarrow> 'f app_resources \<Rightarrow> request \<Rightarrow> ('n, 'w) api_state \<Rightarrow> bool handled \<times> ('n, 'w) api_state" where
  "session_status E R rq st = and_then (require_admin E R rq st) (\<lambda>_ _ st'. (Answer 200 True, st'))"

definition password_change_ok :: "string \<Rightarrow> string \<Rightarrow> bool" where
  "password_change_ok current_password new_password \<longleftrightarrow> 1 \<le> length current_password \<and> 8 \<le> length new_password"

definition change_password ::
  "('n, 'f, 'w) api_env \<Rightarrow> 'f app_resources \<Rightarrow> string \<Rightarrow> string \<Rightarrow> request \<Rightarrow> ('n, 'w) api_state \<Rightarrow>
   bool handled \<times> ('n, 'w) api_state" where
  "change_password E R current_password new_password rq st =
     and_then (require_admin E R rq st) (\<lambda>_ _ st0.
       if \<not> password_change_ok current_password new_password then (RequestInvalid, st0)
       else (case verify_admin_password E R current_password st0 of
               (Inl e, st1) \<Rightarrow> (Raise e, st1)
             | (Inr False, st1) \<Rightarrow> (http_error 403 ''current password is incorrect'', st1)
             | (Inr True, st1) \<Rightarrow>
                 (case set_admin_password E R new_password st1 of
                    (Inl e, st2) \<Rightarrow> (Raise e, st2)
                  | (Inr _, st2) \<Rightarrow> (Answer 200 True, st2))))"

section \<open>Lemmas\<close>

definition admin_session :: "request \<Rightarrow> bool" where
  "admin_session rq \<longleftrightarrow> credential (rq_cookies rq) SESSION_COOKIE \<noteq> None \<and> session_is_admin (rq_session rq)"

lemma snd_require_admin:
  "snd (require_admin E R rq st) =
     (if admin_session rq then st
      else case credential (rq_headers rq) ''x-api-key'' of
             None \<Rightarrow> st | Some k \<Rightarrow> snd (api_token_valid E R k st))"
  by (auto simp: require_admin_def admin_session_def split: option.splits prod.splits sum.splits bool.splits)

lemma require_admin_session: "admin_session rq \<Longrightarrow> require_admin E R rq st = (Answer 200 (), st)"
  by (simp add: require_admin_def admin_session_def)

lemma api_token_valid_frame:
  "as_cache (snd (api_token_valid E R k st)) = as_cache st"
  "as_limiter (snd (api_token_valid E R k st)) = as_limiter st"
  by (auto simp: api_token_valid_def Let_def split_beta split: list.splits sum.splits)

lemma require_admin_frame [simp]:
  "as_cache (snd (require_admin E R rq st)) = as_cache st"
  "as_limiter (snd (require_admin E R rq st)) = as_limiter st"
  by (simp_all add: snd_require_admin api_token_valid_frame split: option.splits)

lemma commit_admin_hash_frame [simp]:
  "as_cache (snd (commit_admin_hash E h st)) = as_cache st"
  "as_limiter (snd (commit_admin_hash E h st)) = as_limiter st"
  by (simp_all add: commit_admin_hash_def split_beta)

lemma monotonic_sel [simp]:
  "as_db (snd (monotonic E st)) = as_db st" "as_cache (snd (monotonic E st)) = as_cache st"
  "as_limiter (snd (monotonic E st)) = as_limiter st"
  by (simp_all add: monotonic_def split_beta)

end
