(* ===== verification/ApiSchemas.thy ===== *)
theory ApiSchemas
  imports ApiBase
begin

text \<open>
  \<^verbatim>\<open>api/schemas.py\<close>: the request models with their field constraints and the read models.
  A response model is filled from the attributes of a row; a row without an id fails the
  validation of the response.
\<close>

section \<open>Requests\<close>

record backend_create =
  bk_name :: string
  bk_type :: string
  bk_config :: config

record backend_update =
  bu_name :: "string option"
  bu_config :: "config option"

record domain_create =
  dc_zone :: string
  dc_backend_id :: int
  dc_record_name :: string
  dc_he_dynamic_key :: "string option"

record tsig_key_create =
  tc_name :: string
  tc_algorithm :: string

record api_token_create =
  kc_name :: string

abbreviation name_length_ok :: "string \<Rightarrow> bool" where
  "name_length_ok s \<equiv> 1 \<le> length s \<and> length s \<le> 255"

definition backend_create_ok :: "backend_create \<Rightarrow> bool" where
  "backend_create_ok p \<longleftrightarrow> name_length_ok (bk_name p) \<and> 1 \<le> length (bk_type p)"

definition backend_update_ok :: "backend_update \<Rightarrow> bool" where
  "backend_update_ok p \<longleftrightarrow> (case bu_name p of None \<Rightarrow> True | Some n \<Rightarrow> name_length_ok n)"

definition domain_create_ok :: "domain_create \<Rightarrow> bool" where
  "domain_create_ok p \<longleftrightarrow> name_length_ok (dc_zone p) \<and> name_length_ok (dc_record_name p)"

definition tsig_key_create_ok :: "tsig_key_create \<Rightarrow> bool" where
  "tsig_key_create_ok p \<longleftrightarrow> name_length_ok (tc_name p)"

definition api_token_create_ok :: "api_token_create \<Rightarrow> bool" where
  "api_token_create_ok p \<longleftrightarrow> name_length_ok (kc_name p)"

section \<open>Reads\<close>

record backend_read =
  br_id :: int
  br_name :: string
  br_type :: string
  br_created_at :: utc
  br_updated_at :: utc

record provider_schema_read =
  ps_type :: string
  ps_title :: string
  ps_supports_multivalue :: bool
  ps_supports_delete :: bool
  ps_config_schema :: pyval

record domain_read =
  dr_id :: int
  dr_zone :: string
  dr_backend_id :: int
  dr_record_name :: string
  dr_created_at :: utc
  dr_has_secret :: bool

record tsig_key_read =
  kr_id :: int
  kr_name :: string
  kr_algorithm :: string
  kr_created_at :: utc

record tsig_key_created = tsig_key_read +
  kr_secret :: string

record api_token_read =
  tr_token_id :: int
  tr_token_name :: string
  tr_token_created_at :: utc
  tr_token_last_used_at :: "utc option"

record api_token_created = api_token_read +
  tr_token :: string

record challenge_event_read =
  cr_id :: int
  cr_ts :: utc
  cr_zone :: string
  cr_record_name :: string
  cr_action :: string
  cr_provider :: string
  cr_result :: string
  cr_latency_ms :: int
  cr_tsig_key_id :: "int option"
  cr_source :: string
  cr_error_detail :: "string option"

record challenge_event_page =
  cp_items :: "challenge_event_read list"
  cp_total :: nat
  cp_limit :: int
  cp_offset :: int

definition missing_id :: exn where
  "missing_id = OtherError ''ResponseValidationError''"

definition backend_to_read :: "backend \<Rightarrow> backend_read res" where
  "backend_to_read b =
     (case b_id b of
        None \<Rightarrow> Inl missing_id
      | Some i \<Rightarrow> Inr \<lparr>br_id = i, br_name = b_name b, br_type = b_type b, br_created_at = b_created_at b,
                      br_updated_at = b_updated_at b\<rparr>)"

definition domain_to_read :: "domain \<Rightarrow> domain_read res" where
  "domain_to_read d =
     (case dm_id d of
        None \<Rightarrow> Inl (OtherError ''AssertionError'')
      | Some i \<Rightarrow> Inr \<lparr>dr_id = i, dr_zone = dm_zone d, dr_backend_id = dm_backend_id d,
                      dr_record_name = dm_record_name d, dr_created_at = dm_created_at d,
                      dr_has_secret = (dm_secret_encrypted d \<noteq> None)\<rparr>)"

definition tsig_to_read :: "tsig_row \<Rightarrow> tsig_key_read res" where
  "tsig_to_read k =
     (case tr_id k of
        None \<Rightarrow> Inl missing_id
      | Some i \<Rightarrow> Inr \<lparr>kr_id = i, kr_name = tr_name k, kr_algorithm = tr_algorithm k, kr_created_at = tr_created_at k\<rparr>)"

definition token_to_read :: "api_token \<Rightarrow> api_token_read res" where
  "token_to_read t =
     (case at_id t of
        None \<Rightarrow> Inl missing_id
      | Some i \<Rightarrow> Inr \<lparr>tr_token_id = i, tr_token_name = at_name t, tr_token_created_at = at_created_at t,
                      tr_token_last_used_at = at_last_used_at t\<rparr>)"

definition event_to_read :: "challenge_event \<Rightarrow> challenge_event_read res" where
  "event_to_read e =
     (case ce_id e of
        None \<Rightarrow> Inl missing_id
      | Some i \<Rightarrow> Inr \<lparr>cr_id = i, cr_ts = ce_ts e, cr_zone = ce_zone e, cr_record_name = ce_record_name e,
                      cr_action = ce_action e, cr_provider = ce_provider e, cr_result = ce_result e,
                      cr_latency_ms = ce_latency_ms e, cr_tsig_key_id = ce_tsig_key_id e, cr_source = ce_source e,
                      cr_error_detail = ce_error_detail e\<rparr>)"

text \<open>A read model as the body of an answer.\<close>

definition answered :: "int \<Rightarrow> 'a res \<Rightarrow> 'a handled" where
  "answered code r = (case r of Inl e \<Rightarrow> Raise e | Inr x \<Rightarrow> Answer code x)"

end
