(* ===== verification/ApiCrud.thy ===== *)
theory ApiCrud
  imports ApiAuth ApiSchemas "HOL-Library.Product_Lexorder"
begin

text \<open>
  \<^verbatim>\<open>api/routes_backends.py\<close>, \<^verbatim>\<open>api/routes_domains.py\<close>,
  \<^verbatim>\<open>api/routes_tsig.py\<close>, \<^verbatim>\<open>api/routes_tokens.py\<close> and
  \<^verbatim>\<open>api/routes_events.py\<close>. Every router has the admin guard as its dependency; then come
  the session and the KEK, then the checks of the request schema, then the handler. A commit that
  raises leaves the database as it was.
\<close>

section \<open>Guards\<close>

definition guarded ::
  "('n, 'f, 'w) api_env \<Rightarrow> 'f app_resources \<Rightarrow> request \<Rightarrow> bool \<Rightarrow>
   (('n, 'w) api_state \<Rightarrow> 'a handled \<times> ('n, 'w) api_state) \<Rightarrow> ('n, 'w) api_state \<Rightarrow>
   'a handled \<times> ('n, 'w) api_state" where
  "guarded E R rq valid h st =
     and_then (require_admin E R rq st) (\<lambda>_ _ st'.
       case get_session R of
         Inl e \<Rightarrow> (Raise e, st')
       | Inr _ \<Rightarrow> if \<not> valid then (RequestInvalid, st') else h st')"

definition guarded_kek ::
  "('n, 'f, 'w) api_env \<Rightarrow> 'f app_resources \<Rightarrow> request \<Rightarrow> bool \<Rightarrow>
   ('f kek \<Rightarrow> ('n, 'w) api_state \<Rightarrow> 'a handled \<times> ('n, 'w) api_state) \<Rightarrow> ('n, 'w) api_state \<Rightarrow>
   'a handled \<times> ('n, 'w) api_state" where
  "guarded_kek E R rq valid h st =
     and_then (require_admin E R rq st) (\<lambda>_ _ st'.
       case get_session R of
         Inl e \<Rightarrow> (Raise e, st')
       | Inr _ \<Rightarrow>
           (case get_kek R of
              Inl e \<Rightarrow> (Raise e, st')
            | Inr kek \<Rightarrow> if \<not> valid then (RequestInvalid, st') else h kek st'))"

text \<open>A commit whose IntegrityError is answered 409.\<close>

definition commit_or_409 ::
  "('n, 'f, 'w) api_env \<Rightarrow> string \<Rightarrow> db \<Rightarrow> (('n, 'w) api_state \<Rightarrow> 'a handled \<times> ('n, 'w) api_state) \<Rightarrow>
   ('n, 'w) api_state \<Rightarrow> 'a handled \<times> ('n, 'w) api_state" where
  "commit_or_409 E detail new k st =
     (case commit_session E new st of
        (Inl e, st') \<Rightarrow> (if e = IntegrityError then http_error 409 detail else Raise e, st')
      | (Inr _, st') \<Rightarrow> k st')"

definition commit_then ::
  "('n, 'f, 'w) api_env \<Rightarrow> db \<Rightarrow> (('n, 'w) api_state \<Rightarrow> 'a handled \<times> ('n, 'w) api_state) \<Rightarrow>
   ('n, 'w) api_state \<Rightarrow> 'a handled \<times> ('n, 'w) api_state" where
  "commit_then E new k st =
     (case commit_session E new st of (Inl e, st') \<Rightarrow> (Raise e, st') | (Inr _, st') \<Rightarrow> k st')"

section \<open>Backends\<close>

definition hurricane_dump :: "hurricane_config \<Rightarrow> config" where
  "hurricane_dump c = [(''cleanup_placeholder'', PStr (hc_cleanup_placeholder c))]"

definition route53_dump :: "route53_config \<Rightarrow> config" where
  "route53_dump c =
     [(''access_key_id'', PStr (rf_access_key_id c)), (''secret_access_key'', PSecret (rf_secret_access_key c)),
      (''hosted_zone_id'', PStr (rf_hosted_zone_id c)),
      (''region'', case rf_region c of None \<Rightarrow> PNone | Some r \<Rightarrow> PStr r),
      (''await_insync'', PBool (rf_await_insync c))]"

text \<open>
  \<^verbatim>\<open>config_schema().model_validate(config).model_dump()\<close>: the dump keeps a
  \<^verbatim>\<open>SecretStr\<close> field as it is.
\<close>

definition schema_dump :: "validators \<Rightarrow> provider_class \<Rightarrow> config \<Rightarrow> config res" where
  "schema_dump V cls config =
     (case cls of
        HurricaneProvider \<Rightarrow> map_sum id hurricane_dump (va_hurricane V config)
      | Route53Provider \<Rightarrow> map_sum id route53_dump (va_route53 V config))"

definition safe_validation_detail :: "validation_error list \<Rightarrow> pyval" where
  "safe_validation_detail errs =
     PList (map (\<lambda>err. PDict [(''loc'', PList (ve_loc err)), (''msg'', PStr (ve_msg err)), (''type'', PStr (ve_type err))]) errs)"

definition validated_config :: "('n, 'f, 'w) api_env \<Rightarrow> string \<Rightarrow> config \<Rightarrow> config handled" where
  "validated_config E provider_type config =
     (case get_provider builtin_registry provider_type of
        Inl (UnknownProvider _) \<Rightarrow> http_error 422 (''unknown provider type '' @ py_repr provider_type)
      | Inl exc \<Rightarrow> Raise exc
      | Inr cls \<Rightarrow>
          (case schema_dump (ae_validators E) cls config of
             Inl exc \<Rightarrow>
               (case ae_validation_errors E exc of
                  Some errors \<Rightarrow> HttpError 422 (safe_validation_detail errors) []
                | None \<Rightarrow> Raise exc)
           | Inr dumped \<Rightarrow> Answer 200 dumped))"

definition backend_row :: "db \<Rightarrow> int \<Rightarrow> backend option" where
  "backend_row d i = find (\<lambda>b. b_id b = Some i) (db_backends d)"

definition create_backend ::
  "('n, 'f, 'w) api_env \<Rightarrow> 'f app_resources \<Rightarrow> backend_create \<Rightarrow> request \<Rightarrow> ('n, 'w) api_state \<Rightarrow>
   backend_read handled \<times> ('n, 'w) api_state" where
  "create_backend E R p rq = guarded_kek E R rq (backend_create_ok p) (\<lambda>kek st.
     and_then (validated_config E (bk_type p) (bk_config p), st) (\<lambda>_ config st.
       case build_backend (ae_fernet E) (ae_db E) kek (bk_name p) (bk_type p) (PDict config) (as_world st) of
         (Inl e, w) \<Rightarrow> (Raise e, st\<lparr>as_world := w\<rparr>)
       | (Inr row, w) \<Rightarrow>
           (let (i, st1) = next_id E (st\<lparr>as_world := w\<rparr>); stored = row\<lparr>b_id := Some i\<rparr>; d = as_db st1
            in commit_or_409 E (''backend name '' @ py_repr (bk_name p) @ '' already exists'')
                 (d\<lparr>db_backends := db_backends d @ [stored]\<rparr>)
                 (\<lambda>st2. (answered 201 (backend_to_read stored), refresh_routing_cache E st2)) st1)))"

definition list_backends ::
  "('n, 'f, 'w) api_env \<Rightarrow> 'f app_resources \<Rightarrow> request \<Rightarrow> ('n, 'w) api_state \<Rightarrow>
   backend_read list handled \<times> ('n, 'w) api_state" where
  "list_backends E R rq = guarded E R rq True (\<lambda>st.
     (answered 200 (map_res backend_to_read (db_backends (as_db st))), st))"

definition class_title :: "provider_class \<Rightarrow> string" where
  "class_title c = (case c of HurricaneProvider \<Rightarrow> ''HurricaneConfig'' | Route53Provider \<Rightarrow> ''Route53Config'')"

definition class_multivalue :: "provider_class \<Rightarrow> bool" where
  "class_multivalue c = (case c of HurricaneProvider \<Rightarrow> False | Route53Provider \<Rightarrow> True)"

definition class_delete :: "provider_class \<Rightarrow> bool" where
  "class_delete c = (case c of HurricaneProvider \<Rightarrow> False | Route53Provider \<Rightarrow> True)"

definition list_providers ::
  "('n, 'f, 'w) api_env \<Rightarrow> 'f app_resources \<Rightarrow> request \<Rightarrow> ('n, 'w) api_state \<Rightarrow>
   provider_schema_read list handled \<times> ('n, 'w) api_state" where
  "list_providers E R rq st =
     and_then (require_admin E R rq st) (\<lambda>_ _ st'.
       (Answer 200 (map (\<lambda>(key, cls). \<lparr>ps_type = key, ps_title = class_title cls,
            ps_supports_multivalue = class_multivalue cls, ps_supports_delete = class_delete cls,
            ps_config_schema = ae_json_schema E cls\<rparr>) (sort_key fst builtin_registry)), st'))"

definition get_backend ::
  "('n, 'f, 'w) api_env \<Rightarrow> 'f app_resources \<Rightarrow> int \<Rightarrow> request \<Rightarrow> ('n, 'w) api_state \<Rightarrow>
   backend_read handled \<times> ('n, 'w) api_state" where
  "get_backend E R i rq = guarded E R rq True (\<lambda>st.
     case backend_row (as_db st) i of
       None \<Rightarrow> (http_error 404 ''backend not found'', st)
     | Some b \<Rightarrow> (answered 200 (backend_to_read b), st))"

definition replace_backend :: "int \<Rightarrow> backend \<Rightarrow> db \<Rightarrow> db" where
  "replace_backend i b d = d\<lparr>db_backends := map (\<lambda>x. if b_id x = Some i then b else x) (db_backends d)\<rparr>"

definition store_backend ::
  "('n, 'f, 'w) api_env \<Rightarrow> int \<Rightarrow> backend \<Rightarrow> backend \<Rightarrow> ('n, 'w) api_state \<Rightarrow>
   backend_read handled \<times> ('n, 'w) api_state" where
  "store_backend E i old new st =
     (let (row, w) = restamp_backend (ae_db E) old new (as_world st); st1 = st\<lparr>as_world := w\<rparr>
      in commit_or_409 E ''backend name already exists'' (replace_backend i row (as_db st1))
           (\<lambda>st2. (answered 200 (backend_to_read row), refresh_routing_cache E st2)) st1)"

definition update_backend ::
  "('n, 'f, 'w) api_env \<Rightarrow> 'f app_resources \<Rightarrow> int \<Rightarrow> backend_update \<Rightarrow> request \<Rightarrow> ('n, 'w) api_state \<Rightarrow>
   backend_read handled \<times> ('n, 'w) api_state" where
  "update_backend E R i p rq = guarded_kek E R rq (backend_update_ok p) (\<lambda>kek st.
     case backend_row (as_db st) i of
       None \<Rightarrow> (http_error 404 ''backend not found'', st)
     | Some b \<Rightarrow>
         (let named = (case bu_name p of None \<Rightarrow> b | Some n \<Rightarrow> b\<lparr>b_name := n\<rparr>)
          in case bu_config p of
               None \<Rightarrow> store_backend E i b named st
             | Some config \<Rightarrow>
                 and_then (validated_config E (b_type b) config, st) (\<lambda>_ dumped st.
                   case encrypt_json (ae_fernet E) kek (PDict dumped) (as_world st) of
                     (Inl e, w) \<Rightarrow> (Raise e, st\<lparr>as_world := w\<rparr>)
                   | (Inr token, w) \<Rightarrow>
                       store_backend E i b (named\<lparr>b_config_encrypted := token\<rparr>) (st\<lparr>as_world := w\<rparr>))))"

definition delete_backend ::
  "('n, 'f, 'w) api_env \<Rightarrow> 'f app_resources \<Rightarrow> int \<Rightarrow> request \<Rightarrow> ('n, 'w) api_state \<Rightarrow>
   unit handled \<times> ('n, 'w) api_state" where
  "delete_backend E R i rq = guarded E R rq True (\<lambda>st.
     case backend_row (as_db st) i of
       None \<Rightarrow> (http_error 404 ''backend not found'', st)
     | Some b \<Rightarrow>
         if \<exists>d \<in> set (db_domains (as_db st)). dm_backend_id d = i
         then (http_error 409 ''backend is referenced by one or more domains'', st)
         else commit_then E ((as_db st)\<lparr>db_backends := filter (\<lambda>x. b_id x \<noteq> Some i) (db_backends (as_db st))\<rparr>)
                (\<lambda>st1. (Answer 204 (), refresh_routing_cache E st1)) st)"

section \<open>Domains\<close>

definition create_domain ::
  "('n, 'f, 'w) api_env \<Rightarrow> 'f app_resources \<Rightarrow> domain_create \<Rightarrow> request \<Rightarrow> ('n, 'w) api_state \<Rightarrow>
   domain_read handled \<times> ('n, 'w) api_state" where
  "create_domain E R p rq = guarded_kek E R rq (domain_create_ok p) (\<lambda>kek st.
     if backend_row (as_db st) (dc_backend_id p) = None
     then (http_error 422 (''backend '' @ int_str (dc_backend_id p) @ '' does not exist''), st)
     else (let (row, w) = build_domain (ae_fernet E) (ae_db E) kek (dc_zone p) (dc_backend_id p)
                            (dc_record_name p) (dc_he_dynamic_key p) (as_world st);
               (i, st1) = next_id E (st\<lparr>as_world := w\<rparr>); stored = row\<lparr>dm_id := Some i\<rparr>; d = as_db st1
           in commit_or_409 E (''zone '' @ py_repr (dc_zone p) @ '' is already mapped'')
                (d\<lparr>db_domains := db_domains d @ [stored]\<rparr>)
                (\<lambda>st2. (answered 201 (domain_to_read stored), refresh_routing_cache E st2)) st1))"

definition list_domains ::
  "('n, 'f, 'w) api_env \<Rightarrow> 'f app_resources \<Rightarrow> request \<Rightarrow> ('n, 'w) api_state \<Rightarrow>
   domain_read list handled \<times> ('n, 'w) api_state" where
  "list_domains E R rq = guarded E R rq True (\<lambda>st.
     (answered 200 (map_res domain_to_read (db_domains (as_db st))), st))"

definition delete_domain ::
  "('n, 'f, 'w) api_env \<Rightarrow> 'f app_resources \<Rightarrow> int \<Rightarrow> request \<Rightarrow> ('n, 'w) api_state \<Rightarrow>
   unit handled \<times> ('n, 'w) api_state" where
  "delete_domain E R i rq = guarded E R rq True (\<lambda>st.
     if find (\<lambda>d. dm_id d = Some i) (db_domains (as_db st)) = None
     then (http_error 404 ''domain not found'', st)
     else commit_then E ((as_db st)\<lparr>db_domains := filter (\<lambda>x. dm_id x \<noteq> Some i) (db_domains (as_db st))\<rparr>)
            (\<lambda>st1. (Answer 204 (), refresh_routing_cache E st1)) st)"

section \<open>TSIG keys\<close>

definition create_tsig_key ::
  "('n, 'f, 'w) api_env \<Rightarrow> 'f app_resources \<Rightarrow> tsig_key_create \<Rightarrow> request \<Rightarrow> ('n, 'w) api_state \<Rightarrow>
   tsig_key_created handled \<times> ('n, 'w) api_state" where
  "create_tsig_key E R p rq = guarded_kek E R rq (tsig_key_create_ok p) (\<lambda>kek st.
     case algorithm_from_text (tc_algorithm p) of
       Inl _ \<Rightarrow> (http_error 422 (''unsupported TSIG algorithm '' @ py_repr (tc_algorithm p)), st)
     | Inr _ \<Rightarrow>
         (let (secret, w) = generate_tsig_secret (ae_token_bytes E) (as_world st);
              (row, w1) = build_tsig_key (ae_fernet E) (ae_db E) kek (tc_name p) (tc_algorithm p) secret w;
              (i, st1) = next_id E (st\<lparr>as_world := w1\<rparr>); stored = row\<lparr>tr_id := Some i\<rparr>; d = as_db st1
          in commit_or_409 E (''TSIG key name '' @ py_repr (tc_name p) @ '' already exists'')
               (d\<lparr>db_tsig_keys := db_tsig_keys d @ [stored]\<rparr>)
               (\<lambda>st2. (Answer 201 \<lparr>kr_id = i, kr_name = tr_name stored, kr_algorithm = tr_algorithm stored,
                         kr_created_at = tr_created_at stored, kr_secret = secret\<rparr>, refresh_routing_cache E st2)) st1))"

definition list_tsig_keys ::
  "('n, 'f, 'w) api_env \<Rightarrow> 'f app_resources \<Rightarrow> request \<Rightarrow> ('n, 'w) api_state \<Rightarrow>
   tsig_key_read list handled \<times> ('n, 'w) api_state" where
  "list_tsig_keys E R rq = guarded E R rq True (\<lambda>st.
     (answered 200 (map_res tsig_to_read (db_tsig_keys (as_db st))), st))"

text \<open>Deleting a key sets the reference of its events to NULL.\<close>

definition drop_tsig_key :: "int \<Rightarrow> db \<Rightarrow> db" where
  "drop_tsig_key i d =
     d\<lparr>db_tsig_keys := filter (\<lambda>k. tr_id k \<noteq> Some i) (db_tsig_keys d),
       db_events := map (\<lambda>e. if ce_tsig_key_id e = Some i then e\<lparr>ce_tsig_key_id := None\<rparr> else e) (db_events d)\<rparr>"

definition revoke_tsig_key ::
  "('n, 'f, 'w) api_env \<Rightarrow> 'f app_resources \<Rightarrow> int \<Rightarrow> request \<Rightarrow> ('n, 'w) api_state \<Rightarrow>
   unit handled \<times> ('n, 'w) api_state" where
  "revoke_tsig_key E R i rq = guarded E R rq True (\<lambda>st.
     if find (\<lambda>k. tr_id k = Some i) (db_tsig_keys (as_db st)) = None
     then (http_error 404 ''TSIG key not found'', st)
     else commit_then E (drop_tsig_key i (as_db st)) (\<lambda>st1. (Answer 204 (), refresh_routing_cache E st1)) st)"

section \<open>API tokens\<close>

definition create_api_token ::
  "('n, 'f, 'w) api_env \<Rightarrow> 'f app_resources \<Rightarrow> api_token_create \<Rightarrow> request \<Rightarrow> ('n, 'w) api_state \<Rightarrow>
   api_token_created handled \<times> ('n, 'w) api_state" where
  "create_api_token E R p rq = guarded E R rq (api_token_create_ok p) (\<lambda>st.
     let ((row, plaintext), w) = build_api_token (ae_sha256_hex E) (ae_token_urlsafe E) (ae_db E) (kc_name p) (as_world st);
         (i, st1) = next_id E (st\<lparr>as_world := w\<rparr>); stored = row\<lparr>at_id := Some i\<rparr>; d = as_db st1
     in commit_then E (d\<lparr>db_api_tokens := db_api_tokens d @ [stored]\<rparr>)
          (\<lambda>st2. (Answer 201 \<lparr>tr_token_id = i, tr_token_name = at_name stored,
                    tr_token_created_at = at_created_at stored, tr_token_last_used_at = at_last_used_at stored,
                    tr_token = plaintext\<rparr>, st2)) st1)"

definition list_api_tokens ::
  "('n, 'f, 'w) api_env \<Rightarrow> 'f app_resources \<Rightarrow> request \<Rightarrow> ('n, 'w) api_state \<Rightarrow>
   api_token_read list handled \<times> ('n, 'w) api_state" where
  "list_api_tokens E R rq = guarded E R rq True (\<lambda>st.
     (answered 200 (map_res token_to_read (db_api_tokens (as_db st))), st))"

definition revoke_api_token ::
  "('n, 'f, 'w) api_env \<Rightarrow> 'f app_resources \<Rightarrow> int \<Rightarrow> request \<Rightarrow> ('n, 'w) api_state \<Rightarrow>
   unit handled \<times> ('n, 'w) api_state" where
  "revoke_api_token E R i rq = guarded E R rq True (\<lambda>st.
     if find (\<lambda>t. at_id t = Some i) (db_api_tokens (as_db st)) = None
     then (http_error 404 ''API token not found'', st)
     else commit_then E ((as_db st)\<lparr>db_api_tokens := filter (\<lambda>t. at_id t \<noteq> Some i) (db_api_tokens (as_db st))\<rparr>)
            (\<lambda>st1. (Answer 204 (), st1)) st)"

section \<open>Events\<close>

text \<open>Newest first, ties by descending id.\<close>

definition event_id :: "challenge_event \<Rightarrow> int" where
  "event_id e = (case ce_id e of Some i \<Rightarrow> i | None \<Rightarrow> 0)"

definition event_key :: "challenge_event \<Rightarrow> int \<times> int" where
  "event_key e = (- ce_ts e, - event_id e)"

definition ordered_events :: "db \<Rightarrow> challenge_event list" where
  "ordered_events d = sort_key event_key (db_events d)"

definition list_events ::
  "('n, 'f, 'w) api_env \<Rightarrow> 'f app_resources \<Rightarrow> int \<Rightarrow> int \<Rightarrow> request \<Rightarrow> ('n, 'w) api_state \<Rightarrow>
   challenge_event_page handled \<times> ('n, 'w) api_state" where
  "list_events E R limit offset rq = guarded E R rq (1 \<le> limit \<and> limit \<le> 200 \<and> 0 \<le> offset) (\<lambda>st.
     (answered 200 (map_sum id (\<lambda>items. \<lparr>cp_items = items, cp_total = length (db_events (as_db st)),
          cp_limit = limit, cp_offset = offset\<rparr>)
        (map_res event_to_read (take (nat limit) (drop (nat offset) (ordered_events (as_db st)))))), st))"

end
