(* ===== verification/Migration.thy ===== *)
theory Migration
  imports ApiCrud
begin

text \<open>
  \<^verbatim>\<open>alembic/versions/0001_m2_baseline_schema.py\<close>: the statements of the revision in both
  directions, with the effect that Postgres gives them on a catalog of tables and indexes, and what
  the constraints of a catalog demand of the rows. The rows of the modelled database are read as
  rows of columns, so that the constraints the other theories rely on can be compared with those
  that the migration creates. Column types are kinds: the 32-bit range of an integer column is not
  modelled.
\<close>

section \<open>Statements\<close>

datatype sql_type = SqlInteger | SqlString | SqlBinary | SqlTimestamp

datatype on_delete = NoAction | SetNull

record column =
  co_name :: string
  co_type :: sql_type
  co_nullable :: bool

record foreign_key =
  fk_column :: string
  fk_table :: string
  fk_target :: string
  fk_ondelete :: on_delete

record table_def =
  td_name :: string
  td_columns :: "column list"
  td_foreign_keys :: "foreign_key list"
  td_primary_key :: string

record index_def =
  ix_name :: string
  ix_table :: string
  ix_column :: string
  ix_unique :: bool

datatype ddl = CreateTable table_def | CreateIndex index_def | DropIndex string string | DropTable string

record catalog =
  ct_tables :: "table_def list"
  ct_indexes :: "index_def list"

definition empty_catalog :: catalog where
  "empty_catalog = \<lparr>ct_tables = [], ct_indexes = []\<rparr>"

definition table_of :: "catalog \<Rightarrow> string \<Rightarrow> table_def option" where
  "table_of c n = find (\<lambda>t. td_name t = n) (ct_tables c)"

definition has_column :: "catalog \<Rightarrow> string \<Rightarrow> string \<Rightarrow> bool" where
  "has_column c t col = (case table_of c t of None \<Rightarrow> False | Some d \<Rightarrow> list_ex (\<lambda>x. co_name x = col) (td_columns d))"

text \<open>
  A statement fails when what it creates exists, when what it refers to does not, or when it drops a
  table that another one refers to; dropping a table drops its indexes.
\<close>

fun run_ddl :: "ddl \<Rightarrow> catalog \<Rightarrow> catalog option" where
  "run_ddl (CreateTable t) c =
     (if table_of c (td_name t) = None
         \<and> list_all (\<lambda>f. has_column c (fk_table f) (fk_target f)
              \<and> list_ex (\<lambda>x. co_name x = fk_column f) (td_columns t)) (td_foreign_keys t)
         \<and> list_ex (\<lambda>x. co_name x = td_primary_key t) (td_columns t)
      then Some (c\<lparr>ct_tables := ct_tables c @ [t]\<rparr>) else None)"
| "run_ddl (CreateIndex i) c =
     (if has_column c (ix_table i) (ix_column i) \<and> \<not> list_ex (\<lambda>x. ix_name x = ix_name i) (ct_indexes c)
      then Some (c\<lparr>ct_indexes := ct_indexes c @ [i]\<rparr>) else None)"
| "run_ddl (DropIndex n t) c =
     (if list_ex (\<lambda>x. ix_name x = n \<and> ix_table x = t) (ct_indexes c)
      then Some (c\<lparr>ct_indexes := filter (\<lambda>x. ix_name x \<noteq> n) (ct_indexes c)\<rparr>) else None)"
| "run_ddl (DropTable n) c =
     (if table_of c n \<noteq> None
         \<and> list_all (\<lambda>t. td_name t = n \<or> list_all (\<lambda>f. fk_table f \<noteq> n) (td_foreign_keys t)) (ct_tables c)
      then Some (c\<lparr>ct_tables := filter (\<lambda>t. td_name t \<noteq> n) (ct_tables c),
                   ct_indexes := filter (\<lambda>x. ix_table x \<noteq> n) (ct_indexes c)\<rparr>)
      else None)"

fun run_ddls :: "ddl list \<Rightarrow> catalog \<Rightarrow> catalog option" where
  "run_ddls [] c = Some c"
| "run_ddls (s # ss) c = (case run_ddl s c of None \<Rightarrow> None | Some c' \<Rightarrow> run_ddls ss c')"

section \<open>The revision\<close>

definition col :: "string \<Rightarrow> sql_type \<Rightarrow> column" where
  "col n t = \<lparr>co_name = n, co_type = t, co_nullable = False\<rparr>"

definition null_col :: "string \<Rightarrow> sql_type \<Rightarrow> column" where
  "null_col n t = \<lparr>co_name = n, co_type = t, co_nullable = True\<rparr>"

definition create_table :: "string \<Rightarrow> column list \<Rightarrow> foreign_key list \<Rightarrow> ddl" where
  "create_table n cs fks = CreateTable \<lparr>td_name = n, td_columns = cs, td_foreign_keys = fks, td_primary_key = ''id''\<rparr>"

definition create_index :: "string \<Rightarrow> string \<Rightarrow> bool \<Rightarrow> ddl" where
  "create_index t c u = CreateIndex \<lparr>ix_name = ''ix_'' @ t @ ''_'' @ c, ix_table = t, ix_column = c, ix_unique = u\<rparr>"

definition upgrade :: "ddl list" where
  "upgrade =
     [create_table ''admincredential''
        [col ''id'' SqlInteger, col ''password_hash'' SqlString, col ''updated_at'' SqlTimestamp] [],
      create_table ''apitoken''
        [col ''id'' SqlInteger, col ''name'' SqlString, col ''token_hash'' SqlString, col ''created_at'' SqlTimestamp,
         null_col ''last_used_at'' SqlTimestamp] [],
      create_index ''apitoken'' ''name'' False, create_index ''apitoken'' ''token_hash'' True,
      create_table ''backend''
        [col ''id'' SqlInteger, col ''name'' SqlString, col ''type'' SqlString, col ''config_encrypted'' SqlBinary,
         col ''created_at'' SqlTimestamp, col ''updated_at'' SqlTimestamp] [],
      create_index ''backend'' ''name'' True, create_index ''backend'' ''type'' False,
      create_table ''tsigkey''
        [col ''id'' SqlInteger, col ''name'' SqlString, col ''algorithm'' SqlString, col ''secret_encrypted'' SqlBinary,
         col ''created_at'' SqlTimestamp] [],
      create_index ''tsigkey'' ''name'' True,
      create_table ''challengeevent''
        [col ''id'' SqlInteger, col ''ts'' SqlTimestamp, col ''zone'' SqlString, col ''record_name'' SqlString,
         col ''action'' SqlString, col ''provider'' SqlString, col ''result'' SqlString, col ''latency_ms'' SqlInteger,
         null_col ''tsig_key_id'' SqlInteger, col ''source'' SqlString, null_col ''error_detail'' SqlString]
        [\<lparr>fk_column = ''tsig_key_id'', fk_table = ''tsigkey'', fk_target = ''id'', fk_ondelete = SetNull\<rparr>],
      create_index ''challengeevent'' ''tsig_key_id'' False, create_index ''challengeevent'' ''zone'' False,
      create_table ''domain''
        [col ''id'' SqlInteger, col ''zone'' SqlString, col ''backend_id'' SqlInteger, col ''record_name'' SqlString,
         null_col ''secret_encrypted'' SqlBinary, col ''created_at'' SqlTimestamp]
        [\<lparr>fk_column = ''backend_id'', fk_table = ''backend'', fk_target = ''id'', fk_ondelete = NoAction\<rparr>],
      create_index ''domain'' ''backend_id'' False, create_index ''domain'' ''zone'' True]"

definition drop_index :: "string \<Rightarrow> string \<Rightarrow> ddl" where
  "drop_index t c = DropIndex (''ix_'' @ t @ ''_'' @ c) t"

definition downgrade :: "ddl list" where
  "downgrade =
     [drop_index ''domain'' ''zone'', drop_index ''domain'' ''backend_id'', DropTable ''domain'',
      drop_index ''challengeevent'' ''zone'', drop_index ''challengeevent'' ''tsig_key_id'', DropTable ''challengeevent'',
      drop_index ''tsigkey'' ''name'', DropTable ''tsigkey'',
      drop_index ''backend'' ''type'', drop_index ''backend'' ''name'', DropTable ''backend'',
      drop_index ''apitoken'' ''token_hash'', drop_index ''apitoken'' ''name'', DropTable ''apitoken'',
      DropTable ''admincredential'']"

section \<open>Rows and constraints\<close>

datatype sql_value = VNull | VInt int | VText string | VBytes bytes | VTime utc

type_synonym row = "(string \<times> sql_value) list"

definition nullable :: "('a \<Rightarrow> sql_value) \<Rightarrow> 'a option \<Rightarrow> sql_value" where
  "nullable f x = (case x of None \<Rightarrow> VNull | Some y \<Rightarrow> f y)"

definition cell :: "row \<Rightarrow> string \<Rightarrow> sql_value" where
  "cell r c = (case map_of r c of Some v \<Rightarrow> v | None \<Rightarrow> VNull)"

fun of_type :: "sql_type \<Rightarrow> sql_value \<Rightarrow> bool" where
  "of_type SqlInteger (VInt _) = True"
| "of_type SqlString (VText _) = True"
| "of_type SqlBinary (VBytes _) = True"
| "of_type SqlTimestamp (VTime _) = True"
| "of_type _ _ = False"

definition column_ok :: "column \<Rightarrow> row \<Rightarrow> bool" where
  "column_ok c r \<longleftrightarrow> (if cell r (co_name c) = VNull then co_nullable c else of_type (co_type c) (cell r (co_name c)))"

text \<open>Values that are NULL are not compared.\<close>

definition unique_column :: "row list \<Rightarrow> string \<Rightarrow> bool" where
  "unique_column rs c \<longleftrightarrow> distinct (filter (\<lambda>v. v \<noteq> VNull) (map (\<lambda>r. cell r c) rs))"

definition refers :: "(string \<Rightarrow> row list) \<Rightarrow> foreign_key \<Rightarrow> row \<Rightarrow> bool" where
  "refers rows f r \<longleftrightarrow> cell r (fk_column f) = VNull \<or> cell r (fk_column f) \<in> (\<lambda>x. cell x (fk_target f)) ` set (rows (fk_table f))"

definition table_ok :: "(string \<Rightarrow> row list) \<Rightarrow> table_def \<Rightarrow> bool" where
  "table_ok rows t \<longleftrightarrow>
     list_all (\<lambda>r. map fst r = map co_name (td_columns t) \<and> list_all (\<lambda>c. column_ok c r) (td_columns t)
       \<and> list_all (\<lambda>f. refers rows f r) (td_foreign_keys t)) (rows (td_name t))
     \<and> unique_column (rows (td_name t)) (td_primary_key t)"

definition constraints_hold :: "catalog \<Rightarrow> (string \<Rightarrow> row list) \<Rightarrow> bool" where
  "constraints_hold c rows \<longleftrightarrow>
     list_all (table_ok rows) (ct_tables c)
     \<and> list_all (\<lambda>i. ix_unique i \<longrightarrow> unique_column (rows (ix_table i)) (ix_column i)) (ct_indexes c)"

text \<open>A deletion by primary key, with the action of every foreign key that refers to the table.\<close>

definition null_reference :: "string \<Rightarrow> sql_value \<Rightarrow> foreign_key list \<Rightarrow> row \<Rightarrow> row" where
  "null_reference t k fks r =
     map (\<lambda>(c, v). (c, if v = k \<and> list_ex (\<lambda>f. fk_table f = t \<and> fk_ondelete f = SetNull \<and> fk_column f = c) fks
       then VNull else v)) r"

definition restricted :: "catalog \<Rightarrow> string \<Rightarrow> sql_value \<Rightarrow> (string \<Rightarrow> row list) \<Rightarrow> bool" where
  "restricted c t k rows \<longleftrightarrow>
     list_ex (\<lambda>d. list_ex (\<lambda>f. fk_table f = t \<and> fk_ondelete f = NoAction
       \<and> list_ex (\<lambda>r. cell r (fk_column f) = k) (rows (td_name d))) (td_foreign_keys d)) (ct_tables c)"

definition sql_delete :: "catalog \<Rightarrow> string \<Rightarrow> sql_value \<Rightarrow> (string \<Rightarrow> row list) \<Rightarrow> (string \<Rightarrow> row list) option" where
  "sql_delete c t k rows =
     (if restricted c t k rows then None
      else Some (\<lambda>n. case table_of c n of
          None \<Rightarrow> rows n
        | Some d \<Rightarrow> map (null_reference t k (td_foreign_keys d))
            (if n = t then filter (\<lambda>r. cell r (td_primary_key d) \<noteq> k) (rows n) else rows n)))"

section \<open>The modelled database as rows\<close>

definition backend_columns :: "backend \<Rightarrow> row" where
  "backend_columns b =
     [(''id'', nullable VInt (b_id b)), (''name'', VText (b_name b)), (''type'', VText (b_type b)),
      (''config_encrypted'', VBytes (b_config_encrypted b)), (''created_at'', VTime (b_created_at b)),
      (''updated_at'', VTime (b_updated_at b))]"

definition domain_columns :: "domain \<Rightarrow> row" where
  "domain_columns d =
     [(''id'', nullable VInt (dm_id d)), (''zone'', VText (dm_zone d)), (''backend_id'', VInt (dm_backend_id d)),
      (''record_name'', VText (dm_record_name d)), (''secret_encrypted'', nullable VBytes (dm_secret_encrypted d)),
      (''created_at'', VTime (dm_created_at d))]"

definition tsig_columns :: "tsig_row \<Rightarrow> row" where
  "tsig_columns k =
     [(''id'', nullable VInt (tr_id k)), (''name'', VText (tr_name k)), (''algorithm'', VText (tr_algorithm k)),
      (''secret_encrypted'', VBytes (tr_secret_encrypted k)), (''created_at'', VTime (tr_created_at k))]"

definition token_columns :: "api_token \<Rightarrow> row" where
  "token_columns t =
     [(''id'', nullable VInt (at_id t)), (''name'', VText (at_name t)), (''token_hash'', VText (at_token_hash t)),
      (''created_at'', VTime (at_created_at t)), (''last_used_at'', nullable VTime (at_last_used_at t))]"

definition event_columns :: "challenge_event \<Rightarrow> row" where
  "event_columns e =
     [(''id'', nullable VInt (ce_id e)), (''ts'', VTime (ce_ts e)), (''zone'', VText (ce_zone e)),
      (''record_name'', VText (ce_record_name e)), (''action'', VText (ce_action e)), (''provider'', VText (ce_provider e)),
      (''result'', VText (ce_result e)), (''latency_ms'', VInt (ce_latency_ms e)),
      (''tsig_key_id'', nullable VInt (ce_tsig_key_id e)), (''source'', VText (ce_source e)),
      (''error_detail'', nullable VText (ce_error_detail e))]"

text \<open>The credential is the row with id 1.\<close>

definition admin_columns :: "admin_credential \<Rightarrow> row" where
  "admin_columns a =
     [(''id'', VInt 1), (''password_hash'', VText (ac_password_hash a)), (''updated_at'', VTime (ac_updated_at a))]"

definition rows_of :: "db \<Rightarrow> string \<Rightarrow> row list" where
  "rows_of d n =
     (if n = ''backend'' then map backend_columns (db_backends d)
      else if n = ''domain'' then map domain_columns (db_domains d)
      else if n = ''tsigkey'' then map tsig_columns (db_tsig_keys d)
      else if n = ''apitoken'' then map token_columns (db_api_tokens d)
      else if n = ''challengeevent'' then map event_columns (db_events d)
      else if n = ''admincredential'' then map admin_columns (case db_admin d of None \<Rightarrow> [] | Some a \<Rightarrow> [a])
      else [])"

section \<open>What the migration creates\<close>

definition head_catalog :: catalog where
  "head_catalog =
     \<lparr>ct_tables = concat (map (\<lambda>s. case s of CreateTable t \<Rightarrow> [t] | _ \<Rightarrow> []) upgrade),
      ct_indexes = concat (map (\<lambda>s. case s of CreateIndex i \<Rightarrow> [i] | _ \<Rightarrow> []) upgrade)\<rparr>"

lemma upgrade_runs: "run_ddls upgrade empty_catalog = Some head_catalog"
  by code_simp

lemma downgrade_runs: "run_ddls downgrade head_catalog = Some empty_catalog"
  by code_simp

lemmas catalog_simps = head_catalog_def upgrade_def create_table_def create_index_def

lemma nullable_simps [simp]:
  "nullable VInt x = VNull \<longleftrightarrow> x = None" "nullable VBytes y = VNull \<longleftrightarrow> y = None"
  "nullable VTime z = VNull \<longleftrightarrow> z = None" "nullable VText u = VNull \<longleftrightarrow> u = None"
  "nullable VInt x = nullable VInt x' \<longleftrightarrow> x = x'" "nullable VInt x = VInt i \<longleftrightarrow> x = Some i"
  by (auto simp: nullable_def split: option.splits)

lemma of_type_nullable [simp]:
  "of_type SqlInteger (nullable VInt x) \<longleftrightarrow> x \<noteq> None" "of_type SqlBinary (nullable VBytes y) \<longleftrightarrow> y \<noteq> None"
  "of_type SqlTimestamp (nullable VTime z) \<longleftrightarrow> z \<noteq> None" "of_type SqlString (nullable VText u) \<longleftrightarrow> u \<noteq> None"
  by (cases x; cases y; cases z; cases u; simp add: nullable_def)+

lemma cell_simps [simp]: "cell [] c = VNull" "cell ((c', v) # r) c = (if c = c' then v else cell r c)"
  by (simp_all add: cell_def)

lemma unique_ids:
  assumes "None \<notin> g ` set xs" and "\<And>x. cell (f x) c = nullable VInt (g x)"
  shows "unique_column (map f xs) c \<longleftrightarrow> distinct (map g xs)"
  using assms(1) by (induction xs) (auto simp: unique_column_def assms(2) image_iff)

lemma unique_texts:
  assumes "\<And>x. cell (f x) c = VText (g x)"
  shows "unique_column (map f xs) c \<longleftrightarrow> distinct (map g xs)"
  by (induction xs) (auto simp: unique_column_def assms image_iff)

lemmas columns_simps = backend_columns_def domain_columns_def tsig_columns_def token_columns_def event_columns_def
  admin_columns_def

lemma unique_id_columns:
  "None \<notin> b_id ` set bs \<Longrightarrow> unique_column (map backend_columns bs) ''id'' \<longleftrightarrow> distinct (map b_id bs)"
  "None \<notin> dm_id ` set ds \<Longrightarrow> unique_column (map domain_columns ds) ''id'' \<longleftrightarrow> distinct (map dm_id ds)"
  "None \<notin> tr_id ` set ks \<Longrightarrow> unique_column (map tsig_columns ks) ''id'' \<longleftrightarrow> distinct (map tr_id ks)"
  "None \<notin> at_id ` set ts \<Longrightarrow> unique_column (map token_columns ts) ''id'' \<longleftrightarrow> distinct (map at_id ts)"
  "None \<notin> ce_id ` set es \<Longrightarrow> unique_column (map event_columns es) ''id'' \<longleftrightarrow> distinct (map ce_id es)"
  by (rule unique_ids, assumption, simp add: columns_simps)+

lemma unique_text_columns:
  "unique_column (map backend_columns bs) ''name'' \<longleftrightarrow> distinct (map b_name bs)"
  "unique_column (map domain_columns ds) ''zone'' \<longleftrightarrow> distinct (map dm_zone ds)"
  "unique_column (map tsig_columns ks) ''name'' \<longleftrightarrow> distinct (map tr_name ks)"
  "unique_column (map token_columns ts) ''token_hash'' \<longleftrightarrow> distinct (map at_token_hash ts)"
  by (rule unique_texts, simp add: columns_simps)+

lemma rows_of_simps [simp]:
  "rows_of d ''backend'' = map backend_columns (db_backends d)" "rows_of d ''domain'' = map domain_columns (db_domains d)"
  "rows_of d ''tsigkey'' = map tsig_columns (db_tsig_keys d)" "rows_of d ''apitoken'' = map token_columns (db_api_tokens d)"
  "rows_of d ''challengeevent'' = map event_columns (db_events d)"
  "rows_of d ''admincredential'' = map admin_columns (case db_admin d of None \<Rightarrow> [] | Some a \<Rightarrow> [a])"
  by (simp_all add: rows_of_def)

definition head_table :: "string \<Rightarrow> table_def" where
  "head_table n = the (table_of head_catalog n)"

lemma head_tables: "ct_tables head_catalog =
    map head_table [''admincredential'', ''apitoken'', ''backend'', ''tsigkey'', ''challengeevent'', ''domain'']"
  by (simp add: head_table_def table_of_def catalog_simps)

definition row_ok :: "(string \<Rightarrow> row list) \<Rightarrow> table_def \<Rightarrow> row \<Rightarrow> bool" where
  "row_ok rows t r \<longleftrightarrow>
     map fst r = map co_name (td_columns t) \<and> list_all (\<lambda>c. column_ok c r) (td_columns t)
     \<and> list_all (\<lambda>f. refers rows f r) (td_foreign_keys t)"

lemma table_ok_iff:
  "table_ok rows t \<longleftrightarrow> (\<forall>r \<in> set (rows (td_name t)). row_ok rows t r) \<and> unique_column (rows (td_name t)) (td_primary_key t)"
  by (simp add: table_ok_def row_ok_def list_all_iff)

lemma table_ok_rows:
  assumes "rows (td_name t) = map f xs" and "td_primary_key t = ''id''"
    and "\<And>x. row_ok rows t (f x) \<longleftrightarrow> g x \<noteq> None \<and> P x" and "\<And>x. cell (f x) ''id'' = nullable VInt (g x)"
  shows "table_ok rows t \<longleftrightarrow> None \<notin> g ` set xs \<and> distinct (map g xs) \<and> (\<forall>x \<in> set xs. P x)"
proof (cases "None \<in> g ` set xs")
  case True
  then show ?thesis using assms(3) by (fastforce simp: table_ok_iff assms(1))
next
  case False
  then have "table_ok rows t \<longleftrightarrow> (\<forall>x \<in> set xs. P x) \<and> unique_column (map f xs) ''id''"
    using assms(3) by (force simp: table_ok_iff assms(1,2))
  also have "unique_column (map f xs) ''id'' \<longleftrightarrow> distinct (map g xs)" using False assms(4) by (rule unique_ids)
  finally show ?thesis using False by blast
qed

lemmas head_table_simps = head_table_def table_of_def catalog_simps col_def null_col_def

lemma head_table_names:
  "td_name (head_table ''apitoken'') = ''apitoken''" "td_name (head_table ''backend'') = ''backend''"
  "td_name (head_table ''tsigkey'') = ''tsigkey''" "td_name (head_table ''challengeevent'') = ''challengeevent''"
  "td_name (head_table ''domain'') = ''domain''" "td_primary_key (head_table ''apitoken'') = ''id''"
  "td_primary_key (head_table ''backend'') = ''id''" "td_primary_key (head_table ''tsigkey'') = ''id''"
  "td_primary_key (head_table ''challengeevent'') = ''id''" "td_primary_key (head_table ''domain'') = ''id''"
  by (simp_all add: head_table_simps)

lemma head_rows_ok:
  "row_ok rows (head_table ''apitoken'') (token_columns t) \<longleftrightarrow> at_id t \<noteq> None"
  "row_ok rows (head_table ''backend'') (backend_columns b) \<longleftrightarrow> b_id b \<noteq> None"
  "row_ok rows (head_table ''tsigkey'') (tsig_columns k) \<longleftrightarrow> tr_id k \<noteq> None"
  "row_ok rows (head_table ''challengeevent'') (event_columns e) \<longleftrightarrow>
     ce_id e \<noteq> None \<and> (ce_tsig_key_id e \<noteq> None \<longrightarrow> nullable VInt (ce_tsig_key_id e) \<in> (\<lambda>x. cell x ''id'') ` set (rows ''tsigkey''))"
  "row_ok rows (head_table ''domain'') (domain_columns m) \<longleftrightarrow>
     dm_id m \<noteq> None \<and> VInt (dm_backend_id m) \<in> (\<lambda>x. cell x ''id'') ` set (rows ''backend'')"
  by (auto simp: row_ok_def head_table_simps columns_simps column_ok_def refers_def)

lemma head_tables_ok:
  "table_ok (rows_of d) (head_table ''admincredential'')"
  "table_ok (rows_of d) (head_table ''apitoken'') \<longleftrightarrow>
     None \<notin> at_id ` set (db_api_tokens d) \<and> distinct (map at_id (db_api_tokens d))"
  "table_ok (rows_of d) (head_table ''backend'') \<longleftrightarrow>
     None \<notin> b_id ` set (db_backends d) \<and> distinct (map b_id (db_backends d))"
  "table_ok (rows_of d) (head_table ''tsigkey'') \<longleftrightarrow>
     None \<notin> tr_id ` set (db_tsig_keys d) \<and> distinct (map tr_id (db_tsig_keys d))"
  "table_ok (rows_of d) (head_table ''challengeevent'') \<longleftrightarrow>
     None \<notin> ce_id ` set (db_events d) \<and> distinct (map ce_id (db_events d))
     \<and> (\<forall>e \<in> set (db_events d). ce_tsig_key_id e \<noteq> None \<longrightarrow> ce_tsig_key_id e \<in> tr_id ` set (db_tsig_keys d))"
  "table_ok (rows_of d) (head_table ''domain'') \<longleftrightarrow>
     None \<notin> dm_id ` set (db_domains d) \<and> distinct (map dm_id (db_domains d))
     \<and> (\<forall>m \<in> set (db_domains d). Some (dm_backend_id m) \<in> b_id ` set (db_backends d))"
proof -
  have id: "cell (token_columns t) ''id'' = nullable VInt (at_id t)" "cell (backend_columns b) ''id'' = nullable VInt (b_id b)"
    "cell (tsig_columns k) ''id'' = nullable VInt (tr_id k)" "cell (event_columns e) ''id'' = nullable VInt (ce_id e)"
    "cell (domain_columns m) ''id'' = nullable VInt (dm_id m)" for t b k e m
    by (simp_all add: columns_simps)
  have key: "nullable VInt x \<in> (\<lambda>x. cell x ''id'') ` set (rows_of d ''tsigkey'') \<longleftrightarrow> x \<in> tr_id ` set (db_tsig_keys d)"
    "VInt i \<in> (\<lambda>x. cell x ''id'') ` set (rows_of d ''backend'') \<longleftrightarrow> Some i \<in> b_id ` set (db_backends d)" for x i
    by (auto simp: id image_iff image_image) (metis nullable_simps(6))+
  show "table_ok (rows_of d) (head_table ''admincredential'')"
    by (simp add: table_ok_def head_table_simps columns_simps column_ok_def unique_column_def split: option.splits)
  show "table_ok (rows_of d) (head_table ''apitoken'') \<longleftrightarrow>
     None \<notin> at_id ` set (db_api_tokens d) \<and> distinct (map at_id (db_api_tokens d))"
    by (subst table_ok_rows [of "rows_of d" _ token_columns "db_api_tokens d" at_id "\<lambda>_. True"]) (simp_all add: head_table_names head_rows_ok id)
  show "table_ok (rows_of d) (head_table ''backend'') \<longleftrightarrow>
     None \<notin> b_id ` set (db_backends d) \<and> distinct (map b_id (db_backends d))"
    by (subst table_ok_rows [of "rows_of d" _ backend_columns "db_backends d" b_id "\<lambda>_. True"]) (simp_all add: head_table_names head_rows_ok id)
  show "table_ok (rows_of d) (head_table ''tsigkey'') \<longleftrightarrow>
     None \<notin> tr_id ` set (db_tsig_keys d) \<and> distinct (map tr_id (db_tsig_keys d))"
    by (subst table_ok_rows [of "rows_of d" _ tsig_columns "db_tsig_keys d" tr_id "\<lambda>_. True"]) (simp_all add: head_table_names head_rows_ok id)
  show "table_ok (rows_of d) (head_table ''challengeevent'') \<longleftrightarrow>
     None \<notin> ce_id ` set (db_events d) \<and> distinct (map ce_id (db_events d))
     \<and> (\<forall>e \<in> set (db_events d). ce_tsig_key_id e \<noteq> None \<longrightarrow> ce_tsig_key_id e \<in> tr_id ` set (db_tsig_keys d))"
    by (rule table_ok_rows [of "rows_of d" _ event_columns _ ce_id])
       (simp_all only: head_table_names rows_of_simps head_rows_ok id key [unfolded rows_of_simps])
  show "table_ok (rows_of d) (head_table ''domain'') \<longleftrightarrow>
     None \<notin> dm_id ` set (db_domains d) \<and> distinct (map dm_id (db_domains d))
     \<and> (\<forall>m \<in> set (db_domains d). Some (dm_backend_id m) \<in> b_id ` set (db_backends d))"
    by (rule table_ok_rows [of "rows_of d" _ domain_columns _ dm_id])
       (simp_all only: head_table_names rows_of_simps head_rows_ok id key [unfolded rows_of_simps])
qed

lemma head_constraints: "constraints_hold head_catalog (rows_of d) \<longleftrightarrow> schema_ok d"
proof -
  have "list_all (\<lambda>i. ix_unique i \<longrightarrow> unique_column (rows_of d (ix_table i)) (ix_column i)) (ct_indexes head_catalog) \<longleftrightarrow>
      distinct (map b_name (db_backends d)) \<and> distinct (map dm_zone (db_domains d))
      \<and> distinct (map tr_name (db_tsig_keys d)) \<and> distinct (map at_token_hash (db_api_tokens d))"
    by (auto simp: catalog_simps unique_text_columns)
  then show ?thesis
    by (auto simp: constraints_hold_def head_tables head_tables_ok schema_ok_def)
qed

text \<open>
  C17: the migration gives the database exactly the guarantees that the rest of the system counts on. On
  an empty database every statement of the upgrade succeeds, a database satisfies the constraints of the
  resulting catalog exactly when it satisfies the schema invariant, and the downgrade takes the
  catalog back to the empty one.
\<close>

theorem migration_enforces_schema:
  "\<exists>c. run_ddls upgrade empty_catalog = Some c
     \<and> (\<forall>d. constraints_hold c (rows_of d) \<longleftrightarrow> schema_ok d)
     \<and> run_ddls downgrade c = Some empty_catalog"
  using upgrade_runs downgrade_runs head_constraints by blast

section \<open>Deletions\<close>

lemma table_of_head:
  "table_of head_catalog n =
     (if n \<in> {''admincredential'', ''apitoken'', ''backend'', ''tsigkey'', ''challengeevent'', ''domain''}
      then Some (head_table n) else None)"
  by (auto simp: table_of_def head_table_def catalog_simps)

lemma null_reference_none: "\<not> list_ex (\<lambda>f. fk_table f = t \<and> fk_ondelete f = SetNull) fks \<Longrightarrow> null_reference t k fks r = r"
  by (induction r) (auto simp: null_reference_def list_ex_iff)

lemma head_foreign_keys:
  "td_foreign_keys (head_table ''admincredential'') = []" "td_foreign_keys (head_table ''apitoken'') = []"
  "td_foreign_keys (head_table ''backend'') = []" "td_foreign_keys (head_table ''tsigkey'') = []"
  "td_foreign_keys (head_table ''challengeevent'') =
     [\<lparr>fk_column = ''tsig_key_id'', fk_table = ''tsigkey'', fk_target = ''id'', fk_ondelete = SetNull\<rparr>]"
  "td_foreign_keys (head_table ''domain'') =
     [\<lparr>fk_column = ''backend_id'', fk_table = ''backend'', fk_target = ''id'', fk_ondelete = NoAction\<rparr>]"
  by (simp_all add: head_table_simps)

lemma restricted_head:
  "restricted head_catalog t k (rows_of d) \<longleftrightarrow> t = ''backend'' \<and> (\<exists>m \<in> set (db_domains d). VInt (dm_backend_id m) = k)"
  by (auto simp: restricted_def head_tables head_foreign_keys head_table_names list_ex_iff columns_simps)

lemma null_event:
  "null_reference ''tsigkey'' (VInt i) (td_foreign_keys (head_table ''challengeevent'')) (event_columns e) =
     event_columns (if ce_tsig_key_id e = Some i then e\<lparr>ce_tsig_key_id := None\<rparr> else e)"
  by (cases "ce_tsig_key_id e") (auto simp: null_reference_def head_foreign_keys event_columns_def nullable_def)

definition table_names :: "string set" where
  "table_names = {''admincredential'', ''apitoken'', ''backend'', ''tsigkey'', ''challengeevent'', ''domain''}"

lemma sql_delete_head:
  assumes "\<not> restricted head_catalog t k (rows_of d)"
    and "\<And>n. n \<in> table_names \<Longrightarrow>
       map (null_reference t k (td_foreign_keys (head_table n)))
         (if n = t then filter (\<lambda>r. cell r ''id'' \<noteq> k) (rows_of d n) else rows_of d n) = rows_of d' n"
  shows "sql_delete head_catalog t k (rows_of d) = Some (rows_of d')"
proof -
  have pk: "n \<in> table_names \<Longrightarrow> td_primary_key (head_table n) = ''id''" for n
    by (auto simp: table_names_def head_table_simps)
  have "n \<notin> table_names \<Longrightarrow> rows_of d n = rows_of d' n" for n by (auto simp: table_names_def rows_of_def)
  then have "(case table_of head_catalog n of
          None \<Rightarrow> rows_of d n
        | Some e \<Rightarrow> map (null_reference t k (td_foreign_keys e))
            (if n = t then filter (\<lambda>r. cell r (td_primary_key e) \<noteq> k) (rows_of d n) else rows_of d n)) = rows_of d' n" for n
    using assms(2) [of n] pk [of n]
    by (cases "n \<in> table_names"; cases "n = t") (simp_all add: table_of_head table_names_def [symmetric])
  then show ?thesis using assms(1) by (simp add: sql_delete_def)
qed

text \<open>
  C18: the deletions of the API are those of the database. Deleting a TSIG key by its id, under the foreign
  keys of the migration, is what the modelled revocation does: the key's row goes and the events that
  refer to it keep everything but the reference. Deleting a backend is refused by the
  database exactly when a domain refers to it, which is the case that the handler answers 409; otherwise
  only its row goes.
\<close>

theorem deletions_refine_sql:
  "run_ddls upgrade empty_catalog = Some head_catalog
   \<and> sql_delete head_catalog ''tsigkey'' (VInt i) (rows_of d) = Some (rows_of (drop_tsig_key i d))
   \<and> sql_delete head_catalog ''backend'' (VInt i) (rows_of d) =
       (if \<exists>m \<in> set (db_domains d). dm_backend_id m = i then None
        else Some (rows_of (d\<lparr>db_backends := filter (\<lambda>x. b_id x \<noteq> Some i) (db_backends d)\<rparr>)))"
proof (intro conjI)
  show "run_ddls upgrade empty_catalog = Some head_catalog" by (rule upgrade_runs)
  have keys: "filter (\<lambda>r. cell r ''id'' \<noteq> VInt i) (map tsig_columns ks) = map tsig_columns (filter (\<lambda>k. tr_id k \<noteq> Some i) ks)"
    "filter (\<lambda>r. cell r ''id'' \<noteq> VInt i) (map backend_columns bs) = map backend_columns (filter (\<lambda>b. b_id b \<noteq> Some i) bs)"
    for ks bs by (simp_all add: filter_map o_def columns_simps)
  show "sql_delete head_catalog ''tsigkey'' (VInt i) (rows_of d) = Some (rows_of (drop_tsig_key i d))"
  proof (rule sql_delete_head)
    show "\<not> restricted head_catalog ''tsigkey'' (VInt i) (rows_of d)" by (simp add: restricted_head)
    fix n assume "n \<in> table_names"
    then show "map (null_reference ''tsigkey'' (VInt i) (td_foreign_keys (head_table n)))
         (if n = ''tsigkey'' then filter (\<lambda>r. cell r ''id'' \<noteq> VInt i) (rows_of d n) else rows_of d n)
       = rows_of (drop_tsig_key i d) n"
      unfolding table_names_def
      by (elim insertE emptyE)
         (simp_all add: null_reference_none null_event keys head_foreign_keys(1-4,6) drop_tsig_key_def)
  qed
  show "sql_delete head_catalog ''backend'' (VInt i) (rows_of d) =
       (if \<exists>m \<in> set (db_domains d). dm_backend_id m = i then None
        else Some (rows_of (d\<lparr>db_backends := filter (\<lambda>x. b_id x \<noteq> Some i) (db_backends d)\<rparr>)))"
  proof (cases "\<exists>m \<in> set (db_domains d). dm_backend_id m = i")
    case True
    then show ?thesis by (auto simp: sql_delete_def restricted_head)
  next
    case False
    have "sql_delete head_catalog ''backend'' (VInt i) (rows_of d) =
        Some (rows_of (d\<lparr>db_backends := filter (\<lambda>x. b_id x \<noteq> Some i) (db_backends d)\<rparr>))"
    proof (rule sql_delete_head)
      show "\<not> restricted head_catalog ''backend'' (VInt i) (rows_of d)" using False by (simp add: restricted_head)
      fix n assume "n \<in> table_names"
      then show "map (null_reference ''backend'' (VInt i) (td_foreign_keys (head_table n)))
           (if n = ''backend'' then filter (\<lambda>r. cell r ''id'' \<noteq> VInt i) (rows_of d n) else rows_of d n)
         = rows_of (d\<lparr>db_backends := filter (\<lambda>x. b_id x \<noteq> Some i) (db_backends d)\<rparr>) n"
        unfolding table_names_def
        by (elim insertE emptyE) (simp_all add: null_reference_none keys head_foreign_keys)
    qed
    with False show ?thesis by simp
  qed
qed

text \<open>A database that checks these constraints at every commit is one that the other theories assume.\<close>

lemma catalog_enforces:
  "(\<And>old new w w'. de_commit E old new w = (Inr (), w') \<Longrightarrow> constraints_hold head_catalog (rows_of new)) \<Longrightarrow> enforces_schema E"
  by (auto simp: enforces_schema_def head_constraints)

end
