(* ===== verification/ApiApp.thy ===== *)
theory ApiApp
  imports ApiCrud
begin

text \<open>
  \<^verbatim>\<open>api/app.py\<close>: the application of the management plane as a function of a routed request:
  the origin check around the routes of all routers, the guarded documentation routes and the
  unguarded liveness route. An \<open>endpoint\<close> is a route with its parsed parameters and body.
\<close>

section \<open>Definitions\<close>

datatype endpoint =
    ApiHealth
  | OpenapiSchema
  | SwaggerUi
  | RedocUi
  | SessionStatus
  | Login string
  | Logout
  | ChangePassword string string
  | CreateBackend backend_create
  | ListBackends
  | ListProviders
  | GetBackend int
  | UpdateBackend int backend_update
  | DeleteBackend int
  | CreateDomain domain_create
  | ListDomains
  | DeleteDomain int
  | CreateTsigKey tsig_key_create
  | ListTsigKeys
  | RevokeTsigKey int
  | CreateApiToken api_token_create
  | ListApiTokens
  | RevokeApiToken int
  | ListEvents int int

datatype body =
    StatusOk
  | Documentation
  | Authenticated bool
  | Changed bool
  | BackendBody backend_read
  | BackendsBody "backend_read list"
  | ProvidersBody "provider_schema_read list"
  | DomainBody domain_read
  | DomainsBody "domain_read list"
  | TsigKeyBody tsig_key_created
  | TsigKeysBody "tsig_key_read list"
  | TokenBody api_token_created
  | TokensBody "api_token_read list"
  | EventsBody challenge_event_page
  | NoContent

text \<open>The method and the path under which a route is registered.\<close>

definition endpoint_method :: "endpoint \<Rightarrow> string" where
  "endpoint_method ep =
     (case ep of
        Login _ \<Rightarrow> ''POST'' | Logout \<Rightarrow> ''POST'' | ChangePassword _ _ \<Rightarrow> ''POST''
      | CreateBackend _ \<Rightarrow> ''POST'' | UpdateBackend _ _ \<Rightarrow> ''PATCH'' | DeleteBackend _ \<Rightarrow> ''DELETE''
      | CreateDomain _ \<Rightarrow> ''POST'' | DeleteDomain _ \<Rightarrow> ''DELETE''
      | CreateTsigKey _ \<Rightarrow> ''POST'' | RevokeTsigKey _ \<Rightarrow> ''DELETE''
      | CreateApiToken _ \<Rightarrow> ''POST'' | RevokeApiToken _ \<Rightarrow> ''DELETE''
      | _ \<Rightarrow> ''GET'')"

definition API_V1_PREFIX :: string where "API_V1_PREFIX = ''/api/v1''"

definition endpoint_path :: "endpoint \<Rightarrow> string" where
  "endpoint_path ep =
     (case ep of
        OpenapiSchema \<Rightarrow> ''/openapi.json'' | SwaggerUi \<Rightarrow> ''/docs'' | RedocUi \<Rightarrow> ''/redoc''
      | ApiHealth \<Rightarrow> API_V1_PREFIX @ ''/health''
      | SessionStatus \<Rightarrow> API_V1_PREFIX @ ''/auth/session'' | Login _ \<Rightarrow> API_V1_PREFIX @ ''/auth/login''
      | Logout \<Rightarrow> API_V1_PREFIX @ ''/auth/logout'' | ChangePassword _ _ \<Rightarrow> API_V1_PREFIX @ ''/auth/password''
      | CreateBackend _ \<Rightarrow> API_V1_PREFIX @ ''/backends'' | ListBackends \<Rightarrow> API_V1_PREFIX @ ''/backends''
      | ListProviders \<Rightarrow> API_V1_PREFIX @ ''/backends/providers''
      | GetBackend i \<Rightarrow> API_V1_PREFIX @ ''/backends/'' @ int_str i
      | UpdateBackend i _ \<Rightarrow> API_V1_PREFIX @ ''/backends/'' @ int_str i
      | DeleteBackend i \<Rightarrow> API_V1_PREFIX @ ''/backends/'' @ int_str i
      | CreateDomain _ \<Rightarrow> API_V1_PREFIX @ ''/domains'' | ListDomains \<Rightarrow> API_V1_PREFIX @ ''/domains''
      | DeleteDomain i \<Rightarrow> API_V1_PREFIX @ ''/domains/'' @ int_str i
      | CreateTsigKey _ \<Rightarrow> API_V1_PREFIX @ ''/tsig-keys'' | ListTsigKeys \<Rightarrow> API_V1_PREFIX @ ''/tsig-keys''
      | RevokeTsigKey i \<Rightarrow> API_V1_PREFIX @ ''/tsig-keys/'' @ int_str i
      | CreateApiToken _ \<Rightarrow> API_V1_PREFIX @ ''/tokens'' | ListApiTokens \<Rightarrow> API_V1_PREFIX @ ''/tokens''
      | RevokeApiToken i \<Rightarrow> API_V1_PREFIX @ ''/tokens/'' @ int_str i
      | ListEvents _ _ \<Rightarrow> API_V1_PREFIX @ ''/events'')"

definition guarded_docs ::
  "('n, 'f, 'w) api_env \<Rightarrow> 'f app_resources \<Rightarrow> request \<Rightarrow> ('n, 'w) api_state \<Rightarrow> body handled \<times> ('n, 'w) api_state" where
  "guarded_docs E R rq st = and_then (require_admin E R rq st) (\<lambda>_ _ st'. (Answer 200 Documentation, st'))"

definition keep_session ::
  "request \<Rightarrow> ('a \<Rightarrow> body) \<Rightarrow> 'a handled \<times> 's \<Rightarrow> (body \<times> session) handled \<times> 's" where
  "keep_session rq f m = apfst (map_handled (\<lambda>x. (f x, rq_session rq))) m"

text \<open>The routes; the session of the request comes back changed by login and logout only.\<close>

definition handle_endpoint ::
  "('n, 'f, 'w) api_env \<Rightarrow> 'f app_resources \<Rightarrow> endpoint \<Rightarrow> request \<Rightarrow> ('n, 'w) api_state \<Rightarrow>
   (body \<times> session) handled \<times> ('n, 'w) api_state" where
  "handle_endpoint E R ep rq st =
     (case ep of
        ApiHealth \<Rightarrow> (Answer 200 (StatusOk, rq_session rq), st)
      | OpenapiSchema \<Rightarrow> keep_session rq id (guarded_docs E R rq st)
      | SwaggerUi \<Rightarrow> keep_session rq id (guarded_docs E R rq st)
      | RedocUi \<Rightarrow> keep_session rq id (guarded_docs E R rq st)
      | SessionStatus \<Rightarrow> keep_session rq Authenticated (session_status E R rq st)
      | Login password \<Rightarrow> apfst (map_handled (apfst Authenticated)) (login E R password rq st)
      | Logout \<Rightarrow> apfst (map_handled (apfst Authenticated)) (logout rq st)
      | ChangePassword current new \<Rightarrow> keep_session rq Changed (change_password E R current new rq st)
      | CreateBackend p \<Rightarrow> keep_session rq BackendBody (create_backend E R p rq st)
      | ListBackends \<Rightarrow> keep_session rq BackendsBody (list_backends E R rq st)
      | ListProviders \<Rightarrow> keep_session rq ProvidersBody (list_providers E R rq st)
      | GetBackend i \<Rightarrow> keep_session rq BackendBody (get_backend E R i rq st)
      | UpdateBackend i p \<Rightarrow> keep_session rq BackendBody (update_backend E R i p rq st)
      | DeleteBackend i \<Rightarrow> keep_session rq (\<lambda>_. NoContent) (delete_backend E R i rq st)
      | CreateDomain p \<Rightarrow> keep_session rq DomainBody (create_domain E R p rq st)
      | ListDomains \<Rightarrow> keep_session rq DomainsBody (list_domains E R rq st)
      | DeleteDomain i \<Rightarrow> keep_session rq (\<lambda>_. NoContent) (delete_domain E R i rq st)
      | CreateTsigKey p \<Rightarrow> keep_session rq TsigKeyBody (create_tsig_key E R p rq st)
      | ListTsigKeys \<Rightarrow> keep_session rq TsigKeysBody (list_tsig_keys E R rq st)
      | RevokeTsigKey i \<Rightarrow> keep_session rq (\<lambda>_. NoContent) (revoke_tsig_key E R i rq st)
      | CreateApiToken p \<Rightarrow> keep_session rq TokenBody (create_api_token E R p rq st)
      | ListApiTokens \<Rightarrow> keep_session rq TokensBody (list_api_tokens E R rq st)
      | RevokeApiToken i \<Rightarrow> keep_session rq (\<lambda>_. NoContent) (revoke_api_token E R i rq st)
      | ListEvents limit offset \<Rightarrow> keep_session rq EventsBody (list_events E R limit offset rq st))"

definition app ::
  "('n, 'f, 'w) api_env \<Rightarrow> 'f app_resources \<Rightarrow> (string \<Rightarrow> bool) \<Rightarrow> endpoint \<Rightarrow> request \<Rightarrow> ('n, 'w) api_state \<Rightarrow>
   (body \<times> session) handled \<times> ('n, 'w) api_state" where
  "app E R netloc_ok ep rq st =
     csrf_dispatch netloc_ok (rs_management_origin R) API_V1_PREFIX (handle_endpoint E R ep) rq st"

section \<open>Probes\<close>

text \<open>
  \<^verbatim>\<open>/readyz\<close>: the readiness probe of the DNS plane, if there is one, else the population of
  the cache; the database is pinged when there is one.
\<close>

definition readyz ::
  "'f app_resources \<Rightarrow> (('n, 'w) api_state \<Rightarrow> bool) option \<Rightarrow> ('w \<Rightarrow> unit res \<times> 'w) \<Rightarrow> ('n, 'w) api_state \<Rightarrow>
   (bool \<times> bool \<times> bool) handled \<times> ('n, 'w) api_state" where
  "readyz R dns_readiness ping st =
     (let dns_ready = (case dns_readiness of
                         Some probe \<Rightarrow> probe st
                       | None \<Rightarrow> (case as_cache st of None \<Rightarrow> False | Some c \<Rightarrow> is_populated c));
          (api_ready, st') = (if rs_has_database R
                              then (let (r, w) = ping (as_world st) in (\<not> isl r, st\<lparr>as_world := w\<rparr>))
                              else (False, st));
          ready = (dns_ready \<and> api_ready)
      in (Answer (if ready then 200 else 503) (ready, dns_ready, api_ready), st'))"

section \<open>The single-page application\<close>

definition SPA_RESERVED_PREFIXES :: "string list" where
  "SPA_RESERVED_PREFIXES =
     [''api'', ''docs'', ''redoc'', ''openapi.json'', ''metrics'', ''healthz'', ''readyz'', ''assets'']"

text \<open>
  The file system: \<^verbatim>\<open>resolve\<close> gives the components of the real path of a path below
  the root, or raises (a path with a null byte, a loop of links).
\<close>

record file_system =
  fs_resolve :: "string list \<Rightarrow> string \<Rightarrow> string list res"
  fs_is_file :: "string list \<Rightarrow> bool"

definition first_segment :: "string \<Rightarrow> string" where
  "first_segment path = takeWhile (\<lambda>c. c \<noteq> CHR ''/'') path"

definition is_relative_to :: "string list \<Rightarrow> string list \<Rightarrow> bool" where
  "is_relative_to p dir \<longleftrightarrow> take (length dir) p = dir"

definition spa :: "file_system \<Rightarrow> string list \<Rightarrow> string list \<Rightarrow> string list \<Rightarrow> string \<Rightarrow> string list handled" where
  "spa F web_dir web_resolved index_html full_path =
     (if first_segment full_path \<in> set SPA_RESERVED_PREFIXES then http_error 404 ''Not Found''
      else if full_path \<noteq> []
      then (case fs_resolve F web_dir full_path of
              Inl e \<Rightarrow> Raise e
            | Inr candidate \<Rightarrow>
                if fs_is_file F candidate \<and> is_relative_to candidate web_resolved then Answer 200 candidate
                else Answer 200 index_html)
      else Answer 200 index_html)"

section \<open>A sample application\<close>

definition sample_argon2 :: "'w argon2" where
  "sample_argon2 =
     \<lparr>a2_hash = (\<lambda>p w. (''h'' @ p, w)),
      a2_verify = (\<lambda>h p. if h = ''h'' @ p then Inr True else Inl (OtherError ''VerifyMismatchError'')),
      a2_check_needs_rehash = (\<lambda>h. Inr False)\<rparr>"

definition sample_env :: "(string list, u8, int) api_env" where
  "sample_env =
     \<lparr>ae_loader = db_loader sample_names (\<lambda>_. Inr []) sample_validators (sample_fernet :: (u8, int) fernet_ops) [9, 7],
      ae_validators = sample_validators, ae_validation_errors = (\<lambda>_. Some []), ae_fernet = sample_fernet,
      ae_db = sample_db_env, ae_sha256_hex = map (\<lambda>b. char_of (unat b)), ae_argon2 = sample_argon2,
      ae_token_urlsafe = (\<lambda>w. (''tok'', w)), ae_token_bytes = (\<lambda>w. (replicate 32 7, w)),
      ae_monotonic = (\<lambda>w. (real_of_int w, w + 1)), ae_time = (\<lambda>w. (real_of_int w, w + 1)),
      ae_json_schema = (\<lambda>_. PNone)\<rparr>"

definition sample_resources :: "u8 app_resources" where
  "sample_resources =
     \<lparr>rs_admin_password_hash = ''hseed'', rs_management_origin = Some ''https://relay.example'',
      rs_has_database = True, rs_kek = Some [9, 7]\<rparr>"

definition sample_api_state :: "db \<Rightarrow> (string list, int) api_state" where
  "sample_api_state d =
     \<lparr>as_db = d, as_cache = Some cache_init, as_limiter = default_login_limiter, as_world = 1\<rparr>"

definition sample_request :: "endpoint \<Rightarrow> (string \<times> string) list \<Rightarrow> session \<Rightarrow> request" where
  "sample_request ep hs s =
     \<lparr>rq_method = endpoint_method ep, rq_path = endpoint_path ep, rq_headers = hs,
      rq_cookies = [(SESSION_COOKIE, ''signed'')], rq_client = Some ''10.0.0.1'', rq_session = s\<rparr>"

end
