(* ===== verification/ApiSteps.thy ===== *)
theory ApiSteps
  imports ApiApp
begin

text \<open>
  The database under the management API as a state machine: the writes that handlers make, each in
  a commit of its own, and the invariants of the database that follow.
\<close>

section \<open>The writes\<close>

inductive api_write :: "db \<Rightarrow> db \<Rightarrow> bool" where
  add_backend: "api_write d (d\<lparr>db_backends := db_backends d @ [b]\<rparr>)"
| change_backend: "b_id b = Some i \<Longrightarrow> api_write d (replace_backend i b d)"
| remove_backend: "\<forall>dm \<in> set (db_domains d). dm_backend_id dm \<noteq> i \<Longrightarrow>
    api_write d (d\<lparr>db_backends := filter (\<lambda>x. b_id x \<noteq> Some i) (db_backends d)\<rparr>)"
| add_domain: "api_write d (d\<lparr>db_domains := db_domains d @ [dm]\<rparr>)"
| remove_domain: "api_write d (d\<lparr>db_domains := filter (\<lambda>x. dm_id x \<noteq> Some i) (db_domains d)\<rparr>)"
| add_tsig_key: "api_write d (d\<lparr>db_tsig_keys := db_tsig_keys d @ [k]\<rparr>)"
| remove_tsig_key: "api_write d (drop_tsig_key i d)"
| write_tokens: "api_write d (d\<lparr>db_api_tokens := ts\<rparr>)"
| write_admin: "api_write d (d\<lparr>db_admin := a\<rparr>)"

text \<open>A write that a commit accepted.\<close>

inductive db_step :: "'w db_env \<Rightarrow> db \<Rightarrow> db \<Rightarrow> bool" for E where
  committed: "api_write d d' \<Longrightarrow> de_commit E d d' w = (Inr u, w') \<Longrightarrow> db_step E d d'"

abbreviation db_steps :: "'w db_env \<Rightarrow> db \<Rightarrow> db \<Rightarrow> bool" where
  "db_steps E \<equiv> (db_step E)\<^sup>*\<^sup>*"

section \<open>Every handler is a sequence of steps\<close>

definition steps_from :: "('n, 'f, 'w) api_env \<Rightarrow> db \<Rightarrow> ('n, 'w) api_state \<Rightarrow> bool" where
  "steps_from E d st \<longleftrightarrow> db_steps (ae_db E) d (as_db st)"

lemma steps_from_frame [simp]:
  "steps_from E d (st\<lparr>as_world := w\<rparr>) = steps_from E d st"
  "steps_from E d (st\<lparr>as_limiter := L\<rparr>) = steps_from E d st"
  "steps_from E d (refresh_routing_cache E' st) = steps_from E d st"
  "steps_from E d (snd (next_id E' st)) = steps_from E d st"
  "steps_from E d (snd (monotonic E' st)) = steps_from E d st"
  by (simp_all add: steps_from_def monotonic_def split_beta)

lemma steps_from_commit:
  assumes "steps_from E d st" and "api_write (as_db st) new"
  shows "steps_from E d (snd (commit_session E new st))"
proof (cases "de_commit (ae_db E) (as_db st) new (as_world st)")
  case (Pair r w)
  show ?thesis
  proof (cases r)
    case (Inl e)
    then show ?thesis using assms(1) Pair by (simp add: steps_from_def commit_session_def transact_def)
  next
    case (Inr u)
    then have "db_step (ae_db E) (as_db st) new" using assms(2) Pair by (intro committed) simp_all
    then show ?thesis
      using assms(1) Pair Inr by (simp add: steps_from_def commit_session_def transact_def)
  qed
qed

lemma steps_from_and_then:
  assumes "steps_from E d (snd m)" and "\<And>c x st. steps_from E d st \<Longrightarrow> steps_from E d (snd (f c x st))"
  shows "steps_from E d (snd (and_then m f))"
  using assms by (cases m; cases "fst m") (auto simp: and_then_def)

lemma steps_from_commit_or_409:
  assumes "steps_from E d st" and "api_write (as_db st) new"
    and "\<And>st. steps_from E d st \<Longrightarrow> steps_from E d (snd (k st))"
  shows "steps_from E d (snd (commit_or_409 E detail new k st))"
  using steps_from_commit [OF assms(1,2)] assms(3)
  by (auto simp: commit_or_409_def split_beta split: sum.splits)

lemma steps_from_commit_then:
  assumes "steps_from E d st" and "api_write (as_db st) new"
    and "\<And>st. steps_from E d st \<Longrightarrow> steps_from E d (snd (k st))"
  shows "steps_from E d (snd (commit_then E new k st))"
  using steps_from_commit [OF assms(1,2)] assms(3)
  by (auto simp: commit_then_def split_beta split: sum.splits)

lemma steps_from_api_token_valid:
  assumes "steps_from E d st"
  shows "steps_from E d (snd (api_token_valid E R k st))"
  using assms steps_from_commit [of E d "st\<lparr>as_world := _\<rparr>", OF _ write_tokens]
  by (auto simp: api_token_valid_def Let_def split_beta split: list.splits sum.splits)

lemma persist_admin_hash_write:
  "fst (persist_admin_hash E h d w) = d\<lparr>db_admin := db_admin (fst (persist_admin_hash E h d w))\<rparr>"
  by (simp add: persist_admin_hash_def Let_def split_beta split: option.splits)

lemma steps_from_commit_admin_hash:
  assumes "steps_from E d st"
  shows "steps_from E d (snd (commit_admin_hash E h st))"
proof -
  let ?p = "persist_admin_hash (ae_db E) h (as_db st) (as_world st)"
  have "api_write (as_db (st\<lparr>as_world := snd ?p\<rparr>)) (fst ?p)"
    by (subst persist_admin_hash_write) (simp add: write_admin)
  from steps_from_commit [OF _ this, of E d] show ?thesis
    using assms by (simp add: commit_admin_hash_def split_beta)
qed

lemma steps_from_verify_admin_password:
  "steps_from E d st \<Longrightarrow> steps_from E d (snd (verify_admin_password E R pw st))"
  by (auto simp: verify_admin_password_def Let_def split_beta steps_from_commit_admin_hash
      split: sum.splits bool.splits)

lemma steps_from_set_admin_password:
  "steps_from E d st \<Longrightarrow> steps_from E d (snd (set_admin_password E R pw st))"
  by (simp add: set_admin_password_def split_beta steps_from_commit_admin_hash)

lemma steps_from_require_admin:
  "steps_from E d st \<Longrightarrow> steps_from E d (snd (require_admin E R rq st))"
  using steps_from_api_token_valid [of E d st R]
  by (auto simp: require_admin_def split_beta split: option.splits sum.splits bool.splits prod.splits
      dest!: arg_cong [where f = snd])

lemma steps_from_guarded:
  assumes "steps_from E d st" and "\<And>st. steps_from E d st \<Longrightarrow> steps_from E d (snd (h st))"
  shows "steps_from E d (snd (guarded E R rq valid h st))"
  unfolding guarded_def using assms
  by (intro steps_from_and_then steps_from_require_admin) (simp_all split: sum.splits)

lemma steps_from_guarded_kek:
  assumes "steps_from E d st" and "\<And>kek st. steps_from E d st \<Longrightarrow> steps_from E d (snd (h kek st))"
  shows "steps_from E d (snd (guarded_kek E R rq valid h st))"
  unfolding guarded_kek_def using assms
  by (intro steps_from_and_then steps_from_require_admin) (simp_all split: sum.splits)

lemma next_id_db: "next_id E st = (i, st') \<Longrightarrow> as_db st' = as_db st"
  by (auto simp: next_id_def split_beta)

lemma steps_from_next_id: "next_id E' st = (i, st') \<Longrightarrow> steps_from E d st' = steps_from E d st"
  by (simp add: steps_from_def next_id_db)

lemma steps_from_login: "steps_from E d st \<Longrightarrow> steps_from E d (snd (login E R pw rq st))"
  using steps_from_verify_admin_password [of E d "snd (monotonic E st)" R pw]
  by (auto simp: login_def Let_def split_beta split: sum.splits bool.splits prod.splits)

lemma steps_from_change_password:
  assumes "steps_from E d st"
  shows "steps_from E d (snd (change_password E R cur new rq st))"
proof -
  have "steps_from E d (snd (case m of
               (Inl e, st1) \<Rightarrow> (Raise e, st1)
             | (Inr False, st1) \<Rightarrow> (http_error 403 ''current password is incorrect'', st1)
             | (Inr True, st1) \<Rightarrow>
                 (case set_admin_password E R new st1 of
                    (Inl e, st2) \<Rightarrow> (Raise e, st2)
                  | (Inr _, st2) \<Rightarrow> (Answer 200 True, st2))))"
    if "steps_from E d (snd m)" for m :: "bool res \<times> _"
    using that steps_from_set_admin_password [OF that, of R new]
    by (cases m) (auto split: sum.splits bool.splits prod.splits)
  from this [OF steps_from_verify_admin_password] show ?thesis
    unfolding change_password_def using assms
    by (intro steps_from_and_then steps_from_require_admin) simp_all
qed

lemma steps_from_store_backend:
  assumes "steps_from E d st" and "b_id new = Some i"
  shows "steps_from E d (snd (store_backend E i old new st))"
proof -
  let ?p = "restamp_backend (ae_db E) old new (as_world st)"
  have "b_id (fst ?p) = Some i" using restamp_backend_frame [of "ae_db E" old new "as_world st"] assms(2) by auto
  then show ?thesis
    using assms(1) unfolding store_backend_def Let_def split_beta
    by (intro steps_from_commit_or_409 change_backend) simp_all
qed

lemma backend_row_id: "backend_row d i = Some b \<Longrightarrow> b_id b = Some i"
  by (auto simp: backend_row_def find_Some_iff)

text \<open>The handlers, each by the combinators it is made of.\<close>

lemmas steps_combinators =
  steps_from_guarded steps_from_guarded_kek steps_from_and_then steps_from_require_admin
  steps_from_commit_or_409 steps_from_commit_then

lemma steps_from_create_backend: "steps_from E d st \<Longrightarrow> steps_from E d (snd (create_backend E R p rq st))"
  unfolding create_backend_def
  by (intro steps_from_guarded_kek steps_from_and_then)
     (auto simp: split_beta Let_def steps_from_next_id next_id_db split: prod.splits sum.splits
       intro!: steps_from_commit_or_409 add_backend)

lemma steps_from_update_backend: "steps_from E d st \<Longrightarrow> steps_from E d (snd (update_backend E R i p rq st))"
  unfolding update_backend_def
  by (intro steps_from_guarded_kek)
     (auto simp: Let_def backend_row_id split: option.splits prod.splits sum.splits
       intro!: steps_from_store_backend steps_from_and_then)

lemma steps_from_delete_backend: "steps_from E d st \<Longrightarrow> steps_from E d (snd (delete_backend E R i rq st))"
  unfolding delete_backend_def
  by (intro steps_from_guarded) (auto split: option.splits intro!: steps_from_commit_then remove_backend)

lemma steps_from_create_domain: "steps_from E d st \<Longrightarrow> steps_from E d (snd (create_domain E R p rq st))"
  unfolding create_domain_def
  by (intro steps_from_guarded_kek)
     (auto simp: split_beta Let_def intro!: steps_from_commit_or_409 add_domain)

lemma steps_from_delete_domain: "steps_from E d st \<Longrightarrow> steps_from E d (snd (delete_domain E R i rq st))"
  unfolding delete_domain_def
  by (intro steps_from_guarded) (auto intro!: steps_from_commit_then remove_domain)

lemma steps_from_create_tsig_key: "steps_from E d st \<Longrightarrow> steps_from E d (snd (create_tsig_key E R p rq st))"
  unfolding create_tsig_key_def
  by (intro steps_from_guarded_kek)
     (auto simp: split_beta Let_def split: sum.splits intro!: steps_from_commit_or_409 add_tsig_key)

lemma steps_from_revoke_tsig_key: "steps_from E d st \<Longrightarrow> steps_from E d (snd (revoke_tsig_key E R i rq st))"
  unfolding revoke_tsig_key_def
  by (intro steps_from_guarded) (auto intro!: steps_from_commit_then remove_tsig_key)

lemma steps_from_create_api_token: "steps_from E d st \<Longrightarrow> steps_from E d (snd (create_api_token E R p rq st))"
  unfolding create_api_token_def
  by (intro steps_from_guarded) (auto simp: split_beta Let_def intro!: steps_from_commit_then write_tokens)

lemma steps_from_revoke_api_token: "steps_from E d st \<Longrightarrow> steps_from E d (snd (revoke_api_token E R i rq st))"
  unfolding revoke_api_token_def
  by (intro steps_from_guarded) (auto intro!: steps_from_commit_then write_tokens)

lemma steps_from_reads:
  assumes "steps_from E d st"
  shows "steps_from E d (snd (list_backends E R rq st))" "steps_from E d (snd (get_backend E R i rq st))"
    "steps_from E d (snd (list_domains E R rq st))" "steps_from E d (snd (list_tsig_keys E R rq st))"
    "steps_from E d (snd (list_api_tokens E R rq st))" "steps_from E d (snd (list_events E R l off rq st))"
    "steps_from E d (snd (list_providers E R rq st))" "steps_from E d (snd (session_status E R rq st))"
    "steps_from E d (snd (guarded_docs E R rq st))"
  using assms
  unfolding list_backends_def get_backend_def list_domains_def list_tsig_keys_def list_api_tokens_def
    list_events_def list_providers_def session_status_def guarded_docs_def
  by (auto intro!: steps_combinators split: option.splits)

lemmas steps_from_handlers =
  steps_from_reads steps_from_login steps_from_change_password steps_from_create_backend steps_from_update_backend
  steps_from_delete_backend steps_from_create_domain steps_from_delete_domain steps_from_create_tsig_key
  steps_from_revoke_tsig_key steps_from_create_api_token steps_from_revoke_api_token

lemma snd_keep_session [simp]: "snd (keep_session rq f m) = snd m"
  by (simp add: keep_session_def)

lemma steps_from_handle_endpoint:
  "steps_from E d st \<Longrightarrow> steps_from E d (snd (handle_endpoint E R ep rq st))"
  by (cases ep) (simp_all add: handle_endpoint_def steps_from_handlers logout_def)

lemma app_db_steps: "db_steps (ae_db E) (as_db st) (as_db (snd (app E R netloc_ok ep rq st)))"
proof -
  have "steps_from E (as_db st) st" by (simp add: steps_from_def)
  from steps_from_handle_endpoint [OF this] have "steps_from E (as_db st) (snd (app E R netloc_ok ep rq st))"
    using \<open>steps_from E (as_db st) st\<close> by (simp add: app_def csrf_dispatch_def split: sum.splits)
  then show ?thesis by (simp add: steps_from_def)
qed

section \<open>Invariants of the database\<close>

text \<open>Events are never removed or rewritten; only the reference to a revoked key is cleared.\<close>

definition event_kept :: "challenge_event \<Rightarrow> challenge_event \<Rightarrow> bool" where
  "event_kept e e' \<longleftrightarrow> e' = e \<or> e' = e\<lparr>ce_tsig_key_id := None\<rparr>"

lemma event_kept_refl: "list_all2 event_kept es es"
  by (simp add: list_all2_refl event_kept_def)

lemma event_kept_trans: "event_kept a b \<Longrightarrow> event_kept b c \<Longrightarrow> event_kept a c"
  by (auto simp: event_kept_def)

lemma api_write_events: "api_write d d' \<Longrightarrow> list_all2 event_kept (db_events d) (db_events d')"
  by (induction rule: api_write.induct)
     (auto simp: event_kept_refl replace_backend_def drop_tsig_key_def list_all2_conv_all_nth event_kept_def)

lemma db_steps_events: "db_steps E d d' \<Longrightarrow> list_all2 event_kept (db_events d) (db_events d')"
proof (induction rule: rtranclp_induct)
  case base
  then show ?case by (rule event_kept_refl)
next
  case (step d1 d2)
  from step(2) have "list_all2 event_kept (db_events d1) (db_events d2)"
    by (cases) (rule api_write_events)
  from list_all2_trans [OF _ step(3) this] show ?case by (blast intro: event_kept_trans)
qed

lemma db_steps_schema: "db_steps E d d' \<Longrightarrow> enforces_schema E \<Longrightarrow> schema_ok d \<Longrightarrow> schema_ok d'"
proof (induction rule: rtranclp_induct)
  case (step d1 d2)
  from step(2) show ?case using step(4) by cases (auto simp: enforces_schema_def)
qed

text \<open>
  The management API keeps the database well formed and the audit log append-only. Whatever
  the request, authenticated or not, and whether it is answered or fails: the schema (unique names,
  zones, hashes and ids, every domain refers to a stored backend, every event to a stored key or to
  none) holds afterwards, and the events are those that were there, in order, with nothing changed
  but the reference to a key that was revoked.
\<close>

theorem api_keeps_database:
  assumes "enforces_schema (ae_db E)" and "schema_ok (as_db st)"
  shows "schema_ok (as_db (snd (app E R netloc_ok ep rq st)))
     \<and> list_all2 event_kept (db_events (as_db st)) (db_events (as_db (snd (app E R netloc_ok ep rq st))))"
  using db_steps_schema [OF app_db_steps assms] db_steps_events [OF app_db_steps] by blast

definition empty_db :: db where
  "empty_db = \<lparr>db_backends = [], db_domains = [], db_tsig_keys = [], db_api_tokens = [], db_events = [], db_admin = None\<rparr>"

lemma empty_db_schema [simp]: "schema_ok empty_db"
  by (simp add: schema_ok_def empty_db_def)

theorem api_keeps_database_witness:
  "schema_ok (as_db (snd (app sample_env sample_resources (\<lambda>_. True) (CreateApiToken \<lparr>kc_name = ''ci''\<rparr>)
     (sample_request (CreateApiToken \<lparr>kc_name = ''ci''\<rparr>) [(''origin'', ''https://relay.example'')] [(''admin'', PBool True)])
     (sample_api_state empty_db))))"
proof -
  have e: "enforces_schema (ae_db sample_env)" using sample_db_env_schema by (simp add: sample_env_def)
  have s: "schema_ok (as_db (sample_api_state empty_db))" by (simp add: sample_api_state_def)
  show ?thesis using api_keeps_database [OF e s] by blast
qed

section \<open>Convergence\<close>

text \<open>The endpoints that write what the data plane serves from.\<close>

definition routing_write :: "endpoint \<Rightarrow> bool" where
  "routing_write ep \<longleftrightarrow>
     (case ep of
        CreateBackend _ \<Rightarrow> True | UpdateBackend _ _ \<Rightarrow> True | DeleteBackend _ \<Rightarrow> True | CreateDomain _ \<Rightarrow> True
      | DeleteDomain _ \<Rightarrow> True | CreateTsigKey _ \<Rightarrow> True | RevokeTsigKey _ \<Rightarrow> True | _ \<Rightarrow> False)"

definition succeeded :: "'a handled \<Rightarrow> bool" where
  "succeeded r \<longleftrightarrow> (case r of Answer _ _ \<Rightarrow> True | _ \<Rightarrow> False)"

text \<open>A successful end leaves the cache as a refresh from the current database makes it.\<close>

definition converges :: "('n, 'f, 'w) api_env \<Rightarrow> 'n routing_cache option \<Rightarrow> 'a handled \<times> ('n, 'w) api_state \<Rightarrow> bool" where
  "converges E c m \<longleftrightarrow>
     (succeeded (fst m) \<longrightarrow>
       as_cache (snd m) = map_option (\<lambda>c. snd (cache_refresh (ae_loader E (as_db (snd m))) c)) c)"

lemma succeeded_simps [simp]:
  "succeeded (Answer c x)" "\<not> succeeded (HttpError c d hs)" "\<not> succeeded RequestInvalid" "\<not> succeeded (Raise e)"
  "\<not> succeeded (http_error c t)" "succeeded (map_handled f r) = succeeded r"
  by (simp_all add: succeeded_def http_error_def split: handled.splits)

lemma converges_failed [simp]: "\<not> succeeded r \<Longrightarrow> converges E c (r, st)"
  by (simp add: converges_def)

lemma converges_refresh [intro]: "as_cache st = c \<Longrightarrow> converges E c (r, refresh_routing_cache E st)"
  by (cases c) (simp_all add: converges_def refresh_routing_cache_def split_beta)

lemma converges_and_then:
  assumes "as_cache (snd m) = c" and "\<And>k x st. as_cache st = c \<Longrightarrow> converges E c (f k x st)"
  shows "converges E c (and_then m f)"
  using assms by (cases m; cases "fst m") (auto simp: and_then_def)

lemma converges_guarded:
  assumes "as_cache st = c" and "\<And>st. as_cache st = c \<Longrightarrow> converges E c (h st)"
  shows "converges E c (guarded E R rq valid h st)"
  unfolding guarded_def using assms by (intro converges_and_then) (auto split: sum.splits)

lemma converges_guarded_kek:
  assumes "as_cache st = c" and "\<And>kek st. as_cache st = c \<Longrightarrow> converges E c (h kek st)"
  shows "converges E c (guarded_kek E R rq valid h st)"
  unfolding guarded_kek_def using assms by (intro converges_and_then) (auto split: sum.splits)

lemma converges_commit_or_409:
  assumes "as_cache st = c" and "\<And>st. as_cache st = c \<Longrightarrow> converges E c (k st)"
  shows "converges E c (commit_or_409 E detail new k st)"
  using assms by (auto simp: commit_or_409_def commit_session_cache split: prod.splits sum.splits)

lemma converges_commit_then:
  assumes "as_cache st = c" and "\<And>st. as_cache st = c \<Longrightarrow> converges E c (k st)"
  shows "converges E c (commit_then E new k st)"
  using assms by (auto simp: commit_then_def commit_session_cache split: prod.splits sum.splits)

lemma converges_store_backend: "as_cache st = c \<Longrightarrow> converges E c (store_backend E i old new st)"
  unfolding store_backend_def Let_def split_beta by (intro converges_commit_or_409) auto

lemma converges_update_backend: "as_cache st = c \<Longrightarrow> converges E c (update_backend E R i p rq st)"
  unfolding update_backend_def
  by (intro converges_guarded_kek)
     (auto simp: Let_def split: option.splits prod.splits sum.splits
       intro!: converges_store_backend converges_and_then)

lemma converges_create_backend: "as_cache st = c \<Longrightarrow> converges E c (create_backend E R p rq st)"
  unfolding create_backend_def
  by (intro converges_guarded_kek converges_and_then)
     (auto simp: Let_def split_beta split: prod.splits sum.splits intro!: converges_commit_or_409)

lemma converges_create_domain: "as_cache st = c \<Longrightarrow> converges E c (create_domain E R p rq st)"
  unfolding create_domain_def
  by (intro converges_guarded_kek) (auto simp: Let_def split_beta intro!: converges_commit_or_409)

lemma converges_create_tsig_key: "as_cache st = c \<Longrightarrow> converges E c (create_tsig_key E R p rq st)"
  unfolding create_tsig_key_def
  by (intro converges_guarded_kek) (auto simp: Let_def split_beta split: sum.splits intro!: converges_commit_or_409)

lemma converges_deletes:
  assumes "as_cache st = c"
  shows "converges E c (delete_backend E R i rq st)" "converges E c (delete_domain E R i rq st)"
    "converges E c (revoke_tsig_key E R i rq st)"
  using assms unfolding delete_backend_def delete_domain_def revoke_tsig_key_def
  by (auto intro!: converges_guarded converges_commit_then split: option.splits)

lemma converges_keep_session: "converges E c m \<Longrightarrow> converges E c (keep_session rq f m)"
  by (cases m) (simp add: converges_def keep_session_def)

lemma converges_handle_endpoint:
  "routing_write ep \<Longrightarrow> as_cache st = c \<Longrightarrow> converges E c (handle_endpoint E R ep rq st)"
  by (cases ep)
     (simp_all add: routing_write_def handle_endpoint_def converges_keep_session converges_create_backend
       converges_update_backend converges_create_domain converges_create_tsig_key converges_deletes)

text \<open>
  C7: a configuration change reaches the data plane with the answer that reports it. When a
  request that creates, changes or deletes a backend, a domain or a TSIG key is answered with
  success, the cache that the DNS plane serves from holds the snapshot of the database with that
  change in it; only if that database cannot be loaded does it still hold the one before.
\<close>

theorem api_write_converges:
  assumes "routing_write ep" and "as_cache st = Some c" and "app E R netloc_ok ep rq st = (Answer code b, st')"
  shows "\<exists>c'. as_cache st' = Some c'
     \<and> ca_snapshot c' = (case ae_loader E (as_db st') of Inr s \<Rightarrow> Some s | Inl e \<Rightarrow> ca_snapshot c)"
proof -
  have "handle_endpoint E R ep rq st = (Answer code b, st')"
    using assms(3) by (auto simp: app_def csrf_dispatch_def http_error_def split: if_splits sum.splits)
  then have "as_cache st' = map_option (\<lambda>c. snd (cache_refresh (ae_loader E (as_db st')) c)) (Some c)"
    using converges_handle_endpoint [OF assms(1,2), of E R rq] by (simp add: converges_def)
  then show ?thesis by (simp add: cache_refresh_def split: sum.splits)
qed

abbreviation (input) sample_delete :: request where
  "sample_delete \<equiv> sample_request (DeleteDomain 1) [(''origin'', ''https://relay.example'')] [(''admin'', PBool True)]"

lemma sample_delete_ok:
  "\<exists>b st'. app sample_env sample_resources (\<lambda>_. True) (DeleteDomain 1) sample_delete (sample_api_state sample_db)
     = (Answer 204 b, st') \<and> db_domains (as_db st') = []"
  by (simp add: app_def csrf_dispatch_def csrf_needs_check_def csrf_origin_allowed_def sample_resources_def
      sample_request_def handle_endpoint_def keep_session_def delete_domain_def guarded_def require_admin_def
      credential_def SESSION_COOKIE_def session_is_admin_def get_session_def sample_api_state_def sample_db_def
      commit_then_def commit_session_def transact_def sample_env_def sample_db_env_def schema_ok_def)

theorem api_write_converges_witness:
  "let st' = snd (app sample_env sample_resources (\<lambda>_. True) (DeleteDomain 1) sample_delete (sample_api_state sample_db))
   in db_domains (as_db st') = []
      \<and> (\<exists>c'. as_cache st' = Some c'
           \<and> ca_snapshot c' = (case ae_loader sample_env (as_db st') of Inr s \<Rightarrow> Some s | Inl e \<Rightarrow> ca_snapshot cache_init))"
proof -
  obtain b st' where a: "app sample_env sample_resources (\<lambda>_. True) (DeleteDomain 1) sample_delete (sample_api_state sample_db)
     = (Answer 204 b, st')" and e: "db_domains (as_db st') = []" using sample_delete_ok by blast
  have r: "routing_write (DeleteDomain 1)" and c: "as_cache (sample_api_state sample_db) = Some cache_init"
    by (simp_all add: routing_write_def sample_api_state_def)
  show ?thesis using api_write_converges [OF r c a] e a by (simp add: Let_def)
qed

end
