(* ===== verification/ApiSecurity.thy ===== *)
theory ApiSecurity
  imports ApiSteps Serving
begin

text \<open>
  Security properties of the management API: who gets in, what a forged or an unauthenticated
  request can do, what a read can reveal, and what login, password change and tokens promise.
\<close>

section \<open>The admin guard\<close>

definition public_endpoint :: "endpoint \<Rightarrow> bool" where
  "public_endpoint ep \<longleftrightarrow> (case ep of ApiHealth \<Rightarrow> True | Login _ \<Rightarrow> True | Logout \<Rightarrow> True | _ \<Rightarrow> False)"

text \<open>A request with the token of a stored row.\<close>

definition presents_token :: "('n, 'f, 'w) api_env \<Rightarrow> request \<Rightarrow> db \<Rightarrow> bool" where
  "presents_token E rq d \<longleftrightarrow>
     (\<exists>k. credential (rq_headers rq) ''x-api-key'' = Some k
        \<and> hash_token (ae_sha256_hex E) k \<in> at_token_hash ` set (db_api_tokens d))"

lemma api_token_unknown:
  assumes "hash_token (ae_sha256_hex E) k \<notin> at_token_hash ` set (db_api_tokens (as_db st))"
  shows "api_token_valid E R k st = (Inr False, st)"
proof -
  have "filter (\<lambda>row. at_token_hash row = hash_token (ae_sha256_hex E) k) (db_api_tokens (as_db st)) = []"
    using assms by (auto simp: filter_empty_conv intro: rev_image_eqI)
  then show ?thesis by (simp add: api_token_valid_def)
qed

lemma require_admin_rejects:
  assumes "\<not> admin_session rq" and "\<not> presents_token E rq (as_db st)"
  shows "require_admin E R rq st = (http_error 401 ''authentication required'', st)"
  using assms
  by (auto simp: api_token_unknown require_admin_def admin_session_def presents_token_def split: option.splits)

lemmas guarded_defs =
  guarded_def guarded_kek_def guarded_docs_def session_status_def change_password_def list_providers_def
  create_backend_def list_backends_def get_backend_def update_backend_def delete_backend_def
  create_domain_def list_domains_def delete_domain_def create_tsig_key_def list_tsig_keys_def revoke_tsig_key_def
  create_api_token_def list_api_tokens_def revoke_api_token_def list_events_def

lemma handle_endpoint_rejects:
  assumes "\<not> public_endpoint ep" and "\<not> admin_session rq" and "\<not> presents_token E rq (as_db st)"
  shows "handle_endpoint E R ep rq st = (http_error 401 ''authentication required'', st)"
  using assms(1) require_admin_rejects [OF assms(2,3)]
  by (cases ep) (simp_all add: public_endpoint_def handle_endpoint_def keep_session_def guarded_defs http_error_def)

text \<open>
  C4: nothing behind the guard is reachable without a credential. A request that carries neither a
  session cookie with the admin marker nor the token of a stored row is answered 401 on every
  endpoint but the liveness route, login and logout (or the origin check ends it before), and it
  changes nothing: not the database, not the cache, not the limiter.
\<close>

theorem unauthenticated_rejected:
  assumes "\<not> public_endpoint ep" and "\<not> admin_session rq" and "\<not> presents_token E rq (as_db st)"
  shows "snd (app E R netloc_ok ep rq st) = st
     \<and> (fst (app E R netloc_ok ep rq st) = http_error 401 ''authentication required''
        \<or> csrf_needs_check (rs_management_origin R) API_V1_PREFIX rq
          \<and> csrf_origin_allowed netloc_ok (rs_management_origin R) rq \<noteq> Inr True
          \<and> \<not> succeeded (fst (app E R netloc_ok ep rq st)))"
  using handle_endpoint_rejects [OF assms, of R]
  by (auto simp: app_def csrf_dispatch_def split: sum.splits)

theorem unauthenticated_rejected_witness:
  "snd (app sample_env sample_resources (\<lambda>_. True) (DeleteBackend 1)
      (sample_request (DeleteBackend 1) [(''x-api-key'', ''guess'')] []) (sample_api_state sample_db))
   = sample_api_state sample_db"
proof -
  let ?rq = "sample_request (DeleteBackend 1) [(''x-api-key'', ''guess'')] []"
  have p: "\<not> public_endpoint (DeleteBackend 1)" by (simp add: public_endpoint_def)
  have a: "\<not> admin_session ?rq" by (simp add: admin_session_def sample_request_def session_is_admin_def)
  have t: "\<not> presents_token sample_env ?rq (as_db (sample_api_state sample_db))"
    by (simp add: presents_token_def sample_api_state_def sample_db_def)
  show ?thesis using unauthenticated_rejected [OF p a t] by blast
qed

section \<open>Forged requests\<close>

text \<open>A request that reached the route of an endpoint.\<close>

definition routed :: "request \<Rightarrow> endpoint \<Rightarrow> bool" where
  "routed rq ep \<longleftrightarrow> rq_method rq = endpoint_method ep \<and> rq_path rq = endpoint_path ep"

lemma unsafe_endpoint_protected:
  assumes "endpoint_method ep \<notin> set SAFE_METHODS"
  shows "take (length API_V1_PREFIX) (endpoint_path ep) = API_V1_PREFIX"
  using assms by (cases ep) (simp_all add: endpoint_method_def SAFE_METHODS_def endpoint_path_def)

lemma safe_endpoint_keeps:
  assumes "endpoint_method ep \<in> set SAFE_METHODS" and "credential (rq_headers rq) ''x-api-key'' = None"
  shows "snd (handle_endpoint E R ep rq st) = st"
proof -
  have "snd (require_admin E R rq st) = st" using assms(2) by (simp add: snd_require_admin)
  then obtain r where r: "require_admin E R rq st = (r, st)" by (metis prod.collapse)
  show ?thesis using assms(1)
    by (cases ep; cases r)
       (simp_all add: endpoint_method_def SAFE_METHODS_def handle_endpoint_def guarded_defs r split: sum.splits option.splits)
qed

text \<open>
  C9: a cross-site request changes nothing, provided that an allowed origin is configured: the setting is
  empty by default, and then the check is disabled. With an allowed origin, a request without an
  X-API-Key header whose origin (from Origin, or from Referer) is not the allowed one leaves the
  database, the cache and the limiter as they are, whatever session cookie the browser attached:
  one with an unsafe method is never answered with success, and a route with a safe method does
  not write.
\<close>

theorem forged_request_changes_nothing:
  assumes "rs_management_origin R = Some allowed" and "routed rq ep"
    and "map_of (rq_headers rq) ''x-api-key'' = None"
    and "csrf_origin_allowed netloc_ok (Some allowed) rq \<noteq> Inr True"
  shows "snd (app E R netloc_ok ep rq st) = st
     \<and> (endpoint_method ep \<notin> set SAFE_METHODS \<longrightarrow> \<not> succeeded (fst (app E R netloc_ok ep rq st)))"
proof (cases "endpoint_method ep \<in> set SAFE_METHODS")
  case True
  have "credential (rq_headers rq) ''x-api-key'' = None" using assms(3) by (simp add: credential_def)
  with True have k: "snd (handle_endpoint E R ep rq st) = st" by (intro safe_endpoint_keeps)
  have "\<not> csrf_needs_check (Some allowed) API_V1_PREFIX rq"
    using True assms(2) by (simp add: csrf_needs_check_def routed_def)
  with True k show ?thesis by (simp add: app_def csrf_dispatch_def assms(1))
next
  case False
  have "csrf_needs_check (Some allowed) API_V1_PREFIX rq"
    using False assms(2,3) unsafe_endpoint_protected [OF False] by (simp add: csrf_needs_check_def routed_def)
  with assms(4) show ?thesis by (auto simp: app_def csrf_dispatch_def assms(1) split: sum.splits)
qed

theorem forged_request_changes_nothing_witness:
  "snd (app sample_env sample_resources (\<lambda>_. True) (DeleteDomain 1)
      (sample_request (DeleteDomain 1) [(''referer'', ''https://evil.example/x'')] [(''admin'', PBool True)])
      (sample_api_state sample_db)) = sample_api_state sample_db"
proof -
  let ?rq = "sample_request (DeleteDomain 1) [(''referer'', ''https://evil.example/x'')] [(''admin'', PBool True)]"
  have o: "rs_management_origin sample_resources = Some ''https://relay.example''" by (simp add: sample_resources_def)
  have r: "routed ?rq (DeleteDomain 1)" by (simp add: routed_def sample_request_def)
  have k: "map_of (rq_headers ?rq) ''x-api-key'' = None" by (simp add: sample_request_def)
  have c: "csrf_origin_allowed (\<lambda>_. True) (Some ''https://relay.example'') ?rq \<noteq> Inr True" by code_simp
  show ?thesis using forged_request_changes_nothing [OF o r k c] by blast
qed

section \<open>Reads reveal no secret\<close>

text \<open>Two databases that differ in secret columns only.\<close>

definition same_but_secrets :: "db \<Rightarrow> db \<Rightarrow> bool" where
  "same_but_secrets d d' \<longleftrightarrow>
     list_all2 (\<lambda>b b'. \<exists>t. b' = b\<lparr>b_config_encrypted := t\<rparr>) (db_backends d) (db_backends d')
     \<and> list_all2 (\<lambda>m m'. \<exists>t. m' = m\<lparr>dm_secret_encrypted := t\<rparr> \<and> (t = None \<longleftrightarrow> dm_secret_encrypted m = None))
         (db_domains d) (db_domains d')
     \<and> list_all2 (\<lambda>k k'. \<exists>t. k' = k\<lparr>tr_secret_encrypted := t\<rparr>) (db_tsig_keys d) (db_tsig_keys d')
     \<and> list_all2 (\<lambda>a a'. \<exists>h. a' = a\<lparr>at_token_hash := h\<rparr>) (db_api_tokens d) (db_api_tokens d')
     \<and> db_events d' = db_events d"

lemma to_read_secrets [simp]:
  "backend_to_read (b\<lparr>b_config_encrypted := t\<rparr>) = backend_to_read b"
  "tsig_to_read (k\<lparr>tr_secret_encrypted := t\<rparr>) = tsig_to_read k"
  "token_to_read (a\<lparr>at_token_hash := h\<rparr>) = token_to_read a"
  "(s = None) = (dm_secret_encrypted m = None) \<Longrightarrow> domain_to_read (m\<lparr>dm_secret_encrypted := s\<rparr>) = domain_to_read m"
  by (auto simp: backend_to_read_def tsig_to_read_def token_to_read_def domain_to_read_def split: option.splits)

lemma list_reads_secrets:
  assumes "same_but_secrets d d'"
  shows "map_res backend_to_read (db_backends d) = map_res backend_to_read (db_backends d')"
    "map_res domain_to_read (db_domains d) = map_res domain_to_read (db_domains d')"
    "map_res tsig_to_read (db_tsig_keys d) = map_res tsig_to_read (db_tsig_keys d')"
    "map_res token_to_read (db_api_tokens d) = map_res token_to_read (db_api_tokens d')"
  using assms unfolding same_but_secrets_def
  by (auto intro!: map_res_cong2 elim!: list_all2_mono)

lemma backend_row_secrets:
  assumes "same_but_secrets d d'"
  shows "rel_option (\<lambda>b b'. backend_to_read b = backend_to_read b') (backend_row d i) (backend_row d' i)"
proof -
  have "list_all2 (\<lambda>b b'. \<exists>t. b' = b\<lparr>b_config_encrypted := t\<rparr>) bs bs' \<Longrightarrow>
      rel_option (\<lambda>b b'. backend_to_read b = backend_to_read b')
        (find (\<lambda>b. b_id b = Some i) bs) (find (\<lambda>b. b_id b = Some i) bs')" for bs bs'
    by (induction rule: list_all2_induct) auto
  then show ?thesis using assms by (simp add: same_but_secrets_def backend_row_def)
qed

text \<open>
  C14: secrets are write-only. The answer of every read endpoint to a logged-in administrator is the
  same on two databases that differ only in secret columns: the encrypted configurations, domain keys
  and TSIG secrets, the token hashes and the password hash. So no response carries any information
  about them, beyond whether a domain has a key.
\<close>

theorem reads_reveal_no_secret:
  assumes "endpoint_method ep = ''GET''" and "admin_session rq"
    and "same_but_secrets (as_db st) (as_db st')"
  shows "fst (handle_endpoint E R ep rq st) = fst (handle_endpoint E R ep rq st')"
proof -
  note eqs = list_reads_secrets [OF assms(3)]
  have ev: "ordered_events (as_db st') = ordered_events (as_db st)" "db_events (as_db st') = db_events (as_db st)"
    using assms(3) by (simp_all add: same_but_secrets_def ordered_events_def)
  have g: "fst (get_backend E R i rq st) = fst (get_backend E R i rq st')" for i
    using backend_row_secrets [OF assms(3), of i]
    by (cases rule: option.rel_cases)
       (auto simp: get_backend_def guarded_def require_admin_session [OF assms(2)] split: sum.splits)
  have l: "fst (list_events E R n off rq st) = fst (list_events E R n off rq st')" for n off
    unfolding list_events_def guarded_def require_admin_session [OF assms(2)] by (auto simp: ev split: sum.splits)
  show ?thesis using assms(1)
    by (cases ep)
       (simp_all add: endpoint_method_def handle_endpoint_def keep_session_def g l guarded_def guarded_docs_def
          session_status_def list_providers_def list_backends_def list_domains_def list_tsig_keys_def
          list_api_tokens_def require_admin_session [OF assms(2)] eqs split: sum.splits)
qed

theorem reads_reveal_no_secret_witness:
  "fst (handle_endpoint sample_env sample_resources ListDomains
      (sample_request ListDomains [] [(''admin'', PBool True)]) (sample_api_state sample_db))
   = fst (handle_endpoint sample_env sample_resources ListDomains
      (sample_request ListDomains [] [(''admin'', PBool True)])
      (sample_api_state (sample_db\<lparr>db_domains := map (dm_secret_encrypted_update (\<lambda>_. Some [1])) (db_domains sample_db)\<rparr>)))"
proof -
  let ?rq = "sample_request ListDomains [] [(''admin'', PBool True)]"
  let ?d = "sample_db\<lparr>db_domains := map (dm_secret_encrypted_update (\<lambda>_. Some [1])) (db_domains sample_db)\<rparr>"
  have m: "endpoint_method ListDomains = ''GET''" by (simp add: endpoint_method_def)
  have a: "admin_session ?rq"
    by (simp add: admin_session_def sample_request_def session_is_admin_def credential_def)
  have s: "same_but_secrets (as_db (sample_api_state sample_db)) (as_db (sample_api_state ?d))"
    by (auto simp: same_but_secrets_def sample_api_state_def sample_db_def)
  show ?thesis by (rule reads_reveal_no_secret [OF m a s])
qed

section \<open>Login\<close>

lemma verify_admin_password_frame:
  "as_cache (snd (verify_admin_password E R pw st)) = as_cache st"
  "as_limiter (snd (verify_admin_password E R pw st)) = as_limiter st"
  by (auto simp: verify_admin_password_def Let_def split_beta split: sum.splits bool.splits)

text \<open>
  C21: login does what the limiter and the password decide, and nothing else marks a session. While
  the source is locked out the answer is 429 with a Retry-After and does not depend on the password:
  the password is not even looked at, and nothing is written. Otherwise a wrong password is answered 401
  (500 when the limiter overflows) and recorded as a failure of the source; the right one is answered
  200 with a session that carries the admin marker, and the source's failures are forgotten.
\<close>

theorem login_outcome:
  assumes "password \<noteq> []"
  shows "let (now, st0) = monotonic E st; key = source rq; (r, st') = login E R password rq st
    in if \<not> is_allowed now key (as_limiter st)
       then status r = 429 \<and> as_db st' = as_db st \<and> as_limiter st' = as_limiter st
            \<and> (\<forall>other. other \<noteq> [] \<longrightarrow> login E R other rq st = (r, st'))
       else (case fst (verify_admin_password E R password st0) of
               Inl e \<Rightarrow> r = Raise e \<and> as_limiter st' = as_limiter st
             | Inr False \<Rightarrow> \<not> succeeded r \<and> status r \<in> {401, 500}
                 \<and> (\<exists>t. as_limiter st' = snd (record_failure t key (as_limiter st)))
             | Inr True \<Rightarrow> (\<exists>session. r = Answer 200 (True, session) \<and> session_is_admin session)
                 \<and> as_limiter st' = record_success key (as_limiter st))"
proof -
  obtain now st0 where m: "monotonic E st = (now, st0)" by fastforce
  obtain v st1 where v: "verify_admin_password E R password st0 = (v, st1)" by fastforce
  have l: "as_limiter st0 = as_limiter st" "as_db st0 = as_db st" "as_limiter st1 = as_limiter st"
    using monotonic_sel [of E st] m verify_admin_password_frame(2) [of E R password st0] v by simp_all
  have ok: "login_request_ok pw \<longleftrightarrow> pw \<noteq> []" for pw by (cases pw) (simp_all add: login_request_ok_def)
  show ?thesis
  proof (cases "is_allowed now (source rq) (as_limiter st)")
    case False
    then show ?thesis
      using assms by (simp add: login_def ok m l split_beta Let_def status_def)
  next
    case True
    show ?thesis
    proof (cases v)
      case (Inl e)
      then show ?thesis using assms True by (simp add: login_def ok m v l)
    next
      case (Inr b)
      then show ?thesis using assms True
        by (cases b)
           (auto simp: login_def ok m v l split_beta Let_def status_def http_error_def split: sum.splits)
    qed
  qed
qed

theorem login_outcome_witness:
  "\<exists>session st'. login sample_env sample_resources ''seed'' (sample_request Logout [] []) (sample_api_state empty_db)
      = (Answer 200 (True, session), st') \<and> session_is_admin session"
proof -
  let ?st = "sample_api_state empty_db" and ?rq = "sample_request Logout [] []"
  have m: "monotonic sample_env ?st = (1, ?st\<lparr>as_world := 2\<rparr>)"
    by (simp add: monotonic_def sample_env_def sample_api_state_def)
  have a: "is_allowed 1 (source ?rq) (as_limiter ?st)"
    by (simp add: sample_api_state_def default_login_limiter_def is_allowed_iff)
  have v: "fst (verify_admin_password sample_env sample_resources ''seed'' (?st\<lparr>as_world := 2\<rparr>)) = Inr True"
    by (simp add: verify_admin_password_def stored_admin_hash_def sample_resources_def sample_api_state_def empty_db_def
        sample_env_def verify_password_def password_needs_rehash_def sample_argon2_def)
  have p: "''seed'' \<noteq> []" by simp
  show ?thesis
    using login_outcome [OF p, of sample_env ?st ?rq sample_resources] a v
    by (cases "login sample_env sample_resources ''seed'' ?rq ?st") (simp add: m)
qed

section \<open>Password change\<close>

text \<open>
  What argon2 promises: a hash verifies the password it was made from and mismatches every other, and a
  fresh hash has the current parameters.
\<close>

definition argon2_laws :: "'w argon2 \<Rightarrow> bool" where
  "argon2_laws A \<longleftrightarrow>
     (\<forall>p q w. a2_verify A (fst (a2_hash A p w)) q
        = (if q = p then Inr True else Inl (OtherError ''VerifyMismatchError''))
        \<and> a2_check_needs_rehash A (fst (a2_hash A p w)) = Inr False)"

lemma verify_fresh_hash:
  "argon2_laws A \<Longrightarrow> verify_password A (fst (a2_hash A p w)) q = Inr (q = p)"
  by (simp add: argon2_laws_def verify_password_def)

lemma set_admin_password_stores:
  assumes "set_admin_password E R new st = (Inr u, st')"
  shows "\<exists>row w. db_admin (as_db st') = Some row \<and> ac_password_hash row = fst (a2_hash (ae_argon2 E) new w) \<and> rs_has_database R"
proof -
  let ?h = "hash_password (ae_argon2 E) new (as_world st)"
  let ?p = "persist_admin_hash (ae_db E) (fst ?h) (as_db st) (snd ?h)"
  have db: "rs_has_database R" using assms by (auto simp: set_admin_password_def split: if_splits)
  have "as_db st' = fst ?p"
    using assms db by (auto simp: set_admin_password_def commit_admin_hash_def commit_session_def transact_def
        split_beta split: sum.splits)
  moreover have "\<exists>row. db_admin (fst ?p) = Some row \<and> ac_password_hash row = fst ?h"
    by (auto simp: persist_admin_hash_def split_beta split: option.splits)
  ultimately show ?thesis using db by (auto simp: hash_password_def)
qed

text \<open>
  A password change takes effect at once and for good. When the route reports success, exactly the
  new password is accepted from then on, the old one no longer, and whatever the environment's seed
  hash is: the stored row wins over it.
\<close>

theorem password_change_effective:
  assumes "argon2_laws (ae_argon2 E)" and "change_password E R current new rq st = (Answer code b, st')"
    and "rs_has_database R'"
  shows "verify_admin_password E R' candidate st' = (Inr (candidate = new), st')"
proof -
  obtain st1 u where "set_admin_password E R new st1 = (Inr u, st')"
    using assms(2) by (auto simp: change_password_def and_then_def http_error_def
        split: prod.splits handled.splits if_splits sum.splits bool.splits)
  then obtain row w where r: "db_admin (as_db st') = Some row" "ac_password_hash row = fst (a2_hash (ae_argon2 E) new w)"
    using set_admin_password_stores by blast
  have "a2_check_needs_rehash (ae_argon2 E) (ac_password_hash row) = Inr False"
    using assms(1) r(2) by (simp add: argon2_laws_def)
  then show ?thesis
    using r verify_fresh_hash [OF assms(1)] assms(3)
    by (simp add: verify_admin_password_def stored_admin_hash_def password_needs_rehash_def split: bool.splits)
qed

lemma sample_argon2_laws: "argon2_laws sample_argon2"
  by (simp add: argon2_laws_def sample_argon2_def)

lemma sample_change:
  "\<exists>st'. change_password sample_env sample_resources ''seed'' ''new-password''
     (sample_request Logout [] [(''admin'', PBool True)]) (sample_api_state empty_db) = (Answer 200 True, st')"
  by (simp add: change_password_def require_admin_def sample_request_def credential_def session_is_admin_def
      password_change_ok_def verify_admin_password_def stored_admin_hash_def sample_resources_def sample_api_state_def
      empty_db_def sample_env_def verify_password_def password_needs_rehash_def sample_argon2_def set_admin_password_def
      hash_password_def commit_admin_hash_def persist_admin_hash_def commit_session_def transact_def sample_db_env_def
      schema_ok_def)

theorem password_change_effective_witness:
  "let st' = snd (change_password sample_env sample_resources ''seed'' ''new-password''
       (sample_request Logout [] [(''admin'', PBool True)]) (sample_api_state empty_db))
   in verify_admin_password sample_env sample_resources ''seed'' st' = (Inr False, st')"
proof -
  obtain st' where c: "change_password sample_env sample_resources ''seed'' ''new-password''
     (sample_request Logout [] [(''admin'', PBool True)]) (sample_api_state empty_db) = (Answer 200 True, st')"
    using sample_change by blast
  have a: "argon2_laws (ae_argon2 sample_env)" by (simp add: sample_env_def sample_argon2_laws)
  have d: "rs_has_database sample_resources" by (simp add: sample_resources_def)
  show ?thesis using password_change_effective [OF a c d, of "''seed''"] c by simp
qed

end
