(* ===== verification/ApiTokens.thy ===== *)
theory ApiTokens
  imports ApiSecurity "HOL-Library.Multiset"
begin

text \<open>
  The life of an API token, and the pages of the audit log.
\<close>

section \<open>Tokens\<close>

definition token_pairs :: "db \<Rightarrow> (int option \<times> string) list" where
  "token_pairs d = map (\<lambda>t. (at_id t, at_token_hash t)) (db_api_tokens d)"

lemma api_token_valid_pairs: "token_pairs (as_db (snd (api_token_valid E R k st))) = token_pairs (as_db st)"
  by (auto simp: api_token_valid_def token_pairs_def commit_session_db Let_def split_beta comp_def
      split: list.splits sum.splits)

lemma require_admin_pairs: "token_pairs (as_db (snd (require_admin E R rq st))) = token_pairs (as_db st)"
  by (simp add: snd_require_admin api_token_valid_pairs split: option.splits)

lemma schema_pairs:
  assumes "schema_ok d" and "(i, h) \<in> set (token_pairs d)" and "(j, h) \<in> set (token_pairs d)"
  shows "i = j"
proof -
  have "distinct (map snd (token_pairs d))" using assms(1) by (simp add: schema_ok_def token_pairs_def comp_def)
  then show ?thesis using assms(2,3) by (metis distinct_map inj_on_def prod.inject snd_conv)
qed

lemma distinct_filter_key: "distinct (map f xs) \<Longrightarrow> x \<in> set xs \<Longrightarrow> filter (\<lambda>y. f y = f x) xs = [x]"
  by (induction xs) (auto simp: filter_empty_conv image_iff)

lemma enforces_committed: "enforces_schema E \<Longrightarrow> fst (de_commit E old new w) = Inr u \<Longrightarrow> schema_ok new"
  by (cases "de_commit E old new w") (auto simp: enforces_schema_def)

lemma known_token:
  assumes "schema_ok (as_db st)" and "rs_has_database R"
    and "(i, hash_token (ae_sha256_hex E) k) \<in> set (token_pairs (as_db st))"
  shows "fst (api_token_valid E R k st) \<noteq> Inr False"
proof -
  let ?P = "\<lambda>row. at_token_hash row = hash_token (ae_sha256_hex E) k"
  have "distinct (map at_token_hash (db_api_tokens (as_db st)))" using assms(1) by (simp add: schema_ok_def)
  moreover obtain row where "row \<in> set (db_api_tokens (as_db st))" "?P row"
    using assms(3) by (auto simp: token_pairs_def)
  ultimately have "filter ?P (db_api_tokens (as_db st)) = [row]"
    using distinct_filter_key [of at_token_hash "db_api_tokens (as_db st)" row] by simp
  then show ?thesis using assms(2)
    by (simp add: api_token_valid_def Let_def split_beta split: sum.splits)
qed

lemma create_api_token_stores:
  assumes "enforces_schema (ae_db E)" and "create_api_token E R p rq st = (Answer c tok, st1)"
  shows "schema_ok (as_db st1) \<and> rs_has_database R
    \<and> (Some (tr_token_id tok), hash_token (ae_sha256_hex E) (tr_token tok)) \<in> set (token_pairs (as_db st1))"
  using assms
  by (auto simp: create_api_token_def guarded_def and_then_def get_session_def build_api_token_def commit_then_def
      commit_session_def transact_def token_pairs_def split_beta Let_def dest: enforces_committed
      split: handled.splits sum.splits if_splits prod.splits)

lemma create_api_token_row:
  assumes "create_api_token E R p rq st = (Answer c tok, st1)"
  shows "let d = as_db (snd (require_admin E R rq st))
     in as_db st1 = d\<lparr>db_api_tokens := db_api_tokens d @
          [\<lparr>at_id = Some (tr_token_id tok), at_name = kc_name p, at_token_hash = hash_token (ae_sha256_hex E) (tr_token tok),
            at_created_at = tr_token_created_at tok, at_last_used_at = None\<rparr>]\<rparr>"
  using assms
  by (auto simp: create_api_token_def guarded_def and_then_def get_session_def build_api_token_def next_id_def commit_then_def
      commit_session_def transact_def split_beta Let_def split: handled.splits sum.splits if_splits prod.splits)

lemma revoke_api_token_drops:
  assumes "revoke_api_token E R i rq st = (Answer c u, st')"
  shows "set (token_pairs (as_db st')) = {(j, h) \<in> set (token_pairs (as_db st)). j \<noteq> Some i}"
proof -
  let ?st0 = "snd (require_admin E R rq st)"
  have "as_db st' = (as_db ?st0)\<lparr>db_api_tokens := filter (\<lambda>t. at_id t \<noteq> Some i) (db_api_tokens (as_db ?st0))\<rparr>"
    using assms
    by (auto simp: revoke_api_token_def guarded_def and_then_def http_error_def commit_then_def commit_session_def
        transact_def split_beta split: handled.splits sum.splits if_splits prod.splits)
  then have "set (token_pairs (as_db st')) = {(j, h) \<in> set (token_pairs (as_db ?st0)). j \<noteq> Some i}"
    by (auto simp: token_pairs_def)
  then show ?thesis by (simp add: require_admin_pairs)
qed


section \<open>Pages of the audit log\<close>

text \<open>The page with a given number, for a page size.\<close>

definition page :: "nat \<Rightarrow> nat \<Rightarrow> 'a list \<Rightarrow> 'a list" where
  "page n k xs = take n (drop (k * n) xs)"

lemma concat_pages: "concat (map (\<lambda>k. page n k xs) [0..<m]) = take (m * n) xs"
proof (induction m)
  case (Suc m)
  have "take (Suc m * n) xs = take (m * n) xs @ page n m xs"
    by (simp add: page_def add.commute [of n] take_add)
  with Suc show ?case by simp
qed simp

definition read_event :: "challenge_event \<Rightarrow> challenge_event_read" where
  "read_event e = projr (event_to_read e)"

lemma map_res_events:
  assumes "None \<notin> ce_id ` set es"
  shows "map_res event_to_read es = Inr (map read_event es)"
proof -
  have "event_to_read e = Inr (read_event e)" if "e \<in> set es" for e
    using assms that by (cases "ce_id e") (force simp: event_to_read_def read_event_def image_iff)+
  then show ?thesis by (induction es) auto
qed

lemma list_events_page:
  assumes "admin_session rq" and "rs_has_database R" and "schema_ok (as_db st)" and "1 \<le> n" and "n \<le> 200"
  shows "list_events E R (int n) (int (k * n)) rq st =
    (Answer 200 \<lparr>cp_items = map read_event (page n k (ordered_events (as_db st))),
       cp_total = length (db_events (as_db st)), cp_limit = int n, cp_offset = int (k * n)\<rparr>, st)"
proof -
  have "None \<notin> ce_id ` set (page n k (ordered_events (as_db st)))"
    using assms(3) set_drop_subset set_take_subset
    by (fastforce simp: schema_ok_def page_def ordered_events_def)
  from map_res_events [OF this] show ?thesis
    using assms by (simp add: list_events_def guarded_def require_admin_session get_session_def answered_def page_def nat_mult_distrib)
qed

definition page_items :: "challenge_event_page handled \<Rightarrow> challenge_event_read list" where
  "page_items r = (case r of Answer _ p \<Rightarrow> cp_items p | _ \<Rightarrow> [])"

text \<open>
  C19: paging through the audit log shows every event exactly once, newest first. For every page size
  from 1 to 200, the pages from the first to any that reaches the end, put together, are all
  events of the database, in descending order of time and, for equal times, of id.
\<close>

theorem event_pages_complete:
  assumes "admin_session rq" and "rs_has_database R" and "schema_ok (as_db st)" and "1 \<le> n" and "n \<le> 200"
    and "length (db_events (as_db st)) \<le> m * n"
  shows "concat (map (\<lambda>k. page_items (fst (list_events E R (int n) (int (k * n)) rq st))) [0..<m])
       = map read_event (ordered_events (as_db st))
     \<and> mset (ordered_events (as_db st)) = mset (db_events (as_db st))
     \<and> sorted_wrt (\<lambda>e e'. ce_ts e' < ce_ts e \<or> ce_ts e' = ce_ts e \<and> event_id e' \<le> event_id e)
         (ordered_events (as_db st))"
proof (intro conjI)
  let ?es = "ordered_events (as_db st)"
  have "concat (map (\<lambda>k. page_items (fst (list_events E R (int n) (int (k * n)) rq st))) [0..<m])
      = concat (map (\<lambda>k. map read_event (page n k ?es)) [0..<m])"
    unfolding list_events_page [OF assms(1-5)] page_items_def by simp
  also have "\<dots> = map read_event (take (m * n) ?es)"
    using concat_pages [of n ?es m, symmetric] by (simp only: map_concat map_map comp_def)
  also have "\<dots> = map read_event ?es" using assms(6) by (simp add: ordered_events_def)
  finally show "concat (map (\<lambda>k. page_items (fst (list_events E R (int n) (int (k * n)) rq st))) [0..<m])
      = map read_event ?es" .
  show "mset ?es = mset (db_events (as_db st))" by (simp add: ordered_events_def)
  have "sorted (map event_key ?es)" by (simp add: ordered_events_def)
  then show "sorted_wrt (\<lambda>e e'. ce_ts e' < ce_ts e \<or> ce_ts e' = ce_ts e \<and> event_id e' \<le> event_id e) ?es"
    unfolding sorted_map by (elim sorted_wrt_mono_rel [rotated]) (auto simp: less_eq_prod_def event_key_def)
qed

definition sample_event :: "int \<Rightarrow> challenge_event" where
  "sample_event i = \<lparr>ce_id = Some i, ce_ts = 5, ce_zone = ''a.org'', ce_record_name = ''_acme-challenge.a.org'',
     ce_action = ''present'', ce_provider = ''hurricane'', ce_result = ''ok'', ce_latency_ms = 1,
     ce_tsig_key_id = None, ce_source = ''ip'', ce_error_detail = None\<rparr>"

theorem event_pages_complete_witness:
  "concat (map (\<lambda>k. page_items (fst (list_events sample_env sample_resources (int 1) (int (k * 1))
        (sample_request Logout [] [(''admin'', PBool True)])
        (sample_api_state (empty_db\<lparr>db_events := [sample_event 1, sample_event 2]\<rparr>))))) [0..<2])
   = map read_event [sample_event 2, sample_event 1]"
proof -
  let ?rq = "sample_request Logout [] [(''admin'', PBool True)]"
  let ?d = "empty_db\<lparr>db_events := [sample_event 1, sample_event 2]\<rparr>"
  have a: "admin_session ?rq"
    by (simp add: admin_session_def sample_request_def session_is_admin_def credential_def)
  have d: "rs_has_database sample_resources" by (simp add: sample_resources_def)
  have s: "schema_ok (as_db (sample_api_state ?d))"
    by (simp add: schema_ok_def sample_api_state_def sample_event_def empty_db_def)
  have n: "1 \<le> (1 :: nat)" "(1 :: nat) \<le> 200" "length (db_events (as_db (sample_api_state ?d))) \<le> 2 * 1"
    by (simp_all add: sample_api_state_def)
  have o: "ordered_events (as_db (sample_api_state ?d)) = [sample_event 2, sample_event 1]"
    by (simp add: ordered_events_def sample_api_state_def event_key_def event_id_def sample_event_def)
  show ?thesis using event_pages_complete [OF a d s n, of sample_env] unfolding o by (rule conjunct1)
qed

lemma sample_create_token:
  "\<exists>c tok st1. create_api_token sample_env sample_resources \<lparr>kc_name = ''ci''\<rparr>
     (sample_request Logout [] [(''admin'', PBool True)]) (sample_api_state empty_db) = (Answer c tok, st1)
     \<and> tr_token tok = ''tok''"
  by (simp add: create_api_token_def guarded_def require_admin_def sample_request_def credential_def session_is_admin_def
      get_session_def sample_resources_def api_token_create_ok_def build_api_token_def generate_token_def sample_env_def
      next_id_def sample_db_env_def sample_api_state_def empty_db_def commit_then_def commit_session_def transact_def
      schema_ok_def)


end
