(* ===== verification/Startup.thy ===== *)
theory Startup
  imports Cache Rotation
begin

text \<open>
  \<^verbatim>\<open>startup.py\<close> and the part of \<^verbatim>\<open>settings.py\<close> that the process reads: the checks
  that run before the listener is bound. The file system, the connection test, Alembic, the
  revision stamped in the database and the queries of the rows are the record \<open>startup_env\<close>; the connection test
  includes its time-out. A query that returns, returns the rows of the database \<open>d\<close>.
\<close>

section \<open>Settings\<close>

record settings =
  se_database_dsn :: string
  se_credential_kek :: string
  se_admin_password_hash :: string
  se_session_secret :: string
  se_forwarded_allow_ips :: string
  se_management_origin :: "string option"
  se_spa_dir :: "string option"
  se_dns_bind :: string
  se_dns_port :: int
  se_http_bind :: string
  se_http_port :: int
  se_log_level :: string
  se_log_format :: string
  se_shutdown_drain_timeout :: real

text \<open>The settings when only the four secrets are set.\<close>

definition default_settings :: "string \<Rightarrow> string \<Rightarrow> string \<Rightarrow> string \<Rightarrow> settings" where
  "default_settings dsn kek pw secret =
     \<lparr>se_database_dsn = dsn, se_credential_kek = kek, se_admin_password_hash = pw, se_session_secret = secret,
      se_forwarded_allow_ips = ''127.0.0.1'', se_management_origin = None, se_spa_dir = None,
      se_dns_bind = ''0.0.0.0'', se_dns_port = 53, se_http_bind = ''0.0.0.0'', se_http_port = 8080,
      se_log_level = ''INFO'', se_log_format = ''text'', se_shutdown_drain_timeout = 10\<rparr>"

section \<open>Validation\<close>

definition validate_kek :: "('f, 'w) fernet_ops \<Rightarrow> string option \<Rightarrow> 'f kek res" where
  "validate_kek F kek_keylist =
     (case kek_keylist of
        None \<Rightarrow> Inl (StartupError ''credential KEK is not configured (set ASTROPATH_CREDENTIAL_KEK)'')
      | Some raw \<Rightarrow>
          if raw = [] then Inl (StartupError ''credential KEK is not configured (set ASTROPATH_CREDENTIAL_KEK)'')
          else (case kek_from_keylist F raw of
                  Inl (KekError m) \<Rightarrow> Inl (StartupError (''invalid credential KEK: '' @ m))
                | Inl e \<Rightarrow> Inl e
                | Inr kek \<Rightarrow> Inr kek))"

record 'w startup_env =
  su_is_dir :: "string \<Rightarrow> bool"
  su_ping :: "'w \<Rightarrow> unit res \<times> 'w"
  su_type_name :: "exn \<Rightarrow> string"
  su_script_head :: "string \<Rightarrow> string + string option"
  su_current_revision :: "'w \<Rightarrow> string option res \<times> 'w"
  su_read_rows :: "'w \<Rightarrow> unit res \<times> 'w"

definition alembic_head :: "'w startup_env \<Rightarrow> string \<Rightarrow> string option res" where
  "alembic_head S alembic_ini =
     (case su_script_head S alembic_ini of
        Inl command_error \<Rightarrow>
          Inl (StartupError (''alembic migrations are not resolvable from '' @ py_repr alembic_ini @ '' (''
            @ command_error @ ''); the runtime image must ship alembic.ini and the alembic/ directory''))
      | Inr head \<Rightarrow> Inr head)"

definition repr_option :: "string option \<Rightarrow> string" where
  "repr_option x = (case x of None \<Rightarrow> ''None'' | Some s \<Rightarrow> py_repr s)"

fun check_backends :: "backend list \<Rightarrow> unit res" where
  "check_backends [] = Inr ()"
| "check_backends (b # bs) =
     (case get_provider builtin_registry (b_type b) of
        Inl _ \<Rightarrow> Inl (StartupError (''backend '' @ py_repr (b_name b) @ '' references unknown provider '' @ py_repr (b_type b)))
      | Inr _ \<Rightarrow> check_backends bs)"

fun check_tsig_keys :: "tsig_row list \<Rightarrow> unit res" where
  "check_tsig_keys [] = Inr ()"
| "check_tsig_keys (k # ks) =
     (case algorithm_from_text (tr_algorithm k) of
        Inl _ \<Rightarrow> Inl (StartupError (''TSIG key '' @ py_repr (tr_name k) @ '' uses unsupported algorithm '' @ py_repr (tr_algorithm k)))
      | Inr _ \<Rightarrow> check_tsig_keys ks)"

definition validate_rows :: "db \<Rightarrow> unit res" where
  "validate_rows d =
     (case check_backends (db_backends d) of Inl e \<Rightarrow> Inl e | Inr _ \<Rightarrow> check_tsig_keys (db_tsig_keys d))"

definition validate_database :: "'w startup_env \<Rightarrow> string \<Rightarrow> db \<Rightarrow> 'w \<Rightarrow> unit res \<times> 'w" where
  "validate_database S alembic_ini d w =
     (case su_ping S w of
        (Inl e, w1) \<Rightarrow>
          (Inl (StartupError (''database is unreachable at startup ('' @ su_type_name S e
             @ ''); check ASTROPATH_DATABASE_DSN'')), w1)
      | (Inr _, w1) \<Rightarrow>
          (case alembic_head S alembic_ini of
             Inl e \<Rightarrow> (Inl e, w1)
           | Inr head \<Rightarrow>
               (case su_current_revision S w1 of
                  (Inl e, w2) \<Rightarrow> (Inl e, w2)
                | (Inr current, w2) \<Rightarrow>
                    if current \<noteq> head
                    then (Inl (StartupError (''database schema is not current (at revision '' @ repr_option current
                            @ '', expected '' @ repr_option head @ ''); run '' @ py_repr ''alembic upgrade head'')), w2)
                    else (case su_read_rows S w2 of
                            (Inl e, w3) \<Rightarrow> (Inl e, w3)
                          | (Inr _, w3) \<Rightarrow> (validate_rows d, w3)))))"

definition validate_db_startup ::
  "'w startup_env \<Rightarrow> settings \<Rightarrow> string \<Rightarrow> db \<Rightarrow> 'w \<Rightarrow> unit res \<times> 'w" where
  "validate_db_startup S settings alembic_ini d w =
     (case se_spa_dir settings of
        Some dir \<Rightarrow>
          if \<not> su_is_dir S dir
          then (Inl (StartupError (''configured SPA directory does not exist: '' @ dir)), w)
          else validate_database S alembic_ini d w
      | None \<Rightarrow> validate_database S alembic_ini d w)"

section \<open>What the checks decide\<close>

definition registered :: "string \<Rightarrow> bool" where
  "registered ty \<longleftrightarrow> ty \<in> set (map fst builtin_registry)"

lemma get_provider_registered: "(\<exists>c. get_provider reg ty = Inr c) \<longleftrightarrow> ty \<in> set (map fst reg)"
  by (auto simp: get_provider_def map_of_eq_None_iff split: option.splits dest: map_of_SomeD intro: rev_image_eqI)

lemma check_backends_Inr: "check_backends bs = Inr () \<longleftrightarrow> (\<forall>b \<in> set bs. registered (b_type b))"
proof (induction bs)
  case (Cons b bs)
  then show ?case
    using get_provider_registered [of builtin_registry "b_type b"]
    by (auto simp: registered_def split: sum.splits)
qed simp

lemma check_tsig_keys_Inr:
  "check_tsig_keys ks = Inr () \<longleftrightarrow> (\<forall>k \<in> set ks. \<exists>a. algorithm_from_text (tr_algorithm k) = Inr a)"
  by (induction ks) (auto split: sum.splits)

lemma check_backends_Inl: "check_backends bs = Inl e \<Longrightarrow> \<exists>m. e = StartupError m"
  by (induction bs) (auto split: sum.splits)

lemma check_tsig_keys_Inl: "check_tsig_keys ks = Inl e \<Longrightarrow> \<exists>m. e = StartupError m"
  by (induction ks) (auto split: sum.splits)

lemma validate_rows_cases:
  "validate_rows d = Inr () \<longleftrightarrow>
     (\<forall>b \<in> set (db_backends d). registered (b_type b))
     \<and> (\<forall>k \<in> set (db_tsig_keys d). \<exists>a. algorithm_from_text (tr_algorithm k) = Inr a)"
  "validate_rows d = Inl e \<Longrightarrow> \<exists>m. e = StartupError m"
  by (auto simp: validate_rows_def check_backends_Inr [symmetric] check_tsig_keys_Inr [symmetric]
      split: sum.splits dest: check_backends_Inl check_tsig_keys_Inl)

text \<open>
  C25: startup fails fast and for the documented reasons only. The checks pass exactly when the
  configured web directory exists, the database answers in time, its revision is the head of the
  migration scripts, its rows can be read, every stored backend has a registered provider and every stored TSIG key a
  supported algorithm. Otherwise the error is a StartupError, except for an exception of the query that reads
  the revision or of the queries that read the rows, which is passed on as it is.
\<close>

theorem startup_validation:
  "let (r, w') = validate_db_startup S settings ini d w; (p, w1) = su_ping S w; (c, w2) = su_current_revision S w1;
       (q, w3) = su_read_rows S w2
   in (r = Inr () \<longleftrightarrow>
         (\<forall>dir. se_spa_dir settings = Some dir \<longrightarrow> su_is_dir S dir) \<and> p = Inr ()
         \<and> (\<exists>head. su_script_head S ini = Inr head \<and> c = Inr head) \<and> q = Inr ()
         \<and> (\<forall>b \<in> set (db_backends d). registered (b_type b))
         \<and> (\<forall>k \<in> set (db_tsig_keys d). \<exists>a. algorithm_from_text (tr_algorithm k) = Inr a))
      \<and> (\<forall>e. r = Inl e \<longrightarrow> (\<exists>m. e = StartupError m) \<or> c = Inl e \<or> q = Inl e)"
proof -
  obtain p w1 where p: "su_ping S w = (p, w1)" by fastforce
  obtain c w2 where c: "su_current_revision S w1 = (c, w2)" by fastforce
  obtain q w3 where q: "su_read_rows S w2 = (q, w3)" by fastforce
  define spa where "spa \<longleftrightarrow> (\<forall>dir. se_spa_dir settings = Some dir \<longrightarrow> su_is_dir S dir)"
  have v: "validate_db_startup S settings ini d w =
      (if spa then validate_database S ini d w
       else (Inl (StartupError (''configured SPA directory does not exist: '' @ the (se_spa_dir settings))), w))"
    by (auto simp: spa_def validate_db_startup_def split: option.splits)
  have "validate_database S ini d w = (r, w') \<Longrightarrow>
      (r = Inr () \<longleftrightarrow> p = Inr () \<and> (\<exists>head. su_script_head S ini = Inr head \<and> c = Inr head) \<and> q = Inr () \<and> validate_rows d = Inr ())
      \<and> (\<forall>e. r = Inl e \<longrightarrow> (\<exists>m. e = StartupError m) \<or> c = Inl e \<or> q = Inl e)" for r w'
    by (cases p; cases "su_script_head S ini"; cases c; cases q)
       (auto simp: validate_database_def p c q alembic_head_def split: if_splits dest: validate_rows_cases(2))
  then show ?thesis unfolding v p c q Let_def split validate_rows_cases(1) spa_def [symmetric] by (auto split: prod.splits)
qed

definition sample_startup_env :: "unit startup_env" where
  "sample_startup_env =
     \<lparr>su_is_dir = (\<lambda>_. True), su_ping = (\<lambda>w. (Inr (), w)), su_type_name = (\<lambda>_. ''TimeoutError''),
      su_script_head = (\<lambda>_. Inr (Some ''0001'')), su_current_revision = (\<lambda>w. (Inr (Some ''0001''), w)),
      su_read_rows = (\<lambda>w. (Inr (), w))\<rparr>"

theorem startup_validation_witness:
  "\<exists>m. fst (validate_db_startup sample_startup_env (default_settings [] [] [] []) ''alembic.ini''
     \<lparr>db_backends = [], db_domains = [],
      db_tsig_keys = [\<lparr>tr_id = Some 1, tr_name = ''k'', tr_algorithm = ''rot13'', tr_secret_encrypted = [], tr_created_at = 0\<rparr>],
      db_api_tokens = [], db_events = [], db_admin = None\<rparr> ()) = Inl (StartupError m)"
  (is "\<exists>m. fst (validate_db_startup ?S ?T ?i ?d ()) = _")
proof -
  have "isl (algorithm_from_text ''rot13'')" by code_simp
  then have a: "\<not> (\<exists>a. algorithm_from_text ''rot13'' = Inr a)" by auto
  have p: "su_ping ?S () = (Inr (), ())" "su_current_revision ?S () = (Inr (Some ''0001''), ())"
    "su_read_rows ?S () = (Inr (), ())"
    by (simp_all add: sample_startup_env_def)
  show ?thesis
    using startup_validation [of ?S ?T ?i ?d "()"] a
    by (cases "fst (validate_db_startup ?S ?T ?i ?d ())") (auto simp: p split_beta Let_def)
qed

section \<open>A validated database loads\<close>

text \<open>
  What a row needs beyond the startup checks: secrets that the key list decrypts, names that dnspython
  parses, TSIG secrets that are base64, configurations that their schema accepts.
\<close>

definition key_loadable :: "'n name_ops \<Rightarrow> (string \<Rightarrow> bytes res) \<Rightarrow> ('f, 'w) fernet_ops \<Rightarrow> 'f kek \<Rightarrow> tsig_row \<Rightarrow> bool" where
  "key_loadable N decode F kek k \<longleftrightarrow>
     nm_from_text N (tr_name k) \<noteq> None
     \<and> (\<exists>s b. decrypt_text F kek (tr_secret_encrypted k) = Inr s \<and> decode s = Inr b)"

definition backend_loadable :: "validators \<Rightarrow> ('f, 'w) fernet_ops \<Rightarrow> 'f kek \<Rightarrow> backend \<Rightarrow> bool" where
  "backend_loadable V F kek b \<longleftrightarrow>
     (\<exists>kvs. decrypt_json F kek (b_config_encrypted b) = Inr (PDict kvs)
        \<and> (\<forall>cls. get_provider builtin_registry (b_type b) = Inr cls \<longrightarrow> (\<exists>p. class_from_config V cls kvs = Inr p)))"

definition domain_loadable :: "'n name_ops \<Rightarrow> ('f, 'w) fernet_ops \<Rightarrow> 'f kek \<Rightarrow> domain \<Rightarrow> bool" where
  "domain_loadable N F kek m \<longleftrightarrow>
     nm_from_text N (dm_zone m) \<noteq> None \<and> nm_from_text N (dm_record_name m) \<noteq> None
     \<and> (\<forall>t. dm_secret_encrypted m = Some t \<longrightarrow> (\<exists>s. decrypt_text F kek t = Inr s))"

lemma list_all2_right: "list_all2 R xs ys \<Longrightarrow> y \<in> set ys \<Longrightarrow> \<exists>x \<in> set xs. R x y"
  by (induction rule: list_all2_induct) auto

lemma list_all2_left: "list_all2 R xs ys \<Longrightarrow> x \<in> set xs \<Longrightarrow> \<exists>y \<in> set ys. R x y"
  by (induction rule: list_all2_induct) auto

lemma map_res_Inr:
  "(\<forall>x \<in> set xs. \<exists>y. f x = Inr y) \<Longrightarrow> \<exists>ys. map_res f xs = Inr ys \<and> list_all2 (\<lambda>x y. f x = Inr y) xs ys"
proof (induction xs)
  case (Cons x xs)
  then obtain y ys where "f x = Inr y" "map_res f xs = Inr ys" "list_all2 (\<lambda>x y. f x = Inr y) xs ys" by auto
  then show ?case by (intro exI [of _ "y # ys"]) simp
qed simp

lemma keyring_loop_Inr:
  "(\<forall>s \<in> set specs. \<exists>k. key_of_spec N d s = Inr k) \<Longrightarrow> \<exists>kr'. keyring_loop N d kr specs = Inr kr'"
  by (induction specs arbitrary: kr) (auto split: sum.splits)

lemma assemble_zones_Inr:
  assumes "\<forall>z \<in> set zs. (\<exists>p. make_provider V bs z = Inr p) \<and> (\<exists>r. zone_route N z = Inr r)"
  shows "\<exists>st' rs'. assemble_zones N V bs st rs zs = Inr (st', rs')"
  using assms
proof (induction zs arbitrary: st rs)
  case (Cons z zs)
  then obtain p r where "make_provider V bs z = Inr p" "zone_route N z = Inr r" by auto
  then have "\<exists>st1. ensure_provider V bs st z = Inr st1" by (simp add: ensure_provider_def split: option.splits)
  with \<open>zone_route N z = Inr r\<close> Cons show ?case by auto
qed simp

lemma tsig_ids_Inr:
  "(\<forall>k \<in> set ks. nm_from_text N (tr_name k) \<noteq> None) \<Longrightarrow> \<exists>ids'. tsig_key_ids_loop N ids ks = Inr ids'"
  by (induction ks arbitrary: ids) (auto split: option.splits)

lemma lookup_backend:
  assumes "Some i \<in> b_id ` set rows"
  shows "\<exists>b \<in> set rows. backend_by_id rows i = Some b"
proof -
  have "Some i \<in> fst ` set (map (\<lambda>b. (b_id b, b)) (rev rows))" using assms by (auto simp: image_image)
  then obtain b where "map_of (map (\<lambda>b. (b_id b, b)) (rev rows)) (Some i) = Some b"
    by (metis map_of_eq_None_iff not_None_eq)
  then show ?thesis by (auto simp: backend_by_id_def dest!: map_of_SomeD)
qed

lemma loaded_keys:
  assumes "\<forall>k \<in> set ks. key_loadable N decode F kek k \<and> (\<exists>a. algorithm_from_text (tr_algorithm k) = Inr a)"
  shows "\<exists>specs kr. map_res (tsig_spec_of_row F kek) ks = Inr specs \<and> build_keyring N decode specs = Inr kr"
proof -
  obtain specs where s: "map_res (tsig_spec_of_row F kek) ks = Inr specs"
      "list_all2 (\<lambda>k spec. tsig_spec_of_row F kek k = Inr spec) ks specs"
  proof -
    have "\<exists>y. tsig_spec_of_row F kek k = Inr y" if "k \<in> set ks" for k
      using bspec [OF assms that] by (auto simp: key_loadable_def tsig_spec_of_row_def)
    then show thesis using map_res_Inr [of ks "tsig_spec_of_row F kek"] that by blast
  qed
  have "\<exists>k. key_of_spec N decode spec = Inr k" if sp: "spec \<in> set specs" for spec
  proof -
    obtain k where "k \<in> set ks" "tsig_spec_of_row F kek k = Inr spec"
      using list_all2_right [OF s(2) sp] by blast
    then show ?thesis
      using bspec [OF assms, of k] by (auto simp: key_loadable_def tsig_spec_of_row_def key_of_spec_def)
  qed
  then show ?thesis using s(1) keyring_loop_Inr [of specs N decode "[]"] by (auto simp: build_keyring_def)
qed

lemma loaded_backend_provider:
  assumes "list_all2 (\<lambda>b c. backend_of_row F kek b = Inr c) rows backends" and "b \<in> set rows"
    and "\<forall>b \<in> set rows. registered (b_type b) \<and> backend_loadable V F kek b" and "zc_backend z = Some (b_name b)"
  shows "\<exists>p. make_provider V backends z = Inr p"
proof -
  have row: "bc_name c = b_name b' \<and> bc_provider c = b_type b'
      \<and> decrypt_json F kek (b_config_encrypted b') = Inr (bc_config c)"
    if "backend_of_row F kek b' = Inr c" for b' c
    using that by (auto simp: backend_of_row_def split: sum.splits pyval.splits)
  obtain c0 where "c0 \<in> set backends" "backend_of_row F kek b = Inr c0"
    using list_all2_left [OF assms(1,2)] by blast
  then have "b_name b \<in> fst ` set (map (\<lambda>c. (bc_name c, c)) (rev backends))" using row by force
  then obtain c where c: "map_of (map (\<lambda>c. (bc_name c, c)) (rev backends)) (b_name b) = Some c"
    by (metis map_of_eq_None_iff not_None_eq)
  then have "c \<in> set backends" by (auto dest!: map_of_SomeD)
  then obtain b' where b': "b' \<in> set rows" "backend_of_row F kek b' = Inr c"
    using list_all2_right [OF assms(1)] by blast
  obtain cls where cls: "get_provider builtin_registry (b_type b') = Inr cls"
    using assms(3) b'(1) get_provider_registered [of builtin_registry "b_type b'"] by (auto simp: registered_def)
  have "backend_loadable V F kek b'" using assms(3) b'(1) by blast
  then show ?thesis
    using cls row [OF b'(2)] by (auto simp: make_provider_def py_dict_def assms(4) c backend_loadable_def Let_def)
qed

lemma loadable_db_loads:
  assumes "validate_rows d = Inr ()" and "schema_ok d"
    and "\<forall>k \<in> set (db_tsig_keys d). key_loadable N decode F kek k"
    and "\<forall>b \<in> set (db_backends d). backend_loadable V F kek b"
    and "\<forall>m \<in> set (db_domains d). domain_loadable N F kek m"
  shows "\<exists>s. db_loader N decode V F kek d = Inr s"
proof -
  have reg: "\<forall>b \<in> set (db_backends d). registered (b_type b) \<and> backend_loadable V F kek b"
    and alg: "\<forall>k \<in> set (db_tsig_keys d). key_loadable N decode F kek k \<and> (\<exists>a. algorithm_from_text (tr_algorithm k) = Inr a)"
    using assms(1,3,4) by (auto simp: validate_rows_cases(1))
  obtain specs kr where k: "map_res (tsig_spec_of_row F kek) (db_tsig_keys d) = Inr specs" "build_keyring N decode specs = Inr kr"
    using loaded_keys [OF alg] by blast
  have "\<exists>c. backend_of_row F kek b = Inr c" if "b \<in> set (db_backends d)" for b
    using assms(4) that by (auto simp: backend_loadable_def backend_of_row_def)
  then obtain bs where b: "map_res (backend_of_row F kek) (db_backends d) = Inr bs"
      "list_all2 (\<lambda>b c. backend_of_row F kek b = Inr c) (db_backends d) bs"
    using map_res_Inr [of "db_backends d" "backend_of_row F kek"] by blast
  have z1: "\<exists>b \<in> set (db_backends d). backend_by_id (db_backends d) (dm_backend_id m) = Some b" if "m \<in> set (db_domains d)" for m
    using assms(2) that by (intro lookup_backend) (simp add: schema_ok_def)
  have "\<exists>z. zone_of_row F kek (db_backends d) m = Inr z" if "m \<in> set (db_domains d)" for m
    using z1 [OF that] bspec [OF assms(5) that]
    by (cases "dm_secret_encrypted m") (auto simp: zone_of_row_def domain_loadable_def)
  then obtain zs where z: "map_res (zone_of_row F kek (db_backends d)) (db_domains d) = Inr zs"
      "list_all2 (\<lambda>m z. zone_of_row F kek (db_backends d) m = Inr z) (db_domains d) zs"
    using map_res_Inr [of "db_domains d" "zone_of_row F kek (db_backends d)"] by blast
  have "(\<exists>p. make_provider V bs zc = Inr p) \<and> (\<exists>r. zone_route N zc = Inr r)" if zc: "zc \<in> set zs" for zc
  proof -
    obtain m where m: "m \<in> set (db_domains d)" "zone_of_row F kek (db_backends d) m = Inr zc"
      using list_all2_right [OF z(2) zc] by blast
    obtain row where row: "row \<in> set (db_backends d)" "backend_by_id (db_backends d) (dm_backend_id m) = Some row"
      using z1 [OF m(1)] by blast
    have f: "zc_backend zc = Some (b_name row)" "zc_zone zc = dm_zone m" "zc_record_name zc = dm_record_name m"
      using m(2) row(2) by (auto simp: zone_of_row_def split: option.splits sum.splits)
    show ?thesis
      using loaded_backend_provider [OF b(2) row(1) reg f(1)] assms(5) m(1)
      by (auto simp: zone_route_def f domain_loadable_def)
  qed
  then obtain st rs where a: "assemble_zones N V bs [] [] zs = Inr (st, rs)"
    using assemble_zones_Inr [of zs V bs N "[]" "[]"] by blast
  obtain ids where i: "load_tsig_key_ids N d = Inr ids"
    using tsig_ids_Inr [of "db_tsig_keys d" N "[]"] assms(3) by (auto simp: load_tsig_key_ids_def key_loadable_def)
  show ?thesis
    by (simp add: db_loader_def load_config_from_db_def k b z i build_data_plane_def a)
qed

text \<open>
  A database that passed the startup checks loads. If moreover the constraints of the schema hold
  and every row is readable (the secrets decrypt, the names parse, the configurations are
  accepted), the loader returns a snapshot, so the cache gets populated and the DNS plane becomes
  ready.
\<close>

theorem validated_database_loads:
  assumes "validate_rows d = Inr ()" and "schema_ok d"
    and "\<forall>k \<in> set (db_tsig_keys d). key_loadable N decode F kek k"
    and "\<forall>b \<in> set (db_backends d). backend_loadable V F kek b"
    and "\<forall>m \<in> set (db_domains d). domain_loadable N F kek m"
  shows "\<exists>s. db_loader N decode V F kek d = Inr s \<and> is_populated (snd (cache_refresh (Inr s) c))"
  using loadable_db_loads [OF assms] by (auto simp: cache_refresh_def is_populated_def)

theorem validated_database_loads_witness:
  "\<exists>s. db_loader sample_names (\<lambda>_. Inr []) sample_validators (sample_fernet :: (u8, unit) fernet_ops) [9, 7] sample_db = Inr s"
proof -
  let ?F = "sample_fernet :: (u8, unit) fernet_ops"
  have r: "validate_rows sample_db = Inr ()" by code_simp
  have s: "schema_ok sample_db" by (simp add: schema_ok_def sample_db_def)
  have t: "decrypt_text ?F [9, 7] [9, 65] = Inr ''A''" "decrypt_text ?F [9, 7] [7, 107] = Inr ''k''" by code_simp+
  have n: "nm_from_text sample_names ''k'' \<noteq> None" "nm_from_text sample_names ''a.org'' \<noteq> None"
    "nm_from_text sample_names ''_acme-challenge.a.org'' \<noteq> None" by code_simp+
  have j: "decrypt_json ?F [9, 7] [7, 123, 125] = Inr (PDict [])" by code_simp
  have k: "\<forall>k \<in> set (db_tsig_keys sample_db). key_loadable sample_names (\<lambda>_. Inr []) ?F [9, 7] k"
    by (simp add: sample_db_def key_loadable_def t n)
  have c: "\<exists>p. class_from_config sample_validators cls [] = Inr p" for cls
    by (cases cls) (simp_all add: class_from_config_def sample_validators_def hurricane_from_config_def route53_from_config_def)
  have b: "\<forall>b \<in> set (db_backends sample_db). backend_loadable sample_validators ?F [9, 7] b"
    by (simp add: sample_db_def backend_loadable_def j c)
  have m: "\<forall>m \<in> set (db_domains sample_db). domain_loadable sample_names ?F [9, 7] m"
    by (simp add: sample_db_def domain_loadable_def t n)
  show ?thesis using validated_database_loads [OF r s k b m] by blast
qed

end
