(* ===== verification/KeyLifecycle.thy ===== *)
theory KeyLifecycle
  imports ApiTokens Startup
begin

text \<open>
  The life of a TSIG key across the components: minted by the management API, encrypted by the store,
  decrypted by the loader, served by the routing cache to the listener, and revoked.
\<close>

section \<open>The keyring\<close>

lemma keyring_loop_dom:
  assumes "keyring_loop N d kr specs = Inr kr'"
  shows "map_of kr ls \<noteq> None \<Longrightarrow> map_of kr' ls \<noteq> None"
    and "spec \<in> set specs \<Longrightarrow> key_of_spec N d spec = Inr key \<Longrightarrow> map_of kr' (nm_labels N (tk_name key)) \<noteq> None"
proof -
  have grow: "keyring_loop N d kr specs = Inr kr' \<Longrightarrow> map_of kr ls \<noteq> None \<Longrightarrow> map_of kr' ls \<noteq> None" for kr specs ls
    by (induction specs arbitrary: kr) (auto split: sum.splits simp: update_conv')
  show "map_of kr ls \<noteq> None \<Longrightarrow> map_of kr' ls \<noteq> None" using grow assms by blast
  show "spec \<in> set specs \<Longrightarrow> key_of_spec N d spec = Inr key \<Longrightarrow> map_of kr' (nm_labels N (tk_name key)) \<noteq> None"
    using assms
  proof (induction specs arbitrary: kr)
    case (Cons s specs)
    then show ?case
      using grow [of _ specs "nm_labels N (tk_name key)"] by (fastforce split: sum.splits simp: update_conv')
  qed simp
qed

lemma keyring_only:
  assumes "build_keyring N d specs = Inr kr" and "spec \<in> set specs" and "key_of_spec N d spec = Inr key"
    and "\<And>s k. s \<in> set specs \<Longrightarrow> key_of_spec N d s = Inr k \<Longrightarrow> name_eq N (tk_name k) (tk_name key) \<Longrightarrow> s = spec"
  shows "map_of kr (nm_labels N (tk_name key)) = Some key"
proof -
  obtain k where k: "map_of kr (nm_labels N (tk_name key)) = Some k"
    using keyring_loop_dom(2) [OF assms(1) [unfolded build_keyring_def] assms(2,3)] by blast
  then obtain s where "s \<in> set specs" "key_of_spec N d s = Inr k" "name_eq N (tk_name k) (tk_name key)"
    using keyring_loop_keys [OF assms(1) [unfolded build_keyring_def]] by fastforce
  with assms(3,4) have "k = key" by fastforce
  with k show ?thesis by simp
qed

lemma key_ids_loop_keys:
  assumes "tsig_key_ids_loop N ids rows = Inr ids'" and "map_of ids' ls = Some i"
  shows "map_of ids ls = Some i
     \<or> (\<exists>row \<in> set rows. \<exists>m. tr_id row = Some i \<and> nm_from_text N (tr_name row) = Some m
           \<and> nm_labels N (nm_canonicalize N m) = ls)"
  using assms
proof (induction rows arbitrary: ids)
  case (Cons row rows)
  then show ?case by (fastforce split: option.splits if_splits simp: update_conv')
qed simp

lemma key_ids_loop_dom:
  assumes "tsig_key_ids_loop N ids rows = Inr ids'" and "row \<in> set rows" and "tr_id row = Some i"
    and "nm_from_text N (tr_name row) = Some m"
  shows "map_of ids' (nm_labels N (nm_canonicalize N m)) \<noteq> None"
proof -
  have grow: "tsig_key_ids_loop N ids rows = Inr ids' \<Longrightarrow> map_of ids ls \<noteq> None \<Longrightarrow> map_of ids' ls \<noteq> None" for ids rows ls
    by (induction rows arbitrary: ids) (auto split: option.splits simp: update_conv')
  show ?thesis
    using assms
  proof (induction rows arbitrary: ids)
    case (Cons r rows)
    then show ?case
      using grow [of _ rows "nm_labels N (nm_canonicalize N m)"]
      by (fastforce split: option.splits simp: update_conv')
  qed simp
qed

section \<open>The loaded snapshot\<close>

lemma map_res_InrD: "map_res f xs = Inr ys \<Longrightarrow> list_all2 (\<lambda>x y. f x = Inr y) xs ys"
  by (induction xs arbitrary: ys) (auto split: sum.splits)

lemma db_loader_Inr:
  assumes "db_loader N decode V F kek d = Inr s"
  obtains specs where "list_all2 (\<lambda>row spec. tsig_spec_of_row F kek row = Inr spec) (db_tsig_keys d) specs"
    and "build_keyring N decode specs = Inr (ru_keyring (sn_runtime s))"
    and "tsig_key_ids_loop N [] (db_tsig_keys d) = Inr (sn_tsig_key_ids s)"
  using assms
  by (auto simp: db_loader_def load_config_from_db_def load_tsig_key_ids_def build_data_plane_def
      dest!: map_res_InrD split: sum.splits prod.splits)

text \<open>The key that a stored row stands for.\<close>

lemma tsig_spec_of_row_Inr:
  "tsig_spec_of_row F kek row = Inr spec \<Longrightarrow>
     ts_name spec = tr_name row \<and> ts_algorithm spec = tr_algorithm row
     \<and> decrypt_text F kek (tr_secret_encrypted row) = Inr (ts_secret_b64 spec)"
  by (auto simp: tsig_spec_of_row_def split: sum.splits)

lemma key_of_spec_Inr:
  "key_of_spec N decode spec = Inr key \<Longrightarrow>
     algorithm_from_text (ts_algorithm spec) = Inr (tk_algorithm key)
     \<and> nm_from_text N (ts_name spec) = Some (tk_name key) \<and> decode (ts_secret_b64 spec) = Inr (tk_secret key)"
  by (auto simp: key_of_spec_def split: sum.splits option.splits)

text \<open>The rows whose name is that of a given name.\<close>

definition named_rows :: "'n name_ops \<Rightarrow> 'n \<Rightarrow> tsig_row list \<Rightarrow> tsig_row set" where
  "named_rows N n rows = {row \<in> set rows. \<exists>m. nm_from_text N (tr_name row) = Some m \<and> name_eq N m n}"

lemma keyring_from_row:
  assumes "list_all2 (\<lambda>row spec. tsig_spec_of_row F kek row = Inr spec) rows specs"
    and "s \<in> set specs" and "key_of_spec N decode s = Inr k" and "name_eq N (tk_name k) n"
  shows "\<exists>row \<in> named_rows N n rows. tsig_spec_of_row F kek row = Inr s"
proof -
  obtain row where "row \<in> set rows" "tsig_spec_of_row F kek row = Inr s"
    using list_all2_right [OF assms(1,2)] by blast
  then show ?thesis
    using tsig_spec_of_row_Inr [of F kek row s] key_of_spec_Inr [OF assms(3)] assms(4) by (auto simp: named_rows_def)
qed

lemma served_key:
  assumes "db_loader N decode V F kek d = Inr s" and "named_rows N n (db_tsig_keys d) = {row}"
    and "tr_id row = Some i" and "name_laws N"
  shows "(\<exists>key secret. map_of (ru_keyring (sn_runtime s)) (nm_labels N n) = Some key
       \<and> algorithm_from_text (tr_algorithm row) = Inr (tk_algorithm key)
       \<and> decrypt_text F kek (tr_secret_encrypted row) = Inr secret \<and> decode secret = Inr (tk_secret key))
     \<and> map_of (sn_tsig_key_ids s) (nm_labels N n) = Some i"
proof -
  obtain specs where l: "list_all2 (\<lambda>row spec. tsig_spec_of_row F kek row = Inr spec) (db_tsig_keys d) specs"
      "build_keyring N decode specs = Inr (ru_keyring (sn_runtime s))"
      "tsig_key_ids_loop N [] (db_tsig_keys d) = Inr (sn_tsig_key_ids s)"
    using db_loader_Inr [OF assms(1)] .
  have "row \<in> named_rows N n (db_tsig_keys d)" using assms(2) by blast
  then obtain m where row: "row \<in> set (db_tsig_keys d)" and m: "nm_from_text N (tr_name row) = Some m" "name_eq N m n"
    unfolding named_rows_def by blast
  obtain spec where spec: "spec \<in> set specs" "tsig_spec_of_row F kek row = Inr spec"
    using list_all2_left [OF l(1) row] by blast
  obtain key where key: "key_of_spec N decode spec = Inr key"
  proof (cases "key_of_spec N decode spec")
    case (Inl e)
    then show thesis using keyring_loop_bad [OF Inl spec(1), of "[]"] l(2) by (simp add: build_keyring_def)
  qed (rule that)
  note k = key_of_spec_Inr [OF key] and sp = tsig_spec_of_row_Inr [OF spec(2)]
  have n: "name_eq N (tk_name key) n" using k sp m by simp
  have "s' = spec" if "s' \<in> set specs" "key_of_spec N decode s' = Inr k" "name_eq N (tk_name k) (tk_name key)" for s' k
    using keyring_from_row [OF l(1) that(1,2), of n] that(3) n assms(2) spec(2) by auto
  then have "map_of (ru_keyring (sn_runtime s)) (nm_labels N n) = Some key"
    using keyring_only [OF l(2) spec(1) key] n by simp
  moreover obtain j where j: "map_of (sn_tsig_key_ids s) (nm_labels N n) = Some j"
    using key_ids_loop_dom [OF l(3) row assms(3) m(1)] m(2) by (auto simp: labels_canonicalize [OF assms(4)])
  moreover have "j = i"
  proof -
    obtain row' where "row' \<in> named_rows N n (db_tsig_keys d)" "tr_id row' = Some j"
      using key_ids_loop_keys [OF l(3) j] by (auto simp: labels_canonicalize [OF assms(4)] named_rows_def)
    then show ?thesis using assms(2,3) by simp
  qed
  ultimately show ?thesis using k sp by auto
qed

lemma unserved_key:
  assumes "db_loader N decode V F kek d = Inr s" and "named_rows N n (db_tsig_keys d) = {}"
  shows "map_of (ru_keyring (sn_runtime s)) (nm_labels N n) = None"
proof (rule ccontr)
  assume "map_of (ru_keyring (sn_runtime s)) (nm_labels N n) \<noteq> None"
  then obtain key where key: "map_of (ru_keyring (sn_runtime s)) (nm_labels N n) = Some key" by blast
  obtain specs where l: "list_all2 (\<lambda>row spec. tsig_spec_of_row F kek row = Inr spec) (db_tsig_keys d) specs"
      "build_keyring N decode specs = Inr (ru_keyring (sn_runtime s))"
    using db_loader_Inr [OF assms(1)] by blast
  obtain sp where "sp \<in> set specs" "key_of_spec N decode sp = Inr key" "name_eq N (tk_name key) n"
    using keyring_loop_keys [OF l(2) [unfolded build_keyring_def] key] by auto
  then show False using keyring_from_row [OF l(1)] assms(2) by fastforce
qed

section \<open>Minting and revoking\<close>

lemma require_admin_keys: "db_tsig_keys (as_db (snd (require_admin E R rq st))) = db_tsig_keys (as_db st)"
  by (auto simp: snd_require_admin api_token_valid_def commit_session_db Let_def split_beta
      split: option.splits list.splits sum.splits)

lemma create_tsig_key_stores:
  assumes "fernet_laws (ae_fernet E)" and "rs_kek R = Some (f # fs)" and "f \<in> set kek"
    and "create_tsig_key E R p rq st = (Answer code k, st1)"
  shows "\<exists>row. db_tsig_keys (as_db st1) = db_tsig_keys (as_db st) @ [row] \<and> tr_id row = Some (kr_id k)
     \<and> tr_name row = tc_name p \<and> tr_algorithm row = tc_algorithm p
     \<and> decrypt_text (ae_fernet E) kek (tr_secret_encrypted row) = Inr (kr_secret k)"
  using assms(4) decrypt_text_roundtrip [OF assms(1,3)]
  by (auto simp: create_tsig_key_def guarded_kek_def and_then_def get_kek_def assms(2) http_error_def build_tsig_key_def
      commit_or_409_def commit_session_def transact_def split_beta Let_def require_admin_keys next_id_def
      split: handled.splits sum.splits if_splits prod.splits)

lemma revoke_tsig_key_drops:
  assumes "revoke_tsig_key E R i rq st = (Answer code u, st')"
  shows "db_tsig_keys (as_db st') = filter (\<lambda>k. tr_id k \<noteq> Some i) (db_tsig_keys (as_db st))"
  using assms
  by (auto simp: revoke_tsig_key_def guarded_def and_then_def http_error_def commit_then_def commit_session_def
      transact_def split_beta require_admin_keys drop_tsig_key_def split: handled.splits sum.splits if_splits prod.splits)

text \<open>
  C8: a TSIG key lives from its creation to its revocation. When the API has answered the creation of a
  key under a name that no stored key has (names are compared as DNS does), the listener's keyring
  has a key of that name with the requested algorithm and the very secret of the answer, and a
  challenge signed with it is attributed to the new row, provided that the database loads. Once the
  row is revoked, no key of that name is left in the keyring.
\<close>

theorem tsig_key_lifecycle:
  assumes "fernet_laws (ae_fernet E)" and "rs_kek R = Some (f # fs)" and "f \<in> set kek" and "name_laws N"
    and "ae_loader E = db_loader N decode V (ae_fernet E) kek" and "as_cache st = Some c"
    and "nm_from_text N (tc_name p) = Some n" and "named_rows N n (db_tsig_keys (as_db st)) = {}"
    and "create_tsig_key E R p rq st = (Answer code k, st1)"
  shows "(\<forall>s. ae_loader E (as_db st1) = Inr s \<longrightarrow>
       (\<exists>c' key. as_cache st1 = Some c' \<and> map_of (cache_keyring c') (nm_labels N n) = Some key
          \<and> algorithm_from_text (tc_algorithm p) = Inr (tk_algorithm key)
          \<and> decode (kr_secret k) = Inr (tk_secret key) \<and> tsig_key_id_for N c' n = Some (kr_id k)))
     \<and> (\<forall>code' u st2 s. revoke_tsig_key E R (kr_id k) rq' st1 = (Answer code' u, st2)
          \<and> ae_loader E (as_db st2) = Inr s \<longrightarrow>
          (\<exists>c'. as_cache st2 = Some c' \<and> map_of (cache_keyring c') (nm_labels N n) = None))"
proof (intro conjI allI impI)
  obtain row where row: "db_tsig_keys (as_db st1) = db_tsig_keys (as_db st) @ [row]" "tr_id row = Some (kr_id k)"
      "tr_name row = tc_name p" "tr_algorithm row = tc_algorithm p"
      "decrypt_text (ae_fernet E) kek (tr_secret_encrypted row) = Inr (kr_secret k)"
    using create_tsig_key_stores [OF assms(1-3,9)] by blast
  have c1: "as_cache st1 = Some (snd (cache_refresh (ae_loader E (as_db st1)) c))"
    using converges_create_tsig_key [OF assms(6), of E R p rq] by (simp add: assms(9) converges_def)
  fix s assume l: "ae_loader E (as_db st1) = Inr s"
  have "named_rows N n (db_tsig_keys (as_db st1)) = {row}"
    using assms(7,8) row(1,3) by (auto simp: named_rows_def)
  from served_key [OF l [unfolded assms(5)] this row(2) assms(4)]
  show "\<exists>c' key. as_cache st1 = Some c' \<and> map_of (cache_keyring c') (nm_labels N n) = Some key
          \<and> algorithm_from_text (tc_algorithm p) = Inr (tk_algorithm key)
          \<and> decode (kr_secret k) = Inr (tk_secret key) \<and> tsig_key_id_for N c' n = Some (kr_id k)"
    using row(4,5) by (auto simp: c1 l cache_refresh_def cache_keyring_def tsig_key_id_for_def labels_canonicalize [OF assms(4)])
next
  fix code' u st2 s
  assume h: "revoke_tsig_key E R (kr_id k) rq' st1 = (Answer code' u, st2) \<and> ae_loader E (as_db st2) = Inr s"
  obtain row where row: "db_tsig_keys (as_db st1) = db_tsig_keys (as_db st) @ [row]" "tr_id row = Some (kr_id k)"
    using create_tsig_key_stores [OF assms(1-3,9)] by blast
  obtain c1 where "as_cache st1 = Some c1"
    using converges_create_tsig_key [OF assms(6), of E R p rq] by (simp add: assms(9) converges_def)
  then have c2: "as_cache st2 = Some (snd (cache_refresh (Inr s) c1))"
    using converges_deletes(3) [of st1 "Some c1" E R "kr_id k" rq'] h by (simp add: converges_def)
  have "named_rows N n (db_tsig_keys (as_db st2)) = {}"
    using assms(8) row revoke_tsig_key_drops [OF conjunct1 [OF h]] by (auto simp: named_rows_def)
  then have "map_of (ru_keyring (sn_runtime s)) (nm_labels N n) = None"
    using unserved_key [of N decode V "ae_fernet E" kek "as_db st2" s n] h assms(5) by simp
  then show "\<exists>c'. as_cache st2 = Some c' \<and> map_of (cache_keyring c') (nm_labels N n) = None"
    by (simp add: c2 cache_refresh_def cache_keyring_def)
qed

abbreviation sample_new_key :: tsig_key_create where
  "sample_new_key \<equiv> \<lparr>tc_name = ''new'', tc_algorithm = ''hmac-sha512''\<rparr>"

abbreviation (input) sample_create :: request where
  "sample_create \<equiv> sample_request (CreateTsigKey sample_new_key) [] [(''admin'', PBool True)]"

definition sample_key_row :: tsig_row where
  "sample_key_row =
     \<lparr>tr_id = Some 2, tr_name = ''new'', tr_algorithm = ''hmac-sha512'',
      tr_secret_encrypted = 9 # utf8_encode (b64encode (replicate 32 7)), tr_created_at = 1\<rparr>"

abbreviation sample_grown_db :: db where
  "sample_grown_db \<equiv> sample_db\<lparr>db_tsig_keys := db_tsig_keys sample_db @ [sample_key_row]\<rparr>"

lemma sample_algorithm: "\<exists>a. algorithm_from_text ''hmac-sha512'' = Inr a"
proof -
  have "\<not> isl (algorithm_from_text ''hmac-sha512'')" by code_simp
  then show ?thesis by (cases "algorithm_from_text ''hmac-sha512''") simp_all
qed

lemma sample_create_ok:
  "\<exists>k st1. create_tsig_key sample_env sample_resources sample_new_key sample_create (sample_api_state sample_db) = (Answer 201 k, st1)
     \<and> as_db st1 = sample_grown_db \<and> kr_id k = 2"
proof -
  have s: "schema_ok sample_grown_db" by (simp add: schema_ok_def sample_db_def sample_key_row_def)
  show ?thesis
    using sample_algorithm s
    by (auto simp: create_tsig_key_def guarded_kek_def require_admin_def credential_def sample_resources_def sample_request_def
      SESSION_COOKIE_def session_is_admin_def get_session_def get_kek_def sample_api_state_def tsig_key_create_ok_def
      commit_or_409_def commit_session_def transact_def sample_env_def sample_db_env_def
      generate_tsig_secret_def build_tsig_key_def encrypt_text_def kek_encrypt_def sample_fernet_def next_id_def sample_key_row_def)
qed

lemma sample_grown_loads: "\<exists>s. ae_loader sample_env sample_grown_db = Inr s"
proof -
  let ?F = "sample_fernet :: (u8, int) fernet_ops"
  have "validate_rows sample_db = Inr ()" by code_simp
  then have r: "validate_rows sample_grown_db = Inr ()"
    using sample_algorithm by (auto simp: validate_rows_cases(1) sample_key_row_def)
  have s: "schema_ok sample_grown_db" by (simp add: schema_ok_def sample_db_def sample_key_row_def)
  have t: "decrypt_text ?F [9, 7] [9, 65] = Inr ''A''" "decrypt_text ?F [9, 7] [7, 107] = Inr ''k''"
    "decrypt_text ?F [9, 7] (9 # utf8_encode x) = Inr x" for x
    by (code_simp, code_simp, simp add: decrypt_text_def kek_decrypt_def sample_fernet_def utf8_roundtrip)
  have n: "nm_from_text sample_names ''k'' \<noteq> None" "nm_from_text sample_names ''a.org'' \<noteq> None"
    "nm_from_text sample_names ''new'' \<noteq> None" "nm_from_text sample_names ''_acme-challenge.a.org'' \<noteq> None"
    by code_simp+
  have j: "decrypt_json ?F [9, 7] [7, 123, 125] = Inr (PDict [])" by code_simp
  have k: "\<forall>k \<in> set (db_tsig_keys sample_grown_db). key_loadable sample_names (\<lambda>_. Inr []) ?F [9, 7] k"
    using n by (simp add: sample_db_def sample_key_row_def key_loadable_def t)
  have c: "\<exists>p. class_from_config sample_validators cls [] = Inr p" for cls
    by (cases cls) (simp_all add: class_from_config_def sample_validators_def hurricane_from_config_def route53_from_config_def)
  have b: "\<forall>b \<in> set (db_backends sample_grown_db). backend_loadable sample_validators ?F [9, 7] b"
    by (simp add: sample_db_def backend_loadable_def j c)
  have m: "\<forall>m \<in> set (db_domains sample_grown_db). domain_loadable sample_names ?F [9, 7] m"
    using n by (simp add: sample_db_def domain_loadable_def t)
  show ?thesis using loadable_db_loads [OF r s k b m] by (simp add: sample_env_def)
qed

theorem tsig_key_lifecycle_witness:
  "\<exists>k st1 c' key. create_tsig_key sample_env sample_resources sample_new_key sample_create (sample_api_state sample_db) = (Answer 201 k, st1)
     \<and> as_cache st1 = Some c' \<and> map_of (cache_keyring c') [''new'', ''''] = Some key"
proof -
  obtain k st1 where c: "create_tsig_key sample_env sample_resources sample_new_key sample_create (sample_api_state sample_db) = (Answer 201 k, st1)"
      "as_db st1 = sample_grown_db" using sample_create_ok by blast
  obtain s where l: "ae_loader sample_env (as_db st1) = Inr s" using sample_grown_loads c(2) by auto
  have "fernet_laws (ae_fernet sample_env)" by (simp add: sample_env_def sample_fernet_laws)
  moreover have "rs_kek sample_resources = Some [9, 7]" "9 \<in> set [9, 7 :: u8]" by (simp_all add: sample_resources_def)
  moreover have "ae_loader sample_env = db_loader sample_names (\<lambda>_. Inr []) sample_validators (ae_fernet sample_env) [9, 7]"
    by (simp add: sample_env_def)
  moreover have "as_cache (sample_api_state sample_db) = Some cache_init" by (simp add: sample_api_state_def)
  moreover have n: "nm_from_text sample_names (tc_name sample_new_key) = Some [''new'', '''']" by code_simp
  moreover have k: "nm_from_text sample_names ''k'' = Some [''k'', '''']" "nm_labels sample_names [''k'', ''''] = [''k'', '''']"
    and nl: "nm_labels sample_names [''new'', ''''] = [''new'', '''']" by code_simp+
  moreover have "named_rows sample_names [''new'', ''''] (db_tsig_keys (as_db (sample_api_state sample_db))) = {}"
    by (simp add: named_rows_def sample_api_state_def sample_db_def k nl)
  ultimately obtain c' key where "as_cache st1 = Some c'" "map_of (cache_keyring c') (nm_labels sample_names [''new'', '''']) = Some key"
    using tsig_key_lifecycle [OF _ _ _ sample_name_laws _ _ _ _ c(1)] l by blast
  then show ?thesis using c(1) nl by auto
qed

end
