(* ===== verification/ApiBackends.thy ===== *)
theory ApiBackends
  imports ApiTokens
begin

text \<open>
  The creation of a backend across the API, the provider schemas, the JSON codec and the store.
\<close>

lemma route53_dump_not_serializable: "\<not> serializable (PDict (route53_dump c))"
  by (simp add: route53_dump_def)

lemma hurricane_dump_roundtrip:
  "serializable (PDict (hurricane_dump c))" "dicts_ok (PDict (hurricane_dump c))"
  "sort_keys (PDict (hurricane_dump c)) = PDict (hurricane_dump c)"
  by (simp_all add: hurricane_dump_def)

lemma validated_config_Inr:
  "get_provider builtin_registry ty = Inr cls \<Longrightarrow> schema_dump (ae_validators E) cls cfg = Inr dumped \<Longrightarrow>
     validated_config E ty cfg = Answer 200 dumped"
  by (simp add: validated_config_def)

lemma schema_dump_cases:
  "schema_dump V Route53Provider cfg = Inr dumped \<Longrightarrow> \<exists>c. dumped = route53_dump c"
  "schema_dump V HurricaneProvider cfg = Inr dumped \<Longrightarrow> \<exists>c. dumped = hurricane_dump c"
  by (cases "va_route53 V cfg"; cases "va_hurricane V cfg"; simp add: schema_dump_def; blast)+

text \<open>
  C20: the creation of a backend whose configuration its schema accepts, by a logged-in
  administrator. A Hurricane Electric backend is stored with its configuration encrypted, and every
  key list that still holds the primary key reads the validated configuration back. A Route 53
  backend cannot be created: the validated configuration keeps its secret access key wrapped, the
  JSON encoder raises, and nothing is stored.
\<close>

theorem backend_creation:
  assumes "admin_session rq" and "rs_has_database R" and "rs_kek R = Some (f # fs)" and "f \<in> set kek"
    and "fernet_laws (ae_fernet E)" and "backend_create_ok p"
    and "get_provider builtin_registry (bk_type p) = Inr cls" and "schema_dump (ae_validators E) cls (bk_config p) = Inr dumped"
  shows "(cls = Route53Provider \<longrightarrow> (\<exists>m. create_backend E R p rq st = (Raise (TypeError m), st)))
     \<and> (\<forall>code b st1. cls = HurricaneProvider \<and> create_backend E R p rq st = (Answer code b, st1) \<longrightarrow>
          code = 201 \<and> (\<exists>row. db_backends (as_db st1) = db_backends (as_db st) @ [row]
            \<and> b_id row = Some (br_id b) \<and> b_name row = bk_name p \<and> b_type row = bk_type p
            \<and> decrypt_json (ae_fernet E) kek (b_config_encrypted row) = Inr (PDict dumped)))"
proof (intro conjI impI allI)
  note run = create_backend_def guarded_kek_def require_admin_session [OF assms(1)] get_session_def get_kek_def assms(2,3,6)
    validated_config_Inr [OF assms(7,8)]
  {
    assume "cls = Route53Provider"
    then obtain c where d: "dumped = route53_dump c" using schema_dump_cases(1) assms(8) by blast
    then show "\<exists>m. create_backend E R p rq st = (Raise (TypeError m), st)"
      using route53_dump_not_serializable [of c]
      by (simp add: run build_backend_def encrypt_json_def json_dumps_def)
  }
  fix code b st1
  assume h: "cls = HurricaneProvider \<and> create_backend E R p rq st = (Answer code b, st1)"
  then obtain c where d: "dumped = hurricane_dump c" using schema_dump_cases(2) assms(8) by blast
  obtain t w' where e: "encrypt_json (ae_fernet E) (f # fs) (PDict dumped) (as_world st) = (Inr t, w')"
      "decrypt_json (ae_fernet E) kek t = Inr (PDict dumped)"
    using decrypt_json_roundtrip [OF assms(5,4) hurricane_dump_roundtrip(1,2), where fs = fs and w = "as_world st"]
    unfolding d hurricane_dump_roundtrip(3) by blast
  have "create_backend E R p rq st = (Answer code b, st1)" using h by blast
  then show "code = 201" and "\<exists>row. db_backends (as_db st1) = db_backends (as_db st) @ [row]
      \<and> b_id row = Some (br_id b) \<and> b_name row = bk_name p \<and> b_type row = bk_type p
      \<and> decrypt_json (ae_fernet E) kek (b_config_encrypted row) = Inr (PDict dumped)"
    using e by (auto simp: run build_backend_def commit_or_409_def commit_session_def transact_def next_id_def Let_def
        split_beta answered_def backend_to_read_def http_error_def split: sum.splits if_splits prod.splits)
qed

abbreviation sample_backend_create :: "string \<Rightarrow> backend_create" where
  "sample_backend_create ty \<equiv> \<lparr>bk_name = ''b'', bk_type = ty, bk_config = []\<rparr>"

abbreviation (input) sample_backend_request :: "string \<Rightarrow> request" where
  "sample_backend_request ty \<equiv> sample_request (CreateBackend (sample_backend_create ty)) [] [(''admin'', PBool True)]"

lemma sample_admin_request: "admin_session (sample_backend_request ty)"
  by (simp add: admin_session_def sample_request_def credential_def SESSION_COOKIE_def session_is_admin_def)

lemma sample_fernet_env: "fernet_laws (ae_fernet sample_env)"
  by (simp add: sample_env_def sample_fernet_laws)

lemma sample_providers:
  "get_provider builtin_registry ''route53'' = Inr Route53Provider"
  "get_provider builtin_registry ''hurricane'' = Inr HurricaneProvider"
  by code_simp+

lemma sample_hurricane_dump:
  "schema_dump (ae_validators sample_env) HurricaneProvider cfg
   = Inr (hurricane_dump \<lparr>hc_cleanup_placeholder = default_placeholder\<rparr>)"
  by (simp add: schema_dump_def sample_env_def sample_validators_def)

lemma sample_create_hurricane:
  "\<exists>code b st1. create_backend sample_env sample_resources (sample_backend_create ''hurricane'')
     (sample_backend_request ''hurricane'') (sample_api_state sample_db) = (Answer code b, st1)"
proof -
  let ?st = "sample_api_state sample_db" and ?d = "hurricane_dump \<lparr>hc_cleanup_placeholder = default_placeholder\<rparr>"
  have k: "9 \<in> set [9, 7 :: u8]" by simp
  obtain t w' where e: "encrypt_json (ae_fernet sample_env) [9, 7] (PDict ?d) (as_world ?st) = (Inr t, w')"
    using decrypt_json_roundtrip [OF sample_fernet_env k hurricane_dump_roundtrip(1,2), where fs = "[7]" and w = "as_world ?st"]
    by blast
  have "w' = as_world ?st" using e
    by (auto simp: encrypt_json_def kek_encrypt_def sample_env_def sample_fernet_def Let_def split: sum.splits prod.splits)
  moreover have db: "ae_db sample_env = sample_db_env" by (simp add: sample_env_def)
  ultimately show ?thesis using e
    by (simp add: create_backend_def guarded_kek_def require_admin_session [OF sample_admin_request] get_session_def get_kek_def
        backend_create_ok_def validated_config_Inr [OF sample_providers(2) sample_hurricane_dump] build_backend_def
        commit_or_409_def commit_session_def transact_def next_id_def answered_def backend_to_read_def sample_resources_def
        db sample_db_env_def sample_api_state_def sample_db_def schema_ok_def Let_def split_beta)
qed

theorem backend_creation_witness:
  "(\<exists>m. create_backend sample_env sample_resources (sample_backend_create ''route53'') (sample_backend_request ''route53'')
      (sample_api_state sample_db) = (Raise (TypeError m), sample_api_state sample_db))
   \<and> (\<exists>row. db_backends (as_db (snd (create_backend sample_env sample_resources (sample_backend_create ''hurricane'')
      (sample_backend_request ''hurricane'') (sample_api_state sample_db)))) = db_backends sample_db @ [row])"
proof
  have rs: "rs_has_database sample_resources" "rs_kek sample_resources = Some [9, 7]" "9 \<in> set [9, 7 :: u8]"
    by (simp_all add: sample_resources_def)
  have ok: "backend_create_ok (sample_backend_create ''route53'')" "backend_create_ok (sample_backend_create ''hurricane'')"
    by (simp_all add: backend_create_ok_def)
  have p: "get_provider builtin_registry (bk_type (sample_backend_create ''route53'')) = Inr Route53Provider"
    "get_provider builtin_registry (bk_type (sample_backend_create ''hurricane'')) = Inr HurricaneProvider"
    using sample_providers by simp_all
  obtain dumped where d:
      "schema_dump (ae_validators sample_env) Route53Provider (bk_config (sample_backend_create ''route53'')) = Inr dumped"
    by (simp add: schema_dump_def sample_env_def sample_validators_def)
  show "\<exists>m. create_backend sample_env sample_resources (sample_backend_create ''route53'') (sample_backend_request ''route53'')
      (sample_api_state sample_db) = (Raise (TypeError m), sample_api_state sample_db)"
    using backend_creation [OF sample_admin_request rs sample_fernet_env ok(1) p(1) d] by blast
  obtain code b st1 where c: "create_backend sample_env sample_resources (sample_backend_create ''hurricane'')
      (sample_backend_request ''hurricane'') (sample_api_state sample_db) = (Answer code b, st1)"
    using sample_create_hurricane by blast
  then show "\<exists>row. db_backends (as_db (snd (create_backend sample_env sample_resources (sample_backend_create ''hurricane'')
      (sample_backend_request ''hurricane'') (sample_api_state sample_db)))) = db_backends sample_db @ [row]"
    using backend_creation [OF sample_admin_request rs sample_fernet_env ok(2) p(2) sample_hurricane_dump]
    by (fastforce simp: sample_api_state_def)
qed

end
