(* ===== verification/Main_Process.thy ===== *)
theory Main_Process
  imports Startup Server
begin

text \<open>
  \<^verbatim>\<open>main.py\<close>: the composition of the two planes, with the order in which resources are
  acquired and released. What the body awaits is the record \<open>main_env\<close>; the actions that the process
  takes are logged in a trace, in their order. The planes run as tasks of their own: of them the body
  sees which are done when the first of the plane tasks and the shutdown event ends.
\<close>

section \<open>Definitions\<close>

datatype main_action =
    BuildClient
  | FromDsn
  | ValidateDb
  | InitialRefresh
  | BuildServer
  | CreateApp
  | InstallSignals
  | StartPlanes
  | AwaitFirst
  | StopAccepting
  | ShouldExit
  | Drain real
  | CancelApi
  | GatherApi
  | DisposeDb
  | CloseClient
  | CancelDns
  | CloseServer

text \<open>
  The shared objects of the process: the routing cache, the DNS server once it is built, and the world
  with the database. A step is logged in the trace before its effect is known, so a step that raises is
  logged as well.
\<close>

record ('n, 't, 'w) process =
  pr_cache :: "'n routing_cache"
  pr_server :: "'t server option"
  pr_world :: 'w

type_synonym 'p traced = "main_action list \<times> 'p"

record ('f, 'n, 't, 'w) main_env =
  me_from_dsn :: "string \<Rightarrow> 'w \<Rightarrow> unit res \<times> 'w"
  me_startup :: "'w startup_env"
  me_db :: "'w \<Rightarrow> db"
  me_load :: "'f kek \<Rightarrow> 'w \<Rightarrow> 'n snapshot res \<times> 'w"
  me_create_app :: "'w \<Rightarrow> unit res \<times> 'w"
  me_await_first :: "('n, 't, 'w) process \<Rightarrow> (bool \<times> bool) res \<times> ('n, 't, 'w) process"
  me_drain :: "real \<Rightarrow> ('n, 't, 'w) process \<Rightarrow> unit res \<times> ('n, 't, 'w) process"
  me_api_done :: "'w \<Rightarrow> bool"
  me_gather :: "('n, 't, 'w) process \<Rightarrow> unit res \<times> ('n, 't, 'w) process"
  me_dispose :: "'w \<Rightarrow> unit res \<times> 'w"
  me_aclose :: "'w \<Rightarrow> unit res \<times> 'w"
  me_dns_done :: "'w \<Rightarrow> bool"
  me_gather_dns :: "('n, 't, 'w) process \<Rightarrow> unit res \<times> ('n, 't, 'w) process"
  me_net :: "'w net"

definition act :: "main_action \<Rightarrow> ('p \<Rightarrow> 'a res \<times> 'p) \<Rightarrow> 'p traced \<Rightarrow> 'a res \<times> 'p traced" where
  "act a f s = (let (tr, p) = s; (r, p') = f p in (r, tr @ [a], p'))"

definition log_act :: "main_action \<Rightarrow> ('p \<Rightarrow> 'p) \<Rightarrow> 'p traced \<Rightarrow> 'p traced" where
  "log_act a f s = (fst s @ [a], f (snd s))"

definition at_world :: "('w \<Rightarrow> 'a \<times> 'w) \<Rightarrow> ('n, 't, 'w) process \<Rightarrow> 'a \<times> ('n, 't, 'w) process" where
  "at_world f p = (let (r, w) = f (pr_world p) in (r, p\<lparr>pr_world := w\<rparr>))"

text \<open>\<^verbatim>\<open>_safe_initial_refresh\<close>: a failed load is logged only.\<close>

definition safe_initial_refresh ::
  "('f, 'n, 't, 'w) main_env \<Rightarrow> 'f kek \<Rightarrow> ('n, 't, 'w) process \<Rightarrow> ('n, 't, 'w) process" where
  "safe_initial_refresh E kek p =
     (let (r, w) = me_load E kek (pr_world p) in p\<lparr>pr_cache := snd (cache_refresh r (pr_cache p)), pr_world := w\<rparr>)"

text \<open>The drain of both planes after the first task has ended, and the exit code.\<close>

definition wind_down ::
  "('f, 'n, 't, 'w) main_env \<Rightarrow> settings \<Rightarrow> bool \<times> bool \<Rightarrow> ('n, 't, 'w) process traced \<Rightarrow>
   int res \<times> ('n, 't, 'w) process traced" where
  "wind_down E S tasks s =
     (let (dns_done, api_done) = tasks;
          plane_gave_up = (dns_done \<or> api_done);
          s1 = log_act StopAccepting (pr_server_update (map_option stop_accepting)) s;
          s2 = log_act ShouldExit id s1
      in case act (Drain (se_shutdown_drain_timeout S)) (me_drain E (se_shutdown_drain_timeout S)) s2 of
           (Inl e, s3) \<Rightarrow> (Inl e, s3)
         | (Inr _, s3) \<Rightarrow>
             (case act GatherApi (me_gather E)
                     (if me_api_done E (pr_world (snd s3)) then s3 else log_act CancelApi id s3) of
                (Inl e, s4) \<Rightarrow> (Inl e, s4)
              | (Inr _, s4) \<Rightarrow> (Inr (if plane_gave_up then 1 else 0), s4)))"

text \<open>The body of the \<^verbatim>\<open>try\<close>: its end, and whether the plane tasks were created.\<close>

definition serve_body ::
  "('f, 'n, 't, 'w) main_env \<Rightarrow> settings \<Rightarrow> 'f kek \<Rightarrow> bool \<Rightarrow> ('n, 't, 'w) process traced \<Rightarrow>
   int res \<times> bool \<times> ('n, 't, 'w) process traced" where
  "serve_body E S kek install_signals s =
     (case act ValidateDb
             (at_world (\<lambda>w. validate_db_startup (me_startup E) S ''alembic.ini'' (me_db E w) w)) s of
        (Inl e, s1) \<Rightarrow> (Inl e, False, s1)
      | (Inr _, s1) \<Rightarrow>
          (let s2 = log_act InitialRefresh (safe_initial_refresh E kek) s1;
               s3 = log_act BuildServer (pr_server_update (\<lambda>_. Some (server_init (nat (se_dns_port S))))) s2
           in case act CreateApp (at_world (me_create_app E)) s3 of
                (Inl e, s4) \<Rightarrow> (Inl e, False, s4)
              | (Inr _, s4) \<Rightarrow>
                  (let s5 = log_act StartPlanes id (if install_signals then log_act InstallSignals id s4 else s4)
                   in case act AwaitFirst (me_await_first E) s5 of
                        (Inl e, s6) \<Rightarrow> (Inl e, True, s6)
                      | (Inr tasks, s6) \<Rightarrow> (case wind_down E S tasks s6 of (r, s7) \<Rightarrow> (r, True, s7)))))"

definition close_server :: "'w net \<Rightarrow> ('n, 't, 'w) process \<Rightarrow> ('n, 't, 'w) process" where
  "close_server net p =
     (case pr_server p of
        None \<Rightarrow> p
      | Some sv \<Rightarrow> let (sv', w) = server_close net sv (pr_world p) in p\<lparr>pr_server := Some sv', pr_world := w\<rparr>)"

text \<open>The \<^verbatim>\<open>finally\<close>: an exception in it replaces the result and skips the rest.\<close>

definition serve_finally ::
  "('f, 'n, 't, 'w) main_env \<Rightarrow> bool \<Rightarrow> int res \<Rightarrow> bool \<Rightarrow> ('n, 't, 'w) process traced \<Rightarrow>
   int res \<times> ('n, 't, 'w) process traced" where
  "serve_finally E owns_client r has_task s =
     (case act DisposeDb (at_world (me_dispose E)) s of
        (Inl e, s1) \<Rightarrow> (Inl e, s1)
      | (Inr _, s1) \<Rightarrow>
          (case (if owns_client then act CloseClient (at_world (me_aclose E)) s1 else (Inr (), s1)) of
             (Inl e, s2) \<Rightarrow> (Inl e, s2)
           | (Inr _, s2) \<Rightarrow>
               (case (if has_task \<and> \<not> me_dns_done E (pr_world (snd s2))
                      then act CancelDns (me_gather_dns E) s2 else (Inr (), s2)) of
                  (Inl e, s3) \<Rightarrow> (Inl e, s3)
                | (Inr _, s3) \<Rightarrow>
                    (r, if pr_server (snd s3) \<noteq> None then log_act CloseServer (close_server (me_net E)) s3 else s3))))"

definition serve_process ::
  "('f, 'v) fernet_ops \<Rightarrow> ('f, 'n, 't, 'w) main_env \<Rightarrow> settings \<Rightarrow> bool \<Rightarrow> bool \<Rightarrow>
   ('n, 't, 'w) process traced \<Rightarrow> int res \<times> ('n, 't, 'w) process traced" where
  "serve_process F E S install_signals given_client s =
     (case validate_kek F (Some (se_credential_kek S)) of
        Inl e \<Rightarrow> (Inl e, s)
      | Inr kek \<Rightarrow>
          (let owns_client = (\<not> given_client); s1 = (if owns_client then log_act BuildClient id s else s)
           in case act FromDsn (at_world (me_from_dsn E (se_database_dsn S))) s1 of
                (Inl e, s2) \<Rightarrow> (Inl e, s2)
              | (Inr _, s2) \<Rightarrow>
                  (case serve_body E S kek install_signals s2 of
                     (r, has_task, s3) \<Rightarrow> serve_finally E owns_client r has_task s3)))"

text \<open>\<^verbatim>\<open>main\<close>, after the settings are read and logging is configured.\<close>

definition main_process ::
  "('f, 'v) fernet_ops \<Rightarrow> ('f, 'n, 't, 'w) main_env \<Rightarrow> settings \<Rightarrow> ('n, 't, 'w) process traced \<Rightarrow>
   int res \<times> ('n, 't, 'w) process traced" where
  "main_process F E S s =
     (case serve_process F E S True False s of
        (Inl (StartupError m), s') \<Rightarrow> (Inr 2, s')
      | (r, s') \<Rightarrow> (r, s'))"

text \<open>\<^verbatim>\<open>_dns_ready\<close>.\<close>

definition dns_ready :: "'t server \<Rightarrow> 'n routing_cache \<Rightarrow> bool" where
  "dns_ready sv c \<longleftrightarrow> sv_accepting sv \<and> is_populated c"

text \<open>
  \<^verbatim>\<open>_management_factory\<close>: uvicorn either ends by itself, or shutdown is requested first; then
  it is told to exit and awaited. The flag says whether it was told.
\<close>

datatype uvicorn_race = ServeEnded "unit res" | ShutdownFirst "unit res"

definition management_factory :: "uvicorn_race \<Rightarrow> unit res \<times> bool" where
  "management_factory race = (case race of ShutdownFirst r \<Rightarrow> (r, True) | ServeEnded r \<Rightarrow> (r, False))"

section \<open>Resources are released once, in order\<close>

lemma act_simp [simp]: "act a f (tr, p) = (fst (f p), tr @ [a], snd (f p))"
  by (simp add: act_def split_beta)

lemma log_act_simp [simp]: "log_act a f (tr, p) = (tr @ [a], f p)"
  by (simp add: log_act_def)

lemma at_world_simp: "at_world f p = (fst (f (pr_world p)), p\<lparr>pr_world := snd (f (pr_world p))\<rparr>)"
  by (simp add: at_world_def split_beta)

definition releases :: "main_action \<Rightarrow> bool" where
  "releases a \<longleftrightarrow> a \<in> {DisposeDb, CloseClient, CancelDns, CloseServer}"

text \<open>The planes may replace the server's state, but not drop the server.\<close>

definition planes_keep_server :: "('f, 'n, 't, 'w) main_env \<Rightarrow> bool" where
  "planes_keep_server E \<longleftrightarrow>
     (\<forall>p. (pr_server (snd (me_await_first E p)) = None) = (pr_server p = None)
        \<and> (\<forall>t. (pr_server (snd (me_drain E t p)) = None) = (pr_server p = None))
        \<and> (pr_server (snd (me_gather E p)) = None) = (pr_server p = None)
        \<and> (pr_server (snd (me_gather_dns E p)) = None) = (pr_server p = None))"

text \<open>The release steps do not raise.\<close>

definition releases_succeed :: "('f, 'n, 't, 'w) main_env \<Rightarrow> bool" where
  "releases_succeed E \<longleftrightarrow>
     (\<forall>w. fst (me_dispose E w) = Inr ()) \<and> (\<forall>w. fst (me_aclose E w) = Inr ())
     \<and> (\<forall>p. fst (me_gather_dns E p) = Inr ())"

lemma wind_down_trace:
  assumes "wind_down E S tasks (tr, p) = (r, tr', p')" and "planes_keep_server E"
  shows "\<exists>as. tr' = tr @ as \<and> filter releases as = []
     \<and> (pr_server p' = None \<longleftrightarrow> pr_server p = None)
     \<and> (\<forall>c. r = Inr c \<longrightarrow> c = (if fst tasks \<or> snd tasks then 1 else 0)
          \<and> (\<exists>post. as = [StopAccepting, ShouldExit, Drain (se_shutdown_drain_timeout S)] @ post))"
  using assms
  by (auto simp: wind_down_def releases_def planes_keep_server_def Let_def split_beta
      split: sum.splits if_splits)

lemma serve_body_trace:
  assumes "serve_body E S kek sig (tr, p) = (r, has_task, tr', p')" and "planes_keep_server E" and "pr_server p = None"
  shows "\<exists>as. tr' = tr @ as \<and> filter releases as = [] \<and> (pr_server p' \<noteq> None \<longleftrightarrow> BuildServer \<in> set as)
     \<and> (\<forall>c. r = Inr c \<longrightarrow> c \<in> {0, 1}
          \<and> (\<exists>pre post. as = pre @ [AwaitFirst, StopAccepting, ShouldExit, Drain (se_shutdown_drain_timeout S)] @ post))"
proof -
  let ?v = "\<lambda>w. validate_db_startup (me_startup E) S ''alembic.ini'' (me_db E w) w"
  define p1 where "p1 = snd (at_world ?v p)"
  define p3 where "p3 = (safe_initial_refresh E kek p1)\<lparr>pr_server := Some (server_init (nat (se_dns_port S)))\<rparr>"
  define p4 where "p4 = snd (at_world (me_create_app E) p3)"
  define sig_as where "sig_as = (if sig then [InstallSignals, StartPlanes] else [StartPlanes])"
  have p1: "pr_server p1 = None" using assms(3) by (simp add: p1_def at_world_simp)
  have p4: "pr_server p4 \<noteq> None" by (simp add: p4_def p3_def at_world_simp)
  have aw: "pr_server (snd (me_await_first E p4)) \<noteq> None" using assms(2) p4 by (simp add: planes_keep_server_def)
  let ?t3 = "[ValidateDb, InitialRefresh, BuildServer, CreateApp]"
  have e: "serve_body E S kek sig (tr, p) =
      (case fst (at_world ?v p) of
         Inl e \<Rightarrow> (Inl e, False, tr @ [ValidateDb], p1)
       | Inr _ \<Rightarrow> (case fst (at_world (me_create_app E) p3) of
           Inl e \<Rightarrow> (Inl e, False, tr @ ?t3, p4)
         | Inr _ \<Rightarrow> (case me_await_first E p4 of
             (Inl e, p5) \<Rightarrow> (Inl e, True, tr @ ?t3 @ sig_as @ [AwaitFirst], p5)
           | (Inr tasks, p5) \<Rightarrow>
               (case wind_down E S tasks (tr @ ?t3 @ sig_as @ [AwaitFirst], p5) of (r, s7) \<Rightarrow> (r, True, s7)))))"
    by (cases "fst (at_world ?v p)"; cases "fst (at_world (me_create_app E) p3)")
       (auto simp: serve_body_def p1_def p3_def p4_def sig_as_def Let_def split_beta split: sum.splits)
  have rel: "filter releases sig_as = []" "\<not> releases ValidateDb" "\<not> releases InitialRefresh"
    "\<not> releases BuildServer" "\<not> releases CreateApp" "\<not> releases AwaitFirst"
    by (simp_all add: releases_def sig_as_def)
  show ?thesis
  proof (cases "\<exists>u u' tasks. fst (at_world ?v p) = Inr u \<and> fst (at_world (me_create_app E) p3) = Inr u' \<and> fst (me_await_first E p4) = Inr tasks")
    case True
    then obtain tasks p5 where p5: "me_await_first E p4 = (Inr tasks, p5)" by (metis prod.collapse)
    then have w: "wind_down E S tasks (tr @ ?t3 @ sig_as @ [AwaitFirst], p5) = (r, tr', p')" "pr_server p5 \<noteq> None"
      using True assms(1) aw by (auto simp: e split: prod.splits)
    obtain as where as: "tr' = (tr @ ?t3 @ sig_as @ [AwaitFirst]) @ as" "filter releases as = []"
        "pr_server p' = None \<longleftrightarrow> pr_server p5 = None"
        "\<forall>c. r = Inr c \<longrightarrow> c = (if fst tasks \<or> snd tasks then 1 else 0)
           \<and> (\<exists>post. as = [StopAccepting, ShouldExit, Drain (se_shutdown_drain_timeout S)] @ post)"
      using wind_down_trace [OF w(1) assms(2)] by (elim exE conjE) (rule that)
    let ?as = "?t3 @ sig_as @ [AwaitFirst] @ as"
    have "\<forall>c. r = Inr c \<longrightarrow> c \<in> {0, 1}
        \<and> (\<exists>pre post. ?as = pre @ [AwaitFirst, StopAccepting, ShouldExit, Drain (se_shutdown_drain_timeout S)] @ post)"
    proof (intro allI impI conjI)
      fix c assume c: "r = Inr c"
      show "c \<in> {0, 1}" using as(4) c by simp
      obtain post where "as = [StopAccepting, ShouldExit, Drain (se_shutdown_drain_timeout S)] @ post" using as(4) c by blast
      then show "\<exists>pre post. ?as = pre @ [AwaitFirst, StopAccepting, ShouldExit, Drain (se_shutdown_drain_timeout S)] @ post"
        by (intro exI [of _ "?t3 @ sig_as"] exI [of _ post]) simp
    qed
    moreover have "pr_server p' \<noteq> None" using as(3) w(2) by simp
    ultimately show ?thesis using as(1,2) rel by (intro exI [of _ ?as]) simp
  next
    case False
    then show ?thesis
      using assms(1) p1 p4 aw rel unfolding e
      by (cases "me_await_first E p4") (auto split: sum.splits intro: exI [of _ "[ValidateDb]"] exI [of _ ?t3])
  qed
qed

definition closed_server :: "'t server \<Rightarrow> bool" where
  "closed_server sv \<longleftrightarrow> \<not> sv_accepting sv \<and> sv_udp_transport sv = None \<and> sv_tcp_server sv = None"

lemma close_server_closed: "pr_server (close_server net p) = Some sv \<Longrightarrow> closed_server sv"
  by (auto simp: close_server_def closed_server_def server_close_def Let_def split: option.splits prod.splits)

text \<open>The complete list of releases, as the trace of the process determines it.\<close>

definition all_releases :: "bool \<Rightarrow> main_action list \<Rightarrow> main_action list" where
  "all_releases given_client tr =
     [DisposeDb] @ (if given_client then [] else [CloseClient]) @ filter (\<lambda>a. a = CancelDns) tr
       @ (if BuildServer \<in> set tr then [CloseServer] else [])"

text \<open>
  The \<^verbatim>\<open>finally\<close> runs the releases in their order up to the first that raises; it runs all of them if
  none raises, and whenever the process returns a code.
\<close>

lemma serve_finally_trace:
  assumes "serve_finally E owns r has_task (tr, p) = (r', tr', p')" and "planes_keep_server E"
  shows "\<exists>cancels as rest. tr' = tr @ as \<and> set cancels \<subseteq> {CancelDns} \<and> length cancels \<le> 1
     \<and> filter (\<lambda>a. a = CancelDns) as = cancels
     \<and> as @ rest = [DisposeDb] @ (if owns then [CloseClient] else []) @ cancels
          @ (if pr_server p \<noteq> None then [CloseServer] else [])
     \<and> (releases_succeed E \<or> (\<exists>c. r' = Inr c) \<longrightarrow> rest = [] \<and> r' = r \<and> (\<forall>sv. pr_server p' = Some sv \<longrightarrow> closed_server sv))"
proof -
  let ?client = "if owns then [CloseClient] else []" and ?server = "if pr_server p \<noteq> None then [CloseServer] else []"
  define p1 where "p1 = p\<lparr>pr_world := snd (me_dispose E (pr_world p))\<rparr>"
  define p2 where "p2 = (if owns then p1\<lparr>pr_world := snd (me_aclose E (pr_world p1))\<rparr> else p1)"
  define cancel where "cancel \<longleftrightarrow> has_task \<and> \<not> me_dns_done E (pr_world p2)"
  define p3 where "p3 = (if cancel then snd (me_gather_dns E p2) else p2)"
  define d where "d = fst (me_dispose E (pr_world p))"
  define cl where "cl = (if owns then fst (me_aclose E (pr_world p1)) else Inr ())"
  define g where "g = (if cancel then fst (me_gather_dns E p2) else Inr ())"
  let ?cancels = "if cancel then [CancelDns] else []"
  have sv: "pr_server p3 = None \<longleftrightarrow> pr_server p = None"
    using assms(2) by (simp add: p3_def p2_def p1_def planes_keep_server_def)
  have a: "act DisposeDb (at_world (me_dispose E)) (tr, p) = (d, tr @ [DisposeDb], p1)"
    by (simp add: at_world_simp p1_def d_def)
  have b: "(if owns then act CloseClient (at_world (me_aclose E)) (tr @ [DisposeDb], p1) else (Inr (), tr @ [DisposeDb], p1))
      = (cl, (tr @ [DisposeDb]) @ ?client, p2)"
    by (simp add: at_world_simp p2_def cl_def)
  have c: "(if cancel then act CancelDns (me_gather_dns E) (t, p2) else (Inr (), t, p2)) = (g, t @ ?cancels, p3)" for t
    by (simp add: p3_def g_def)
  have fin: "serve_finally E owns r has_task (tr, p) =
      (case d of Inl e \<Rightarrow> (Inl e, tr @ [DisposeDb], p1)
       | Inr _ \<Rightarrow> (case cl of Inl e \<Rightarrow> (Inl e, tr @ [DisposeDb] @ ?client, p2)
       | Inr _ \<Rightarrow> (case g of Inl e \<Rightarrow> (Inl e, tr @ [DisposeDb] @ ?client @ ?cancels, p3)
       | Inr _ \<Rightarrow> (r, tr @ [DisposeDb] @ ?client @ ?cancels @ ?server,
           if pr_server p \<noteq> None then close_server (me_net E) p3 else p3))))"
    unfolding serve_finally_def a prod.case b snd_conv cancel_def [symmetric] c sv by (simp split: sum.splits)
  have ok: "releases_succeed E \<Longrightarrow> d = Inr () \<and> cl = Inr () \<and> g = Inr ()"
    by (simp add: releases_succeed_def d_def cl_def g_def)
  consider e where "d = Inl e" | e where "d = Inr ()" "cl = Inl e" | e where "d = Inr ()" "cl = Inr ()" "g = Inl e"
    | "d = Inr ()" "cl = Inr ()" "g = Inr ()" by (metis (full_types) old.unit.exhaust sum.exhaust)
  then show ?thesis
  proof cases
    case 1
    with assms(1) ok show ?thesis
      by (intro exI [of _ "[]"] exI [of _ "[DisposeDb]"] exI [of _ "?client @ ?server"]) (auto simp: fin)
  next
    case 2
    with assms(1) ok show ?thesis
      by (intro exI [of _ "[]"] exI [of _ "[DisposeDb] @ ?client"] exI [of _ ?server]) (auto simp: fin)
  next
    case 3
    with assms(1) ok show ?thesis
      by (intro exI [of _ ?cancels] exI [of _ "[DisposeDb] @ ?client @ ?cancels"] exI [of _ ?server]) (auto simp: fin)
  next
    case 4
    with assms(1) show ?thesis
      using close_server_closed [of "me_net E" p3] sv
      by (intro exI [of _ ?cancels] exI [of _ "[DisposeDb] @ ?client @ ?cancels @ ?server"] exI [of _ "[]"])
         (auto simp: fin split: if_splits)
  qed
qed

lemma serve_trace:
  assumes "planes_keep_server E" and "pr_server p = None" and "validate_kek F (Some (se_credential_kek S)) = Inr kek"
    and "fst (me_from_dsn E (se_database_dsn S) (pr_world p)) = Inr u"
    and "serve_process F E S sig given_client ([], p) = (r, tr, p')"
  shows "(\<exists>rest. filter releases tr @ rest = all_releases given_client tr
       \<and> (releases_succeed E \<or> (\<exists>c. r = Inr c) \<longrightarrow> rest = [] \<and> (\<forall>sv. pr_server p' = Some sv \<longrightarrow> closed_server sv)))
     \<and> length (filter (\<lambda>a. a = CancelDns) tr) \<le> 1
     \<and> (\<forall>c. r = Inr c \<longrightarrow> c \<in> {0, 1}
          \<and> (\<exists>pre post. tr = pre @ [AwaitFirst, StopAccepting, ShouldExit, Drain (se_shutdown_drain_timeout S)] @ post
               \<and> filter releases pre = []))"
proof -
  define tr0 where "tr0 = (if given_client then [FromDsn] else [BuildClient, FromDsn])"
  define p0 where "p0 = p\<lparr>pr_world := snd (me_from_dsn E (se_database_dsn S) (pr_world p))\<rparr>"
  let ?client = "if \<not> given_client then [CloseClient] else []"
  have p0: "pr_server p0 = None" by (simp add: p0_def assms(2))
  have t0: "filter releases tr0 = []" "BuildServer \<notin> set tr0" by (simp_all add: tr0_def releases_def)
  obtain rb has_task tr1 p1 where b: "serve_body E S kek sig (tr0, p0) = (rb, has_task, tr1, p1)"
    by (metis prod.collapse)
  have f: "serve_finally E (\<not> given_client) rb has_task (tr1, p1) = (r, tr, p')"
    using assms(5) b by (simp add: serve_process_def assms(3,4) at_world_simp tr0_def p0_def split: if_splits)
  obtain as where as: "tr1 = tr0 @ as" "filter releases as = []" "pr_server p1 \<noteq> None \<longleftrightarrow> BuildServer \<in> set as"
      "\<forall>c. rb = Inr c \<longrightarrow> c \<in> {0, 1}
          \<and> (\<exists>pre post. as = pre @ [AwaitFirst, StopAccepting, ShouldExit, Drain (se_shutdown_drain_timeout S)] @ post)"
    using serve_body_trace [OF b assms(1) p0] by (elim exE conjE) (rule that)
  obtain cancels rel rest where c: "tr = tr1 @ rel" "set cancels \<subseteq> {CancelDns}" "length cancels \<le> 1"
      "filter (\<lambda>a. a = CancelDns) rel = cancels"
      "rel @ rest = [DisposeDb] @ ?client @ cancels @ (if BuildServer \<in> set as then [CloseServer] else [])"
      "releases_succeed E \<or> (\<exists>c. r = Inr c) \<longrightarrow> rest = [] \<and> r = rb \<and> (\<forall>sv. pr_server p' = Some sv \<longrightarrow> closed_server sv)"
    using serve_finally_trace [OF f assms(1)] unfolding as(3) by (elim exE conjE) (rule that)
  have none: "\<forall>a \<in> set (tr0 @ as). \<not> releases a" using t0(1) as(2) by (auto simp: filter_empty_conv)
  then have dns: "filter (\<lambda>a. a = CancelDns) (tr0 @ as) = []" by (auto simp: filter_empty_conv releases_def)
  have relset: "set (rel @ rest) \<subseteq> {DisposeDb, CloseClient, CancelDns, CloseServer}"
    unfolding c(5) using c(2) by auto
  then have rel: "filter releases rel = rel" "BuildServer \<notin> set rel" by (auto simp: filter_id_conv releases_def)
  have eq: "filter (\<lambda>a. a = CancelDns) tr = cancels" "filter releases tr = rel" "BuildServer \<in> set tr \<longleftrightarrow> BuildServer \<in> set as"
    using dns t0 as(1,2) c(1,4) rel by simp_all
  have "filter releases tr @ rest = all_releases given_client tr"
    unfolding eq(2) c(5) all_releases_def eq(1,3) by simp
  moreover have "c' \<in> {0, 1} \<and> (\<exists>pre post. tr = pre @ [AwaitFirst, StopAccepting, ShouldExit, Drain (se_shutdown_drain_timeout S)] @ post
      \<and> filter releases pre = [])" if r': "r = Inr c'" for c'
  proof -
    obtain pre post where "as = pre @ [AwaitFirst, StopAccepting, ShouldExit, Drain (se_shutdown_drain_timeout S)] @ post"
        and c': "c' \<in> {0, 1}"
      using as(4) r' c(6) by blast
    moreover from this have "filter releases (tr0 @ pre) = []" using none by (auto simp: filter_empty_conv)
    ultimately show ?thesis
      using as(1) c(1) by - (rule conjI, simp, rule exI [of _ "tr0 @ pre"], rule exI [of _ "post @ rel"], simp)
  qed
  ultimately show ?thesis using eq(1) c(3,6) by blast
qed


section \<open>Exit codes\<close>

lemma wind_down_code: "fst (wind_down E S tasks s) = Inr c \<Longrightarrow> c = (if fst tasks \<or> snd tasks then 1 else 0)"
  by (auto simp: wind_down_def Let_def split_beta split: sum.splits if_splits)

text \<open>The process when the planes are started, from the state after the startup checks.\<close>

definition planes_started ::
  "('f, 'n, 't, 'w) main_env \<Rightarrow> settings \<Rightarrow> 'f kek \<Rightarrow> ('n, 't, 'w) process \<Rightarrow> ('n, 't, 'w) process" where
  "planes_started E S kek p =
     snd (at_world (me_create_app E)
       ((safe_initial_refresh E kek p)\<lparr>pr_server := Some (server_init (nat (se_dns_port S)))\<rparr>))"

lemma serve_body_code:
  assumes "fst (serve_body E S kek sig (tr, p)) = Inr c"
  shows "\<exists>v tasks. validate_db_startup (me_startup E) S ''alembic.ini'' (me_db E (pr_world p)) (pr_world p) = (Inr (), v)
     \<and> fst (me_await_first E (planes_started E S kek (p\<lparr>pr_world := v\<rparr>))) = Inr tasks
     \<and> c = (if fst tasks \<or> snd tasks then 1 else 0)"
proof -
  let ?v = "validate_db_startup (me_startup E) S ''alembic.ini'' (me_db E (pr_world p)) (pr_world p)"
  obtain u where u: "fst ?v = Inr u" using assms by (auto simp: serve_body_def at_world_simp split: sum.splits)
  let ?q = "planes_started E S kek (p\<lparr>pr_world := snd ?v\<rparr>)"
  obtain tasks s6 where "fst (me_await_first E ?q) = Inr tasks" "fst (wind_down E S tasks s6) = Inr c"
    using assms u
    by (auto simp: serve_body_def planes_started_def at_world_simp Let_def split_beta split: sum.splits if_splits)
  moreover have "?v = (Inr (), snd ?v)" using u by (cases ?v) simp
  ultimately show ?thesis using wind_down_code by blast
qed

text \<open>What becomes of an exception that leaves \<^verbatim>\<open>serve\<close>: only a StartupError is an exit code.\<close>

definition exit_of :: "exn \<Rightarrow> int res" where
  "exit_of e = (case e of StartupError _ \<Rightarrow> Inr 2 | _ \<Rightarrow> Inl e)"

lemma main_process_exit:
  "fst (main_process F E S s) = (case fst (serve_process F E S True False s) of Inl e \<Rightarrow> exit_of e | Inr c \<Rightarrow> Inr c)"
  by (cases "serve_process F E S True False s") (auto simp: main_process_def exit_of_def split: sum.splits exn.splits)

lemma serve_process_code:
  assumes "fst (serve_process F E S sig given_client ([], p)) = Inr c"
  shows "\<exists>kek w v tasks. validate_kek F (Some (se_credential_kek S)) = Inr kek
     \<and> me_from_dsn E (se_database_dsn S) (pr_world p) = (Inr (), w)
     \<and> validate_db_startup (me_startup E) S ''alembic.ini'' (me_db E w) w = (Inr (), v)
     \<and> fst (me_await_first E (planes_started E S kek (p\<lparr>pr_world := v\<rparr>))) = Inr tasks
     \<and> c = (if fst tasks \<or> snd tasks then 1 else 0)"
proof -
  have pass: "fst (serve_finally E owns r has_task q) = Inr c \<Longrightarrow> r = Inr c" for owns r has_task q
    by (auto simp: serve_finally_def split: prod.splits sum.splits if_splits)
  obtain kek where k: "validate_kek F (Some (se_credential_kek S)) = Inr kek"
    using assms by (auto simp: serve_process_def split: sum.splits)
  obtain w where w: "me_from_dsn E (se_database_dsn S) (pr_world p) = (Inr (), w)"
    using assms k by (cases "me_from_dsn E (se_database_dsn S) (pr_world p)")
      (auto simp: serve_process_def at_world_simp Let_def split: sum.splits if_splits)
  have "fst (serve_body E S kek sig (if given_client then [FromDsn] else [BuildClient, FromDsn], p\<lparr>pr_world := w\<rparr>)) = Inr c"
    using assms k w pass by (auto simp: serve_process_def at_world_simp Let_def split_beta split: if_splits)
  from serve_body_code [OF this] show ?thesis using k w by auto
qed

lemma startup_failure:
  assumes "releases_succeed E" and "pr_server p = None" and "validate_kek F (Some (se_credential_kek S)) = Inr kek"
    and "me_from_dsn E (se_database_dsn S) (pr_world p) = (Inr (), w)"
    and "validate_db_startup (me_startup E) S ''alembic.ini'' (me_db E w) w = (Inl e, v)"
  shows "\<exists>q. serve_process F E S True False ([], p) = (Inl e, [BuildClient, FromDsn, ValidateDb, DisposeDb, CloseClient], q)"
proof -
  have ok: "fst (me_dispose E u) = Inr ()" "fst (me_aclose E u) = Inr ()" for u
    using assms(1) by (simp_all add: releases_succeed_def)
  let ?p = "p\<lparr>pr_world := w\<rparr>" and ?q = "p\<lparr>pr_world := v\<rparr>"
  have "serve_body E S kek True ([BuildClient, FromDsn], ?p) = (Inl e, False, [BuildClient, FromDsn, ValidateDb], ?q)"
    using assms(5) by (simp add: serve_body_def at_world_simp)
  then have "serve_process F E S True False ([], p) =
      serve_finally E True (Inl e) False ([BuildClient, FromDsn, ValidateDb], ?q)"
    using assms(3,4) by (simp add: serve_process_def at_world_simp)
  then show ?thesis using assms(2) by (simp add: serve_finally_def at_world_simp ok)
qed

text \<open>
  C24: every end of the process and its exit code. A KEK or a DSN that is refused ends it at once; a database that
  fails the startup checks ends it, unless a release step raises too, with the database pool and the HTTP client released and
  neither the DNS server nor the management application built. In each case a StartupError gives the code 2 and any
  other exception is passed on without a code. In general, the process passes an exception on exactly if \<^verbatim>\<open>serve\<close> raised one
  that is no StartupError, its code is 2 exactly if \<^verbatim>\<open>serve\<close> raised a StartupError, and any other code means that
  all startup checks passed and is 1 if one of the planes had ended when the wait for the planes and the
  shutdown event was over, that is, had given up, and 0 otherwise.
\<close>

theorem exit_codes:
  assumes "pr_server p = None"
  shows "(\<forall>e. validate_kek F (Some (se_credential_kek S)) = Inl e \<longrightarrow> main_process F E S ([], p) = (exit_of e, [], p))
     \<and> (\<forall>kek e w. validate_kek F (Some (se_credential_kek S)) = Inr kek
            \<and> me_from_dsn E (se_database_dsn S) (pr_world p) = (Inl e, w) \<longrightarrow>
            main_process F E S ([], p) = (exit_of e, [BuildClient, FromDsn], p\<lparr>pr_world := w\<rparr>))
     \<and> (\<forall>kek e w v. releases_succeed E \<and> validate_kek F (Some (se_credential_kek S)) = Inr kek
            \<and> me_from_dsn E (se_database_dsn S) (pr_world p) = (Inr (), w)
            \<and> validate_db_startup (me_startup E) S ''alembic.ini'' (me_db E w) w = (Inl e, v) \<longrightarrow>
            fst (main_process F E S ([], p)) = exit_of e
            \<and> fst (snd (main_process F E S ([], p))) = [BuildClient, FromDsn, ValidateDb, DisposeDb, CloseClient])
     \<and> (\<forall>e. fst (main_process F E S ([], p)) = Inl e \<longleftrightarrow>
            fst (serve_process F E S True False ([], p)) = Inl e \<and> (\<forall>m. e \<noteq> StartupError m))
     \<and> (fst (main_process F E S ([], p)) = Inr 2 \<longleftrightarrow>
            (\<exists>m. fst (serve_process F E S True False ([], p)) = Inl (StartupError m)))
     \<and> (\<forall>c. fst (main_process F E S ([], p)) = Inr c \<and> c \<noteq> 2 \<longrightarrow>
            (\<exists>kek w v d a. validate_kek F (Some (se_credential_kek S)) = Inr kek
               \<and> me_from_dsn E (se_database_dsn S) (pr_world p) = (Inr (), w)
               \<and> validate_db_startup (me_startup E) S ''alembic.ini'' (me_db E w) w = (Inr (), v)
               \<and> fst (me_await_first E (planes_started E S kek (p\<lparr>pr_world := v\<rparr>))) = Inr (d, a)
               \<and> c = (if d \<or> a then 1 else 0)))"
proof (intro conjI allI impI)
  let ?main = "main_process F E S ([], p)" and ?serve = "serve_process F E S True False ([], p)"
  have exits: "exit_of e = Inl e' \<longleftrightarrow> e = e' \<and> (\<forall>m. e \<noteq> StartupError m)" "exit_of e = Inr 2 \<longleftrightarrow> (\<exists>m. e = StartupError m)"
    "exit_of e = Inr c \<Longrightarrow> c = 2" for e e' c
    by (auto simp: exit_of_def split: exn.splits)
  have codes: "fst ?serve = Inr c \<Longrightarrow> c \<noteq> 2" for c using serve_process_code [of F E S True False p c] by (auto split: if_splits)
  show "fst ?main = Inl e \<longleftrightarrow> fst ?serve = Inl e \<and> (\<forall>m. e \<noteq> StartupError m)" for e
    by (auto simp: main_process_exit exits split: sum.splits)
  show "fst ?main = Inr 2 \<longleftrightarrow> (\<exists>m. fst ?serve = Inl (StartupError m))"
    using codes by (auto simp: main_process_exit exits split: sum.splits)
  have snd_main: "snd ?main = snd ?serve" by (auto simp: main_process_def split: prod.splits sum.splits exn.splits)
  have stop: "?main = (exit_of e, q)" if "?serve = (Inl e, q)" for e q
    using main_process_exit [of F E S "([], p)"] snd_main that by (cases ?main) simp
  show "?main = (exit_of e, [], p)" if "validate_kek F (Some (se_credential_kek S)) = Inl e" for e
    using that by (intro stop) (simp add: serve_process_def)
  {
    fix kek e w
    assume "validate_kek F (Some (se_credential_kek S)) = Inr kek \<and> me_from_dsn E (se_database_dsn S) (pr_world p) = (Inl e, w)"
    then show "?main = (exit_of e, [BuildClient, FromDsn], p\<lparr>pr_world := w\<rparr>)"
      by (intro stop) (simp add: serve_process_def at_world_simp)
  next
    fix kek e w v
    assume h: "releases_succeed E \<and> validate_kek F (Some (se_credential_kek S)) = Inr kek
        \<and> me_from_dsn E (se_database_dsn S) (pr_world p) = (Inr (), w)
        \<and> validate_db_startup (me_startup E) S ''alembic.ini'' (me_db E w) w = (Inl e, v)"
    then obtain q where "?serve = (Inl e, [BuildClient, FromDsn, ValidateDb, DisposeDb, CloseClient], q)"
      using startup_failure [OF _ assms] by blast
    from stop [OF this] show "fst ?main = exit_of e"
      "fst (snd ?main) = [BuildClient, FromDsn, ValidateDb, DisposeDb, CloseClient]" by simp_all
  next
    fix c assume "fst ?main = Inr c \<and> c \<noteq> 2"
    then have "fst ?serve = Inr c" using exits(3) by (auto simp: main_process_exit split: sum.splits)
    from serve_process_code [OF this] show "\<exists>kek w v d a. validate_kek F (Some (se_credential_kek S)) = Inr kek
        \<and> me_from_dsn E (se_database_dsn S) (pr_world p) = (Inr (), w)
        \<and> validate_db_startup (me_startup E) S ''alembic.ini'' (me_db E w) w = (Inr (), v)
        \<and> fst (me_await_first E (planes_started E S kek (p\<lparr>pr_world := v\<rparr>))) = Inr (d, a) \<and> c = (if d \<or> a then 1 else 0)"
      by auto
  }
qed

section \<open>A sample process\<close>

text \<open>
  The world is the list of open sockets. The planes bind the two sockets and then the shutdown event is
  set; the DNS task still runs when the body ends.
\<close>

definition sample_main_env :: "(u8, string, nat, nat list \<times> nat) main_env" where
  "sample_main_env =
     \<lparr>me_from_dsn = (\<lambda>_ w. (Inr (), w)),
      me_startup = \<lparr>su_is_dir = (\<lambda>_. False), su_ping = (\<lambda>w. (Inr (), w)), su_type_name = (\<lambda>_. ''TimeoutError''),
        su_script_head = (\<lambda>_. Inr (Some ''0001'')), su_current_revision = (\<lambda>w. (Inr (Some ''0001''), w)),
        su_read_rows = (\<lambda>w. (Inr (), w))\<rparr>,
      me_db = (\<lambda>_. sample_db),
      me_load = (\<lambda>_ w. (Inl (OtherError ''OperationalError''), w)),
      me_create_app = (\<lambda>w. (Inr (), w)),
      me_await_first = (\<lambda>p. (Inr (False, False),
         case pr_server p of
           None \<Rightarrow> p
         | Some sv \<Rightarrow> (case serve_bind sample_net sv (pr_world p) of (_, sv', w) \<Rightarrow> p\<lparr>pr_server := Some sv', pr_world := w\<rparr>))),
      me_drain = (\<lambda>_ p. (Inr (), p)),
      me_api_done = (\<lambda>_. False),
      me_gather = (\<lambda>p. (Inr (), p)),
      me_dispose = (\<lambda>w. (Inr (), w)),
      me_aclose = (\<lambda>w. (Inr (), w)),
      me_dns_done = (\<lambda>_. False),
      me_gather_dns = (\<lambda>p. (Inr (), p)),
      me_net = sample_net\<rparr>"

definition sample_process :: "(string, nat, nat list \<times> nat) process" where
  "sample_process = \<lparr>pr_cache = \<lparr>ca_snapshot = None\<rparr>, pr_server = None, pr_world = ([], 0)\<rparr>"

lemma sample_main_env_laws:
  "releases_succeed sample_main_env" "planes_keep_server sample_main_env" "pr_server sample_process = None"
  by (auto simp: releases_succeed_def planes_keep_server_def sample_main_env_def sample_process_def
      split: option.splits prod.splits)

abbreviation sample_settings :: settings where
  "sample_settings \<equiv> default_settings [] ''a'' [] []"

lemma sample_kek: "validate_kek (sample_fernet :: (u8, unit) fernet_ops) (Some ''a'') = Inr [97]"
  by code_simp


theorem exit_codes_witness:
  "fst (main_process (sample_fernet :: (u8, unit) fernet_ops) sample_main_env
     (sample_settings\<lparr>se_spa_dir := Some ''/srv/spa''\<rparr>) ([], sample_process)) = Inr 2
   \<and> (\<exists>m. fst (serve_process (sample_fernet :: (u8, unit) fernet_ops) sample_main_env
     (sample_settings\<lparr>se_spa_dir := Some ''/srv/spa''\<rparr>) True False ([], sample_process)) = Inl (StartupError m))"
proof -
  let ?F = "sample_fernet :: (u8, unit) fernet_ops" and ?S = "sample_settings\<lparr>se_spa_dir := Some ''/srv/spa''\<rparr>"
  have k: "validate_kek ?F (Some (se_credential_kek ?S)) = Inr [97]"
    by (simp add: default_settings_def sample_kek)
  have d: "me_from_dsn sample_main_env (se_database_dsn ?S) (pr_world sample_process) = (Inr (), ([], 0))"
    by (simp add: sample_main_env_def sample_process_def)
  obtain m v where v: "validate_db_startup (me_startup sample_main_env) ?S ''alembic.ini''
      (me_db sample_main_env ([], 0)) ([], 0) = (Inl (StartupError m), v)"
    by (simp add: validate_db_startup_def sample_main_env_def)
  have "exit_of (StartupError m) = Inr 2" by (simp add: exit_of_def)
  then show ?thesis
    using exit_codes [OF sample_main_env_laws(3), where F = ?F and E = sample_main_env and S = ?S] k d v sample_main_env_laws(1)
    by metis
qed

end
