(* ===== verification/RunningSystem.thy ===== *)
theory RunningSystem
  imports ApiTokens AuditLog Rotation
begin

text \<open>
  The running system as a state machine over what its parts share: the database and the routing
  cache. A step is a request to the management API, a challenge that the data plane dispatches with the
  routes of the current cache and audits in the database, a rotation of the KEK, a restart (the
  cache is loaded anew and the limiter forgets), or a change of the world outside.
\<close>

section \<open>The steps\<close>

text \<open>The dispatcher as \<^verbatim>\<open>main.serve\<close> builds it: routes and key ids come from the cache.\<close>

definition serving_dispatcher ::
  "'n name_ops \<Rightarrow> 'n routing_cache \<Rightarrow> ('n, string, 'w) dispatcher \<Rightarrow> ('n, string, 'w) dispatcher" where
  "serving_dispatcher N c D =
     D\<lparr>d_routing := cache_match N c, d_tsig_resolver := Some (tsig_key_id_for N c)\<rparr>"

definition dispatch_challenge ::
  "('n, 'f, 'w) api_env \<Rightarrow> 'n name_ops \<Rightarrow> (string, 'w) provider_ops \<Rightarrow> ('n, string, 'w) dispatcher \<Rightarrow> 'n routing_cache \<Rightarrow>
   'n update_msg \<Rightarrow> string \<Rightarrow> metrics \<Rightarrow> string list \<Rightarrow> ('n, 'w) api_state \<Rightarrow> rcode res \<times> (db \<times> 'w) dstate" where
  "dispatch_challenge E N P D c msg src m locks st =
     dispatch N (beside_db P) (audited_dispatcher (db_audit_record (ae_db E)) (serving_dispatcher N c D)) msg src
       \<lparr>ds_metrics = m, ds_locks = locks, ds_world = (as_db st, as_world st)\<rparr>"

inductive system_step ::
  "('n, 'f, 'w) api_env \<Rightarrow> 'f app_resources \<Rightarrow> 'n name_ops \<Rightarrow> ('n, 'w) api_state \<Rightarrow> ('n, 'w) api_state \<Rightarrow> bool"
  for E R N where
  request: "app E R netloc_ok ep rq st = (r, st') \<Longrightarrow> system_step E R N st st'"
| challenge: "as_cache st = Some c \<Longrightarrow>
    dispatch_challenge E N P D c msg src m locks st = (r, s') \<Longrightarrow>
    system_step E R N st (st\<lparr>as_db := fst (ds_world s'), as_world := snd (ds_world s')\<rparr>)"
| rotation: "rotate_stored_secrets (ae_fernet E) (ae_db E) (f # fs) (as_db st) (as_world st) = (r, d, w) \<Longrightarrow>
    system_step E R N st (st\<lparr>as_db := d, as_world := w\<rparr>)"
| restart: "system_step E R N st
    (st\<lparr>as_cache := Some (snd (cache_refresh (ae_loader E (as_db st)) cache_init)), as_limiter := default_login_limiter\<rparr>)"
| elapse: "system_step E R N st (st\<lparr>as_world := w\<rparr>)"

text \<open>A run, with the databases that it went through.\<close>

inductive system_run ::
  "('n, 'f, 'w) api_env \<Rightarrow> 'f app_resources \<Rightarrow> 'n name_ops \<Rightarrow> ('n, 'w) api_state \<Rightarrow> db list \<Rightarrow> ('n, 'w) api_state \<Rightarrow> bool"
  for E R N st0 where
  start: "system_run E R N st0 [as_db st0] st0"
| step: "system_run E R N st0 ds st \<Longrightarrow> system_step E R N st st' \<Longrightarrow> system_run E R N st0 (as_db st' # ds) st'"

section \<open>The database\<close>

text \<open>The events of a database are still in a later one, perhaps without their key.\<close>

definition events_kept :: "db \<Rightarrow> db \<Rightarrow> bool" where
  "events_kept d d' \<longleftrightarrow> (\<exists>old new. db_events d' = old @ new \<and> list_all2 event_kept (db_events d) old)"

lemma events_kept_refl: "events_kept d d"
  unfolding events_kept_def by (intro exI [of _ "db_events d"] exI [of _ "[]"]) (simp add: event_kept_refl)

lemma events_kept_trans: "events_kept a b \<Longrightarrow> events_kept b c \<Longrightarrow> events_kept a c"
proof -
  assume "events_kept a b" "events_kept b c"
  then obtain old new old' new' where
    "db_events b = old @ new" "list_all2 event_kept (db_events a) old"
    "db_events c = old' @ new'" "list_all2 event_kept (db_events b) old'"
    unfolding events_kept_def by blast
  then obtain u v where "old' = u @ v" "list_all2 event_kept old u" by (metis list_all2_append1)
  then have "list_all2 event_kept (db_events a) u"
    using list_all2_trans [of event_kept event_kept event_kept] event_kept_trans \<open>list_all2 event_kept (db_events a) old\<close> by blast
  then show "events_kept a c" using \<open>db_events c = old' @ new'\<close> \<open>old' = u @ v\<close> by (auto simp: events_kept_def)
qed

text \<open>What a sink preserves of the database, a dispatch preserves.\<close>

lemma dispatch_preserves:
  assumes "\<And>rec d w r d' w'. sink rec (d, w) = (r, d', w') \<Longrightarrow> Q d \<Longrightarrow> Q d'" and "Q (fst (ds_world s))"
  shows "Q (fst (ds_world (snd (dispatch N (beside_db P) (audited_dispatcher sink D) msg src s))))"
proof (cases "admit N P D msg")
  case None
  then show ?thesis using assms(2) by (simp add: dispatch_def)
next
  case (Some x)
  obtain route a rrset vs where x: "x = (route, a, rrset, vs)" by (cases x)
  obtain d w where w: "ds_world s = (d, w)" by fastforce
  let ?s1 = "called_state N P D route a rrset vs s"
  have wr: "Q (fst (ds_world (write_audit (audited_dispatcher sink D) rec s2)))" if "Q (fst (ds_world s2))" for rec s2
    using that assms(1) by (cases "ds_world s2") (auto simp: write_audit_def split: prod.splits sum.splits)
  have "Q (fst (ds_world (snd (finish_call N (beside_db P) (audited_dispatcher sink D) route a rn src' kid t0 ed ?s1))))"
    for rn src' kid t0 ed
    using finish_call_write [of "?s1" N P sink D route a rn src' kid t0 ed] wr assms(2) by (metis called_state_frame(1))
  moreover have "Q (fst (ds_world ?s1))" using assms(2) by simp
  ultimately show ?thesis
    unfolding audited_dispatch [OF Some [unfolded x] w] Let_def by (auto split: sum.splits exn.splits)
qed

text \<open>A well-formed database that still has the events of an earlier one.\<close>

definition keeps_from :: "db \<Rightarrow> db \<Rightarrow> bool" where
  "keeps_from d0 d \<longleftrightarrow> schema_ok d \<and> events_kept d0 d"

lemma audit_keeps:
  assumes "enforces_schema E" and "db_audit_record E rec (d, w) = (r, d', w')" and "keeps_from d0 d"
  shows "keeps_from d0 d'"
proof (cases r)
  case (Inl e)
  then show ?thesis using da.write_error [of E rec d w e d' w'] assms by simp
next
  case (Inr u)
  obtain x where x: "db_events d' = db_events d @ [x]"
    using da.write_ok [of E rec d w u d' w'] assms(2) Inr by blast
  have "schema_ok d'"
    using assms(1,2) Inr by (auto simp: db_audit_record_def transact_def split_beta dest: enforces_committed split: prod.splits sum.splits)
  moreover have "events_kept d d'" unfolding events_kept_def using x event_kept_refl by blast
  ultimately show ?thesis using assms(3) events_kept_trans by (auto simp: keeps_from_def)
qed

lemma app_keeps:
  assumes "enforces_schema (ae_db E)" and "keeps_from d0 (as_db st)"
  shows "keeps_from d0 (as_db (snd (app E R netloc_ok ep rq st)))"
proof -
  let ?d = "as_db (snd (app E R netloc_ok ep rq st))"
  have "events_kept (as_db st) ?d"
    unfolding events_kept_def
    by (intro exI [of _ "db_events ?d"] exI [of _ "[]"]) (simp add: db_steps_events [OF app_db_steps])
  with assms(2) have "events_kept d0 ?d" unfolding keeps_from_def by (blast intro: events_kept_trans)
  moreover have "schema_ok ?d"
    using assms(2) by (intro db_steps_schema [OF app_db_steps assms(1)]) (simp add: keeps_from_def)
  ultimately show ?thesis by (simp add: keeps_from_def)
qed

lemma rotation_keeps:
  assumes "enforces_schema E" and "rotate_stored_secrets F E kek d w = (r, d', w')" and "keeps_from d0 d"
  shows "keeps_from d0 d'"
proof (cases r)
  case (Inl e)
  then show ?thesis using rotate_stored_secrets_Inl [of F E kek d w e d' w'] assms by simp
next
  case (Inr counts)
  then have "db_events d' = db_events d \<and> schema_ok d'"
    using assms(1,2)
    by (auto simp: rotate_stored_secrets_def transact_def split_beta Let_def dest: enforces_committed
        split: sum.splits prod.splits)
  then show ?thesis using assms(3) by (simp add: keeps_from_def events_kept_def)
qed

lemma system_step_keeps:
  assumes "system_step E R N st st'" and "enforces_schema (ae_db E)" and "keeps_from d0 (as_db st)"
  shows "keeps_from d0 (as_db st')"
  using assms(1)
proof (cases rule: system_step.cases)
  case (request netloc_ok ep rq r)
  then show ?thesis using app_keeps [OF assms(2,3), of R netloc_ok ep rq] by simp
next
  case (challenge c P D msg src m locks r s')
  have "keeps_from d0 (fst (ds_world (snd (dispatch_challenge E N P D c msg src m locks st))))"
    unfolding dispatch_challenge_def
    by (rule dispatch_preserves [where Q = "keeps_from d0"], erule (1) audit_keeps [OF assms(2)]) (simp add: assms(3))
  then show ?thesis using challenge by simp
next
  case (rotation f fs r d w)
  then show ?thesis using rotation_keeps [OF assms(2) _ assms(3)] by auto
qed (use assms(3) in simp_all)

section \<open>The routing cache\<close>

text \<open>A request leaves the cache alone, or refreshes it from the database as the request leaves it.\<close>

definition refreshed :: "('n, 'f, 'w) api_env \<Rightarrow> 'n routing_cache option \<Rightarrow> ('n, 'w) api_state \<Rightarrow> bool" where
  "refreshed E c st \<longleftrightarrow>
     as_cache st = c \<or> as_cache st = map_option (\<lambda>c. snd (cache_refresh (ae_loader E (as_db st)) c)) c"

lemma refreshed_refl [simp]: "as_cache st = c \<Longrightarrow> refreshed E c st"
  by (simp add: refreshed_def)

lemma refreshed_refresh [intro]: "as_cache st = c \<Longrightarrow> refreshed E c (refresh_routing_cache E st)"
  by (cases c) (simp_all add: refreshed_def refresh_routing_cache_def split_beta)

lemma refreshed_and_then:
  assumes "as_cache (snd m) = c" and "\<And>k x st. as_cache st = c \<Longrightarrow> refreshed E c (snd (f k x st))"
  shows "refreshed E c (snd (and_then m f))"
  using assms by (cases m; cases "fst m") (auto simp: and_then_def)

lemma refreshed_guarded:
  assumes "as_cache st = c" and "\<And>st. as_cache st = c \<Longrightarrow> refreshed E c (snd (h st))"
  shows "refreshed E c (snd (guarded E R rq valid h st))"
  unfolding guarded_def using assms by (intro refreshed_and_then) (auto split: sum.splits)

lemma refreshed_guarded_kek:
  assumes "as_cache st = c" and "\<And>kek st. as_cache st = c \<Longrightarrow> refreshed E c (snd (h kek st))"
  shows "refreshed E c (snd (guarded_kek E R rq valid h st))"
  unfolding guarded_kek_def using assms by (intro refreshed_and_then) (auto split: sum.splits)

lemma refreshed_commit_or_409:
  assumes "as_cache st = c" and "\<And>st. as_cache st = c \<Longrightarrow> refreshed E c (snd (k st))"
  shows "refreshed E c (snd (commit_or_409 E detail new k st))"
  using assms by (auto simp: commit_or_409_def commit_session_cache split: prod.splits sum.splits)

lemma refreshed_commit_then:
  assumes "as_cache st = c" and "\<And>st. as_cache st = c \<Longrightarrow> refreshed E c (snd (k st))"
  shows "refreshed E c (snd (commit_then E new k st))"
  using assms by (auto simp: commit_then_def commit_session_cache split: prod.splits sum.splits)

lemmas refreshed_combinators =
  refreshed_guarded refreshed_guarded_kek refreshed_and_then refreshed_commit_or_409 refreshed_commit_then
  refreshed_refresh

lemma refreshed_store_backend: "as_cache st = c \<Longrightarrow> refreshed E c (snd (store_backend E i old new st))"
  unfolding store_backend_def Let_def split_beta by (intro refreshed_commit_or_409) auto

lemma refreshed_backends:
  assumes "as_cache st = c"
  shows "refreshed E c (snd (create_backend E R cp rq st))" "refreshed E c (snd (update_backend E R i up rq st))"
    "refreshed E c (snd (delete_backend E R i rq st))"
  using assms unfolding create_backend_def update_backend_def delete_backend_def
  by (intro refreshed_guarded_kek refreshed_guarded refreshed_and_then;
      auto simp: Let_def split_beta split: option.splits prod.splits sum.splits
        intro!: refreshed_store_backend refreshed_combinators)+

lemma refreshed_domains_keys:
  assumes "as_cache st = c"
  shows "refreshed E c (snd (create_domain E R dp rq st))" "refreshed E c (snd (delete_domain E R i rq st))"
    "refreshed E c (snd (create_tsig_key E R kp rq st))" "refreshed E c (snd (revoke_tsig_key E R i rq st))"
    "refreshed E c (snd (create_api_token E R tp rq st))" "refreshed E c (snd (revoke_api_token E R i rq st))"
  using assms
  unfolding create_domain_def delete_domain_def create_tsig_key_def revoke_tsig_key_def create_api_token_def
    revoke_api_token_def
  by (auto simp: Let_def split_beta split: option.splits prod.splits sum.splits intro!: refreshed_combinators)

lemma refreshed_reads:
  assumes "as_cache st = c"
  shows "refreshed E c (snd (list_backends E R rq st))" "refreshed E c (snd (get_backend E R i rq st))"
    "refreshed E c (snd (list_domains E R rq st))" "refreshed E c (snd (list_tsig_keys E R rq st))"
    "refreshed E c (snd (list_api_tokens E R rq st))" "refreshed E c (snd (list_events E R l off rq st))"
    "refreshed E c (snd (list_providers E R rq st))" "refreshed E c (snd (session_status E R rq st))"
    "refreshed E c (snd (guarded_docs E R rq st))"
  using assms
  unfolding list_backends_def get_backend_def list_domains_def list_tsig_keys_def list_api_tokens_def
    list_events_def list_providers_def session_status_def guarded_docs_def
  by (auto intro!: refreshed_combinators split: option.splits)

lemma refreshed_login: "as_cache st = c \<Longrightarrow> refreshed E c (snd (login E R pw rq st))"
  using verify_admin_password_frame(1) [of E R pw "snd (monotonic E st)"]
  by (auto simp: login_def Let_def split_beta split: sum.splits bool.splits prod.splits)

lemma refreshed_change_password: "as_cache st = c \<Longrightarrow> refreshed E c (snd (change_password E R cur new rq st))"
  unfolding change_password_def
  by (rule refreshed_and_then)
     (auto simp: set_admin_password_def split_beta split: sum.splits bool.splits prod.splits
       dest!: arg_cong [where f = snd] simp: verify_admin_password_frame(1))

lemma refreshed_app: "refreshed E (as_cache st) (snd (app E R netloc_ok ep rq st))"
proof -
  have "refreshed E (as_cache st) (snd (handle_endpoint E R ep rq st))"
    by (cases ep) (simp_all add: handle_endpoint_def refreshed_backends refreshed_domains_keys refreshed_reads
        refreshed_login refreshed_change_password logout_def)
  then show ?thesis by (simp add: app_def csrf_dispatch_def split: sum.splits)
qed

text \<open>The snapshot that is served was loaded from one of the databases.\<close>

definition serves_from :: "('n, 'f, 'w) api_env \<Rightarrow> db set \<Rightarrow> ('n, 'w) api_state \<Rightarrow> bool" where
  "serves_from E ds st \<longleftrightarrow>
     (\<exists>c. as_cache st = Some c \<and> (\<forall>s. ca_snapshot c = Some s \<longrightarrow> (\<exists>d \<in> ds. ae_loader E d = Inr s)))"

lemma serves_from_refresh:
  assumes "refreshed E (as_cache st) st'" and "serves_from E ds st"
  shows "serves_from E (insert (as_db st') ds) st'"
  using assms by (auto simp: refreshed_def serves_from_def cache_refresh_def split: sum.splits)

lemma system_step_serves:
  assumes "system_step E R N st st'" and "serves_from E ds st"
  shows "serves_from E (insert (as_db st') ds) st'"
  using assms(1)
proof (cases rule: system_step.cases)
  case (request netloc_ok ep rq r)
  then show ?thesis using serves_from_refresh [OF refreshed_app assms(2), of R netloc_ok ep rq] by simp
next
  case restart
  then show ?thesis by (auto simp: serves_from_def cache_refresh_def cache_init_def split: sum.splits)
qed (use assms(2) in \<open>auto simp: serves_from_def\<close>)

section \<open>The invariant\<close>

text \<open>
  C5: what holds at every moment of a run of the whole system, in which requests to the API,
  challenges of the data plane, key rotations, restarts and changes outside follow one another in any order.
  The database satisfies its schema; every event that was ever recorded is still there, in its
  place and unchanged but for the reference to a revoked key; and the snapshot that the data plane
  serves from is that of a database that was committed, never a mixture of two.
\<close>

theorem system_invariant:
  assumes "enforces_schema (ae_db E)" and "schema_ok (as_db st0)" and "as_cache st0 = Some cache_init"
    and "system_run E R N st0 ds st"
  shows "schema_ok (as_db st) \<and> (\<forall>d \<in> set ds. events_kept d (as_db st)) \<and> serves_from E (set ds) st"
  using assms(4)
proof (induction rule: system_run.induct)
  case start
  show ?case using assms(2,3) by (simp add: events_kept_refl serves_from_def cache_init_def)
next
  case (step ds st st')
  note keeps = system_step_keeps [OF step.hyps(2) assms(1)]
  have "schema_ok (as_db st')" using keeps [of "as_db st"] step.IH by (simp add: keeps_from_def events_kept_refl)
  moreover have "events_kept d (as_db st')" if "d \<in> set ds" for d
    using keeps [of d] step.IH that by (simp add: keeps_from_def)
  moreover have "serves_from E (insert (as_db st') (set ds)) st'"
    using system_step_serves [OF step.hyps(2)] step.IH by blast
  ultimately show ?case by (simp add: events_kept_refl)
qed

text \<open>A run: the process starts, a challenge is dispatched, a domain is deleted and the KEK rotated.\<close>

definition sample_string_ops :: "(string, int) provider_ops" where
  "sample_string_ops =
     \<lparr>pv_type = (\<lambda>p. p), pv_supports_multivalue = (\<lambda>p. False), pv_supports_delete = (\<lambda>p. True),
      pv_present = (\<lambda>p z r v w. (Inr (), w)), pv_cleanup = (\<lambda>p z r v w. (Inl (ProviderError ''down''), w)),
      pv_validate = (\<lambda>p w. (Inr (), w))\<rparr>"

definition sample_idle_dispatcher :: "(string list, string, int) dispatcher" where
  "sample_idle_dispatcher =
     \<lparr>d_routing = (\<lambda>_. None), d_clock = (\<lambda>w. (0, w)), d_perf_counter = (\<lambda>w. (0, w)), d_audit = None,
      d_tsig_resolver = None\<rparr>"

definition sample_started :: "(string list, int) api_state" where
  "sample_started = (sample_api_state sample_db)
     \<lparr>as_cache := Some (snd (cache_refresh (ae_loader sample_env (as_db (sample_api_state sample_db))) cache_init)),
      as_limiter := default_login_limiter\<rparr>"

definition sample_challenged :: "(string list, int) api_state" where
  "sample_challenged =
     (let s = snd (dispatch_challenge sample_env sample_names sample_string_ops
                sample_idle_dispatcher (the (as_cache sample_started))
                (sample_update sample_owner None) ''10.0.0.1'' init_metrics [] sample_started)
      in sample_started\<lparr>as_db := fst (ds_world s), as_world := snd (ds_world s)\<rparr>)"

definition sample_deleted :: "(string list, int) api_state" where
  "sample_deleted = snd (app sample_env sample_resources (\<lambda>_. True) (DeleteDomain 1) sample_delete sample_challenged)"

definition sample_rotated :: "(string list, int) api_state" where
  "sample_rotated =
     (let (r, d, w) = rotate_stored_secrets (ae_fernet sample_env) (ae_db sample_env) [9, 7]
                        (as_db sample_deleted) (as_world sample_deleted)
      in sample_deleted\<lparr>as_db := d, as_world := w\<rparr>)"

lemma sample_run:
  "system_run sample_env sample_resources sample_names (sample_api_state sample_db)
     [as_db sample_rotated, as_db sample_deleted, as_db sample_challenged, as_db sample_started, sample_db] sample_rotated"
proof -
  let ?run = "system_run sample_env sample_resources sample_names (sample_api_state sample_db)"
  let ?step = "system_step sample_env sample_resources sample_names"
  have "?step (sample_api_state sample_db) sample_started" unfolding sample_started_def by (rule restart)
  moreover have "?step sample_started sample_challenged"
    unfolding sample_challenged_def Let_def by (rule challenge [OF _ prod.collapse [symmetric]]) (simp add: sample_started_def)
  moreover have "?step sample_challenged sample_deleted"
    unfolding sample_deleted_def by (rule request [OF prod.collapse [symmetric]])
  moreover have "?step sample_deleted sample_rotated"
    by (cases "rotate_stored_secrets (ae_fernet sample_env) (ae_db sample_env) [9, 7] (as_db sample_deleted) (as_world sample_deleted)")
       (simp add: sample_rotated_def rotation)
  moreover have "?run [sample_db] (sample_api_state sample_db)"
    using start [of sample_env sample_resources sample_names "sample_api_state sample_db"] by (simp add: sample_api_state_def)
  ultimately show ?thesis by (blast intro: step)
qed

theorem system_invariant_witness:
  "schema_ok (as_db sample_rotated) \<and> events_kept (as_db sample_challenged) (as_db sample_rotated)
     \<and> serves_from sample_env {as_db sample_rotated, as_db sample_deleted, as_db sample_challenged, as_db sample_started, sample_db}
         sample_rotated"
proof -
  have e: "enforces_schema (ae_db sample_env)" using sample_db_env_schema by (simp add: sample_env_def)
  have s: "schema_ok (as_db (sample_api_state sample_db))"
    by (simp add: sample_api_state_def schema_ok_def sample_db_def)
  have c: "as_cache (sample_api_state sample_db) = Some cache_init" by (simp add: sample_api_state_def)
  from system_invariant [OF e s c sample_run] show ?thesis by simp
qed

end
