(* ===== verification/Accounting.thy ===== *)
theory Accounting
  imports RunningSystem Protocol
begin

text \<open>
  One process of the relay from its start: the metrics and the audit events that it leaves are the
  views of one abstract ledger, the list of the provider invocations that were answered. A step is a DNS
  message taken from wire to wire with the keyring and the routes of the current cache, a request to the
  management API, a rotation from outside, a supervisor's report, or a change of the world outside.

  The invocations are observed, not assumed: every \<^verbatim>\<open>present\<close> and \<^verbatim>\<open>cleanup\<close> of a
  provider appends its arguments and its outcome to a log, and nothing else can write to that log.
\<close>

section \<open>The log of provider invocations\<close>

record invocation =
  iv_provider :: string
  iv_action :: action
  iv_zone :: string
  iv_record :: string
  iv_values :: "string list"
  iv_outcome :: "unit res"

definition recording :: "('a \<Rightarrow> 'e) \<Rightarrow> ('w \<Rightarrow> 'a \<times> 'w) \<Rightarrow> 'w \<times> 'e list \<Rightarrow> 'a \<times> ('w \<times> 'e list)" where
  "recording observe f wl = (let (r, w) = f (fst wl) in (r, (w, snd wl @ [observe r])))"

definition recording_ops :: "(string, 'w) provider_ops \<Rightarrow> (string, 'w \<times> invocation list) provider_ops" where
  "recording_ops P =
     \<lparr>pv_type = pv_type P, pv_supports_multivalue = pv_supports_multivalue P,
      pv_supports_delete = pv_supports_delete P,
      pv_present = (\<lambda>p z r v. recording (invocation.make p PRESENT z r v) (pv_present P p z r v)),
      pv_cleanup = (\<lambda>p z r v. recording (invocation.make p CLEANUP z r v) (pv_cleanup P p z r v)),
      pv_validate = (\<lambda>p. with_log (pv_validate P p) [])\<rparr>"

text \<open>The other collaborators over the same world: they leave the log as it is.\<close>

definition quiet_dispatcher :: "('n, 'p, 'w) dispatcher \<Rightarrow> ('n, 'p, 'w \<times> 'e list) dispatcher" where
  "quiet_dispatcher D =
     \<lparr>d_routing = d_routing D, d_clock = with_log (d_clock D) [], d_perf_counter = with_log (d_perf_counter D) [],
      d_audit = map_option (\<lambda>sink rec. with_log (sink rec) []) (d_audit D), d_tsig_resolver = d_tsig_resolver D\<rparr>"

definition quiet_env :: "'w db_env \<Rightarrow> ('w \<times> 'e list) db_env" where
  "quiet_env E =
     \<lparr>de_commit = (\<lambda>old new. with_log (de_commit E old new) []), de_next_id = with_log (de_next_id E) [],
      de_now = with_log (de_now E) []\<rparr>"

definition quiet_lib :: "('n, 'k, 'm, 'r, 'w) dns_lib \<Rightarrow> ('n, 'k, 'm, 'r, 'w \<times> 'e list) dns_lib" where
  "quiet_lib L =
     \<lparr>dl_from_wire = (\<lambda>b k. with_log (dl_from_wire L b k) []), dl_had_tsig = dl_had_tsig L, dl_opcode = dl_opcode L,
      dl_update = dl_update L, dl_make_response = dl_make_response L, dl_query_message = dl_query_message L,
      dl_set_flags_qr = dl_set_flags_qr L, dl_set_opcode = dl_set_opcode L, dl_set_rcode = dl_set_rcode L,
      dl_use_tsig = dl_use_tsig L, dl_set_request_mac = dl_set_request_mac L,
      dl_to_wire = (\<lambda>r. with_log (dl_to_wire L r) [])\<rparr>"

section \<open>The process\<close>

text \<open>The DNS library beside the database: it cannot reach it.\<close>

definition beside_db_lib :: "('n, 'k, 'm, 'r, 'w) dns_lib \<Rightarrow> ('n, 'k, 'm, 'r, 'd \<times> 'w) dns_lib" where
  "beside_db_lib L =
     \<lparr>dl_from_wire = (\<lambda>b k. on_world (dl_from_wire L b k)), dl_had_tsig = dl_had_tsig L, dl_opcode = dl_opcode L,
      dl_update = dl_update L, dl_make_response = dl_make_response L, dl_query_message = dl_query_message L,
      dl_set_flags_qr = dl_set_flags_qr L, dl_set_opcode = dl_set_opcode L, dl_set_rcode = dl_set_rcode L,
      dl_use_tsig = dl_use_tsig L, dl_set_request_mac = dl_set_request_mac L,
      dl_to_wire = (\<lambda>r. on_world (dl_to_wire L r))\<rparr>"

record ('n, 'w) live =
  lv_api :: "('n, 'w) api_state"
  lv_metrics :: metrics
  lv_locks :: "string list"
  lv_log :: "invocation list"

text \<open>The part of the process that a query works on, and the process after it.\<close>

definition query_state :: "('n, 'w) live \<Rightarrow> (db \<times> 'w \<times> invocation list) dstate" where
  "query_state p =
     \<lparr>ds_metrics = lv_metrics p, ds_locks = lv_locks p,
      ds_world = (as_db (lv_api p), as_world (lv_api p), lv_log p)\<rparr>"

definition after_query :: "('n, 'w) live \<Rightarrow> (db \<times> 'w \<times> invocation list) dstate \<Rightarrow> ('n, 'w) live" where
  "after_query p s =
     \<lparr>lv_api = (lv_api p)\<lparr>as_db := fst (ds_world s), as_world := fst (snd (ds_world s))\<rparr>,
      lv_metrics = ds_metrics s, lv_locks = ds_locks s, lv_log = snd (snd (ds_world s))\<rparr>"

text \<open>
  The handler that \<^verbatim>\<open>main.serve\<close> gives to the DNS server: the keyring is read at each message.
\<close>

definition answer_query ::
  "('n, 'f, 'w) api_env \<Rightarrow> 'n name_ops \<Rightarrow> ('n, 'q) wire_parser \<Rightarrow> ('n, 'n tsig_key, 'm, 'r, 'w) dns_lib \<Rightarrow>
   (string, 'w) provider_ops \<Rightarrow> ('n, string, 'w) dispatcher \<Rightarrow> 'n routing_cache \<Rightarrow> string \<Rightarrow> bytes \<Rightarrow> string \<Rightarrow>
   correlation \<Rightarrow> ('n, 'w) live \<Rightarrow> bytes option res \<times> ('n, 'w) live" where
  "answer_query E N W L P D c token wire src ctx p =
     (let disp = dispatch N (beside_db (recording_ops P))
            (audited_dispatcher (db_audit_record (quiet_env (ae_db E))) (quiet_dispatcher (serving_dispatcher N c D)));
          (r, ctx', s) = handle_query N W (beside_db_lib (quiet_lib L)) disp token wire (cache_keyring c) src ctx
            (query_state p)
      in (r, after_query p s))"

inductive live_step ::
  "('n, 'f, 'w) api_env \<Rightarrow> 'f app_resources \<Rightarrow> 'n name_ops \<Rightarrow> ('n, 'q) wire_parser \<Rightarrow>
   ('n, 'n tsig_key, 'm, 'r, 'w) dns_lib \<Rightarrow> (string, 'w) provider_ops \<Rightarrow> ('n, string, 'w) dispatcher \<Rightarrow>
   ('n, 'w) live \<Rightarrow> ('n, 'w) live \<Rightarrow> bool"
  for E R N W L P D where
  query: "as_cache (lv_api p) = Some c \<Longrightarrow> answer_query E N W L P D c token wire src ctx p = (r, p') \<Longrightarrow>
    live_step E R N W L P D p p'"
| request: "app E R netloc_ok ep rq (lv_api p) = (r, st') \<Longrightarrow> live_step E R N W L P D p (p\<lparr>lv_api := st'\<rparr>)"
| rotation: "rotate_stored_secrets (ae_fernet E) (ae_db E) (f # fs) (as_db (lv_api p)) (as_world (lv_api p)) = (r, d, w) \<Longrightarrow>
    live_step E R N W L P D p (p\<lparr>lv_api := (lv_api p)\<lparr>as_db := d, as_world := w\<rparr>\<rparr>)"
| restarted: "live_step E R N W L P D p (p\<lparr>lv_metrics := record_plane_restart plane (lv_metrics p)\<rparr>)"
| unhealthy: "live_step E R N W L P D p (p\<lparr>lv_metrics := set_plane_unhealthy plane u (lv_metrics p)\<rparr>)"
| elapse: "live_step E R N W L P D p (p\<lparr>lv_api := (lv_api p)\<lparr>as_world := w\<rparr>\<rparr>)"

section \<open>The ledger\<close>

record call =
  cl_label :: "string \<times> string \<times> string"
  cl_zone :: string
  cl_record :: string
  cl_audited :: bool

text \<open>The labels under which the call of an event was counted: a failed cleanup is answered NOERROR.\<close>

definition event_label :: "challenge_event \<Rightarrow> string \<times> string \<times> string" where
  "event_label ce =
     (ce_provider ce,
      if ce_result ce = ''error'' \<and> ce_action ce = action_value CLEANUP then ''suppressed'' else ce_result ce,
      ce_action ce)"

text \<open>An invocation was answered if it returned or raised a ProviderError; any other exception propagates.\<close>

definition iv_answered :: "invocation \<Rightarrow> bool" where
  "iv_answered i \<longleftrightarrow> (case iv_outcome i of Inr _ \<Rightarrow> True | Inl (ProviderError _) \<Rightarrow> True | Inl _ \<Rightarrow> False)"

definition counted_as :: "action \<Rightarrow> unit res \<Rightarrow> string" where
  "counted_as a out = (case out of Inr _ \<Rightarrow> ''ok'' | Inl _ \<Rightarrow> if a = CLEANUP then ''suppressed'' else ''error'')"

definition call_of :: "(string, 'w) provider_ops \<Rightarrow> invocation \<Rightarrow> bool \<Rightarrow> call" where
  "call_of P i audited =
     \<lparr>cl_label = (pv_type P (iv_provider i), counted_as (iv_action i) (iv_outcome i), action_value (iv_action i)),
      cl_zone = iv_zone i, cl_record = iv_record i, cl_audited = audited\<rparr>"

text \<open>The ledger of a log, with the flag of each answered invocation that tells whether its row was written.\<close>

definition ledger :: "(string, 'w) provider_ops \<Rightarrow> invocation list \<Rightarrow> bool list \<Rightarrow> call list" where
  "ledger P ivs audited = map2 (call_of P) (filter iv_answered ivs) audited"

definition event_content :: "challenge_event \<Rightarrow> (string \<times> string \<times> string) \<times> string \<times> string" where
  "event_content ce = (event_label ce, ce_zone ce, ce_record_name ce)"

definition call_content :: "call \<Rightarrow> (string \<times> string \<times> string) \<times> string \<times> string" where
  "call_content c = (cl_label c, cl_zone c, cl_record c)"

definition metrics_view :: "call list \<Rightarrow> metrics \<Rightarrow> bool" where
  "metrics_view calls m \<longleftrightarrow>
     (\<forall>l. challenges m l = count_list (map cl_label calls) l)
     \<and> (\<forall>p. length (provider_call_duration m p) = length (filter (\<lambda>c. fst (cl_label c) = p) calls))
     \<and> (\<forall>z. zone_last_success m z \<noteq> None \<longleftrightarrow> (\<exists>c \<in> set calls. cl_zone c = z \<and> fst (snd (cl_label c)) = ''ok''))
     \<and> audit_failures m = length (filter (\<lambda>c. \<not> cl_audited c) calls)
     \<and> badtime_agrees m"

definition events_view :: "call list \<Rightarrow> db \<Rightarrow> db \<Rightarrow> bool" where
  "events_view calls d0 d \<longleftrightarrow>
     map event_content (db_events d) = map event_content (db_events d0) @ map call_content (filter cl_audited calls)"

definition accounts :: "call list \<Rightarrow> db \<Rightarrow> (db \<times> 'w) dstate \<Rightarrow> bool" where
  "accounts calls d0 s \<longleftrightarrow> metrics_view calls (ds_metrics s) \<and> events_view calls d0 (fst (ds_world s))"

abbreviation invocations :: "('d \<times> 'w \<times> 'e list) dstate \<Rightarrow> 'e list" where
  "invocations s \<equiv> snd (snd (ds_world s))"

text \<open>The invariant of the process: the ledger of the log accounts for the metrics and the events.\<close>

definition ledgered :: "(string, 'w) provider_ops \<Rightarrow> db \<Rightarrow> (db \<times> 'w \<times> invocation list) dstate \<Rightarrow> bool" where
  "ledgered P d0 s \<longleftrightarrow>
     (\<exists>audited. length audited = length (filter iv_answered (invocations s))
        \<and> accounts (ledger P (invocations s) audited) d0 s)"

lemma accounts_frame:
  "accounts calls d0 s \<Longrightarrow> ds_metrics s' = ds_metrics s \<Longrightarrow> fst (ds_world s') = fst (ds_world s) \<Longrightarrow> accounts calls d0 s'"
  by (simp add: accounts_def)

lemma ledgered_frame:
  "ledgered P d0 s \<Longrightarrow> ds_metrics s' = ds_metrics s \<Longrightarrow> fst (ds_world s') = fst (ds_world s) \<Longrightarrow>
   invocations s' = invocations s \<Longrightarrow> ledgered P d0 s'"
  by (simp add: ledgered_def accounts_def)

lemma ledger_answered:
  assumes "iv_answered i" and "length audited = length (filter iv_answered ivs)"
  shows "ledger P (ivs @ [i]) (audited @ [f]) = ledger P ivs audited @ [call_of P i f]"
  using assms by (simp add: ledger_def)

subsection \<open>What writes to the log\<close>

lemma recording_ops_fields [simp]:
  "pv_type (recording_ops P) = pv_type P"
  "pv_supports_multivalue (recording_ops P) = pv_supports_multivalue P"
  "pv_present (recording_ops P) p z r v = recording (invocation.make p PRESENT z r v) (pv_present P p z r v)"
  "pv_cleanup (recording_ops P) p z r v = recording (invocation.make p CLEANUP z r v) (pv_cleanup P p z r v)"
  by (simp_all add: recording_ops_def)

lemma quiet_dispatcher_fields [simp]:
  "d_routing (quiet_dispatcher D) = d_routing D"
  "d_clock (quiet_dispatcher D) = with_log (d_clock D) []"
  "d_perf_counter (quiet_dispatcher D) = with_log (d_perf_counter D) []"
  "d_tsig_resolver (quiet_dispatcher D) = d_tsig_resolver D"
  by (simp_all add: quiet_dispatcher_def)

lemma recording_parts [simp]:
  "fst (recording observe f wl) = fst (f (fst wl))"
  "fst (snd (recording observe f wl)) = snd (f (fst wl))"
  "snd (snd (recording observe f wl)) = snd wl @ [observe (fst (f (fst wl)))]"
  by (simp_all add: recording_def split_beta)

lemma admit_recording [simp]: "admit N (recording_ops P) (quiet_dispatcher D) msg = admit N P D msg"
  unfolding admit_def recording_ops_fields quiet_dispatcher_fields ..

lemma db_audit_record_quiet: "snd (snd (snd (db_audit_record (quiet_env E) rec (d, wl)))) = snd wl"
  by (simp add: db_audit_record_def transact_def quiet_env_def with_log_def split_beta split: sum.splits)

lemma write_audit_quiet:
  fixes s :: "(db \<times> 'w \<times> 'e list) dstate"
  shows "invocations (write_audit (audited_dispatcher (db_audit_record (quiet_env E)) D) rec s) = invocations s"
proof -
  obtain d wl where w: "ds_world s = (d, wl)" by (cases "ds_world s")
  have "snd (snd (snd (db_audit_record (quiet_env E) rec (ds_world s)))) = snd (snd (ds_world s))"
    using db_audit_record_quiet [of E rec d wl] by (simp add: w)
  then show ?thesis by (auto simp: write_audit_def split: prod.splits sum.splits)
qed

lemma on_world_quiet: "snd (snd (snd (on_world (with_log f []) dw))) = snd (snd dw)"
  by (cases dw) (simp add: with_log_def)

lemma finish_call_quiet:
  "invocations (snd (finish_call N P (audited_dispatcher (db_audit_record (quiet_env E)) (quiet_dispatcher D))
      route a rn src kid t0 ed s)) = invocations s"
  by (simp add: finish_call_def Let_def split_beta write_audit_quiet on_world_quiet)

text \<open>The invocation of an admitted message, with the outcome that its provider gave.\<close>

definition invocation_of ::
  "'n name_ops \<Rightarrow> (string, 'w) provider_ops \<Rightarrow> ('n, string, 'w) dispatcher \<Rightarrow> ('n, string) route \<Rightarrow> action \<Rightarrow>
   'n rrset \<Rightarrow> string list \<Rightarrow> 'w \<Rightarrow> invocation" where
  "invocation_of N P D route a rrset vs w =
     \<lparr>iv_provider = rt_provider route, iv_action = a, iv_zone = nm_to_text N (rt_zone route),
      iv_record = nm_to_text N (rr_name rrset), iv_values = vs, iv_outcome = provider_outcome N P D route a rrset vs w\<rparr>"

lemma called_state_recorded:
  fixes s :: "(db \<times> 'w \<times> invocation list) dstate"
  shows "invocations (called_state N (recording_ops P) (quiet_dispatcher D) route a rrset vs s)
     = invocations s @ [invocation_of N P D route a rrset vs (fst (snd (ds_world s)))]"
  by (cases a) (simp_all add: called_state_def invocation_of_def provider_outcome_def invocation.make_def)

lemma provider_outcome_recorded:
  "provider_outcome N (recording_ops P) (quiet_dispatcher D) route a rrset vs wl
   = provider_outcome N P D route a rrset vs (fst wl)"
  by (cases a) (simp_all add: provider_outcome_def)

subsection \<open>A dispatch adds the call of its invocation\<close>

definition entry :: "string \<Rightarrow> string \<Rightarrow> string \<Rightarrow> action \<Rightarrow> string option \<Rightarrow> bool \<Rightarrow> call" where
  "entry ptype zone rn a ed audited =
     \<lparr>cl_label = (ptype, if ed = None then ''ok'' else if a = CLEANUP then ''suppressed'' else ''error'', action_value a),
      cl_zone = zone, cl_record = rn, cl_audited = audited\<rparr>"

text \<open>The metrics of a call, before the audit row is written.\<close>

definition counted :: "string \<Rightarrow> string \<Rightarrow> action \<Rightarrow> string option \<Rightarrow> real \<Rightarrow> real \<Rightarrow> metrics \<Rightarrow> metrics" where
  "counted ptype zone a ed latency ts m =
     (let m1 = call_metrics ptype a (if ed = None then ''ok'' else ''error'') latency m
      in if ed = None then mark_zone_success zone ts m1 else m1)"

lemma metrics_view_counted:
  assumes "metrics_view calls m"
  shows "metrics_view (calls @ [entry ptype zone rn a ed True]) (counted ptype zone a ed latency ts m)"
    "metrics_view (calls @ [entry ptype zone rn a ed False]) (record_audit_failure (counted ptype zone a ed latency ts m))"
  using assms
  by (auto simp: metrics_view_def entry_def counted_def call_metrics_def metric_defs badtime_agrees_def Let_def)

lemma events_view_append:
  assumes "events_view calls d0 d" and "db_events d' = db_events d @ [x]" and "event_content x = call_content c" and "cl_audited c"
  shows "events_view (calls @ [c]) d0 d'"
  using assms by (simp add: events_view_def)

lemma events_view_missed: "events_view calls d0 d \<Longrightarrow> \<not> cl_audited c \<Longrightarrow> events_view (calls @ [c]) d0 d"
  by (simp add: events_view_def)

lemma event_content_row:
  assumes "record_of_event x = call_row N P route a rn src kid ed ms"
  shows "event_content x = call_content (entry (pv_type P (rt_provider route)) (nm_to_text N (rt_zone route)) rn a ed True)"
proof -
  have "ce_provider x = pv_type P (rt_provider route)" "ce_result x = (if ed = None then ''ok'' else ''error'')"
      "ce_action x = action_value a" "ce_zone x = nm_to_text N (rt_zone route)" "ce_record_name x = rn"
    using assms by (simp_all add: record_of_event_def call_row_def)
  then show ?thesis by (cases a) (auto simp: event_content_def call_content_def event_label_def entry_def action_value_def)
qed

text \<open>The state in which the row is written.\<close>

lemma finish_call_counted:
  fixes s :: "(db \<times> 'w) dstate"
  obtains ms ts latency s2 where "fst (ds_world s2) = fst (ds_world s)"
    "ds_metrics s2 = counted (pv_type P (rt_provider route)) (nm_to_text N (rt_zone route)) a ed latency ts (ds_metrics s)"
    "snd (finish_call N (beside_db P) (audited_dispatcher sink D) route a rn src kid t0 ed s)
       = write_audit (audited_dispatcher sink D) (call_row N P route a rn src kid ed ms) s2"
proof -
  let ?D = "audited_dispatcher sink D"
  let ?lat = "fst (d_perf_counter ?D (ds_world s)) - t0"
  let ?s1 = "s\<lparr>ds_world := snd (d_perf_counter ?D (ds_world s)),
      ds_metrics := call_metrics (pv_type P (rt_provider route)) a (if ed = None then ''ok'' else ''error'') ?lat (ds_metrics s)\<rparr>"
  let ?t = "d_clock ?D (ds_world ?s1)"
  let ?s2 = "if ed = None then ?s1\<lparr>ds_world := snd ?t,
      ds_metrics := mark_zone_success (nm_to_text N (rt_zone route)) (fst ?t) (ds_metrics ?s1)\<rparr> else ?s1"
  show ?thesis
  proof (rule that [of ?s2 ?lat "fst ?t" "py_int (?lat * 1000)"])
    show "fst (ds_world ?s2) = fst (ds_world s)" by (cases "ds_world s") simp
    show "ds_metrics ?s2 = counted (pv_type P (rt_provider route)) (nm_to_text N (rt_zone route)) a ed ?lat (fst ?t) (ds_metrics s)"
      by (simp add: counted_def Let_def)
    show "snd (finish_call N (beside_db P) ?D route a rn src kid t0 ed s)
       = write_audit ?D (call_row N P route a rn src kid ed (py_int (?lat * 1000))) ?s2"
      by (cases ed) (simp_all add: finish_call_def call_row_def call_result_def Let_def split_beta)
  qed
qed

lemma write_audit_accounts:
  assumes "metrics_view calls m" and "events_view calls d0 (fst (ds_world s2))"
    and "ds_metrics s2 = counted (pv_type P (rt_provider route)) (nm_to_text N (rt_zone route)) a ed latency ts m"
  shows "\<exists>f. accounts (calls @ [entry (pv_type P (rt_provider route)) (nm_to_text N (rt_zone route)) rn a ed f]) d0
    (write_audit (audited_dispatcher (db_audit_record E) D) (call_row N P route a rn src kid ed ms) s2)"
proof -
  let ?c = "entry (pv_type P (rt_provider route)) (nm_to_text N (rt_zone route)) rn a ed"
  let ?rec = "call_row N P route a rn src kid ed ms"
  obtain d w where w: "ds_world s2 = (d, w)" by fastforce
  obtain r d' w' where r: "db_audit_record E ?rec (d, w) = (r, d', w')" by (cases "db_audit_record E ?rec (d, w)") auto
  show ?thesis
  proof (cases r)
    case (Inl e)
    with r have "d' = d" using da.write_error [of E ?rec d w e d' w'] by simp
    then have "accounts (calls @ [?c False]) d0 (write_audit (audited_dispatcher (db_audit_record E) D) ?rec s2)"
      using assms Inl r w metrics_view_counted(2) [OF assms(1)]
      by (simp add: accounts_def write_audit_def events_view_missed entry_def)
    then show ?thesis by blast
  next
    case (Inr u)
    then obtain x where x: "db_events d' = db_events d @ [x]" "record_of_event x = ?rec"
      using da.write_ok [of E ?rec d w u d' w'] r by blast
    have "events_view (calls @ [?c True]) d0 d'"
      by (rule events_view_append [OF _ x(1) event_content_row [OF x(2)]]) (use assms(2) w in \<open>simp_all add: entry_def\<close>)
    then have "accounts (calls @ [?c True]) d0 (write_audit (audited_dispatcher (db_audit_record E) D) ?rec s2)"
      using assms(3) Inr r w metrics_view_counted(1) [OF assms(1)] by (simp add: accounts_def write_audit_def)
    then show ?thesis by blast
  qed
qed

lemma finish_call_accounts:
  assumes "accounts calls d0 s"
  shows "\<exists>f. accounts (calls @ [entry (pv_type P (rt_provider route)) (nm_to_text N (rt_zone route)) rn a ed f]) d0
    (snd (finish_call N (beside_db P) (audited_dispatcher (db_audit_record E) D) route a rn src kid t0 ed s))"
proof -
  obtain ms ts latency s2 where "fst (ds_world s2) = fst (ds_world s)"
    and m: "ds_metrics s2 = counted (pv_type P (rt_provider route)) (nm_to_text N (rt_zone route)) a ed latency ts (ds_metrics s)"
    and f: "snd (finish_call N (beside_db P) (audited_dispatcher (db_audit_record E) D) route a rn src kid t0 ed s)
       = write_audit (audited_dispatcher (db_audit_record E) D) (call_row N P route a rn src kid ed ms) s2"
    by (rule finish_call_counted)
  with assms show ?thesis unfolding f by (intro write_audit_accounts [OF _ _ m]) (simp_all add: accounts_def)
qed

lemma entry_invocation:
  assumes "provider_outcome N P D route a rrset vs w = (case ed of None \<Rightarrow> Inr () | Some m \<Rightarrow> Inl (ProviderError m))"
  shows "entry (pv_type P (rt_provider route)) (nm_to_text N (rt_zone route)) (nm_to_text N (rr_name rrset)) a ed f
       = call_of P (invocation_of N P D route a rrset vs w) f"
    and "iv_answered (invocation_of N P D route a rrset vs w)"
  using assms by (cases ed; simp add: entry_def call_of_def invocation_of_def counted_as_def iv_answered_def)+

text \<open>After an invocation that was answered, the row and the counters of its call are written, once.\<close>

lemma finish_call_ledgered:
  assumes "length audited = length (filter iv_answered ivs)" and "accounts (ledger P ivs audited) d0 s"
    and "invocations s = ivs @ [invocation_of N P D route a rrset vs w]"
    and "provider_outcome N P D route a rrset vs w = (case ed of None \<Rightarrow> Inr () | Some m \<Rightarrow> Inl (ProviderError m))"
  shows "ledgered P d0 (snd (finish_call N (beside_db (recording_ops P))
    (audited_dispatcher (db_audit_record (quiet_env E)) (quiet_dispatcher D)) route a (nm_to_text N (rr_name rrset)) src kid t0 ed s))"
proof -
  let ?s' = "snd (finish_call N (beside_db (recording_ops P))
    (audited_dispatcher (db_audit_record (quiet_env E)) (quiet_dispatcher D)) route a (nm_to_text N (rr_name rrset)) src kid t0 ed s)"
  let ?i = "invocation_of N P D route a rrset vs w"
  obtain f where "accounts (ledger P ivs audited @ [call_of P ?i f]) d0 ?s'"
    using finish_call_accounts [OF assms(2), of "recording_ops P" route N "nm_to_text N (rr_name rrset)" a ed]
      entry_invocation(1) [OF assms(4)] by fastforce
  moreover have "invocations ?s' = ivs @ [?i]" using assms(3) by (simp add: finish_call_quiet)
  moreover note ledger_answered [OF entry_invocation(2) [OF assms(4)] assms(1), of P f] entry_invocation(2) [OF assms(4)]
  ultimately show ?thesis
    unfolding ledgered_def using assms(1) by (intro exI [of _ "audited @ [f]"]) simp
qed

lemma dispatch_ledgered:
  assumes "ledgered P d0 s"
  shows "ledgered P d0 (snd (dispatch N (beside_db (recording_ops P))
    (audited_dispatcher (db_audit_record (quiet_env E)) (quiet_dispatcher D)) msg src s))"
proof (cases "admit N P D msg")
  case None
  then show ?thesis using assms by (simp add: dispatch_def)
next
  case (Some x)
  obtain route a rrset vs where x: "x = (route, a, rrset, vs)" by (cases x)
  have adm: "admit N (recording_ops P) (quiet_dispatcher D) msg = Some (route, a, rrset, vs)" using Some x by simp
  obtain d w ivs where w: "ds_world s = (d, w, ivs)" by (metis prod.exhaust)
  let ?s1 = "called_state N (recording_ops P) (quiet_dispatcher D) route a rrset vs s"
  let ?out = "provider_outcome N P D route a rrset vs w"
  from assms obtain audited where n: "length audited = length (filter iv_answered ivs)"
    and acc: "accounts (ledger P ivs audited) d0 s" by (auto simp: ledgered_def w)
  have s1: "accounts (ledger P ivs audited) d0 ?s1" by (rule accounts_frame [OF acc]) simp_all
  have i: "invocations ?s1 = ivs @ [invocation_of N P D route a rrset vs w]" by (simp add: called_state_recorded w)
  note fin = finish_call_ledgered [OF n s1 i, of _ E src]
  have escaped: "ledgered P d0 ?s1" if "\<And>u. ?out \<noteq> Inr u" "\<And>m. ?out \<noteq> Inl (ProviderError m)"
  proof -
    have "\<not> iv_answered (invocation_of N P D route a rrset vs w)"
      using that by (auto simp: iv_answered_def invocation_of_def split: sum.splits exn.splits)
    with n s1 i show ?thesis by (auto simp: ledgered_def ledger_def)
  qed
  show ?thesis
    unfolding audited_dispatch [OF adm w] Let_def provider_outcome_recorded fst_conv
    using fin [of None] fin [of "Some _"] escaped by (auto split: sum.splits exn.splits)
qed

lemma dispatch_invocations:
  "invocations (snd (dispatch N (beside_db (recording_ops P))
      (audited_dispatcher (db_audit_record (quiet_env E)) (quiet_dispatcher D)) msg src s))
   = invocations s @ (case admit N P D msg of
       None \<Rightarrow> []
     | Some (route, a, rrset, vs) \<Rightarrow> [invocation_of N P D route a rrset vs (fst (snd (ds_world s)))])"
proof (cases "admit N P D msg")
  case None
  then show ?thesis by (simp add: dispatch_def)
next
  case (Some x)
  obtain route a rrset vs where x: "x = (route, a, rrset, vs)" by (cases x)
  have adm: "admit N (recording_ops P) (quiet_dispatcher D) msg = Some (route, a, rrset, vs)" using Some x by simp
  obtain d wl where w: "ds_world s = (d, wl)" by (cases "ds_world s")
  show ?thesis
    unfolding audited_dispatch [OF adm w] Let_def
    using Some x by (auto simp: finish_call_quiet called_state_recorded split: sum.splits exn.splits)
qed

subsection \<open>From wire to wire\<close>

lemma beside_db_lib_fields [simp]:
  "dl_from_wire (beside_db_lib L) b k = on_world (dl_from_wire L b k)"
  "dl_to_wire (beside_db_lib L) r = on_world (dl_to_wire L r)"
  "dl_had_tsig (beside_db_lib L) = dl_had_tsig L" "dl_opcode (beside_db_lib L) = dl_opcode L"
  "dl_update (beside_db_lib L) = dl_update L"
  by (simp_all add: beside_db_lib_def)

lemma quiet_lib_fields [simp]:
  "dl_from_wire (quiet_lib L) b k = with_log (dl_from_wire L b k) []"
  "dl_to_wire (quiet_lib L) r = with_log (dl_to_wire L r) []"
  "dl_had_tsig (quiet_lib L) = dl_had_tsig L" "dl_opcode (quiet_lib L) = dl_opcode L" "dl_update (quiet_lib L) = dl_update L"
  by (simp_all add: quiet_lib_def)

text \<open>What a reply leaves of the database and of the log.\<close>

definition kept :: "('d \<times> 'w \<times> 'e list) dstate \<Rightarrow> 'd \<times> 'e list" where
  "kept s = (fst (ds_world s), invocations s)"

lemma send_wire_kept [simp]:
  fixes s :: "('d \<times> 'w \<times> 'e list) dstate"
  shows "kept (snd (send_wire (beside_db_lib (quiet_lib L)) r s)) = kept s"
  by (cases "ds_world s") (auto simp: kept_def send_wire_def with_log_def split: prod.splits sum.splits)

lemma replies_kept [simp]:
  fixes s :: "('d \<times> 'w \<times> 'e list) dstate"
  shows "kept (snd (reply (beside_db_lib (quiet_lib L)) m rc s)) = kept s"
    "kept (snd (plain_error_reply W (beside_db_lib (quiet_lib L)) wire rc s)) = kept s"
    "kept (snd (signed_error_reply N W (beside_db_lib (quiet_lib L)) wire kr rc err s)) = kept s"
  by (auto simp: reply_def plain_error_reply_def signed_error_reply_def split: sum.splits option.splits)

text \<open>What the dispatcher and the TSIG counters preserve, a query preserves.\<close>

lemma process_query_preserves:
  assumes frame: "\<And>s s'. Q s \<Longrightarrow> ds_metrics s' = ds_metrics s \<Longrightarrow> kept s' = kept s \<Longrightarrow> Q s'"
    and tsig: "\<And>s r. Q s \<Longrightarrow> Q (count_tsig r s)" and disp: "\<And>um s. Q s \<Longrightarrow> Q (snd (disp um src s))" and "Q s0"
  shows "Q (snd (process_query N W (beside_db_lib (quiet_lib L)) disp wire kr src s0))"
proof -
  obtain d w ivs where w: "ds_world s0 = (d, w, ivs)" by (metis prod.exhaust)
  obtain parsed w' where f: "dl_from_wire L wire kr w = (parsed, w')" by fastforce
  define s where "s = s0\<lparr>ds_world := (d, w', ivs)\<rparr>"
  have s: "Q s" by (rule frame [OF \<open>Q s0\<close>]) (simp_all add: s_def w kept_def)
  have answered: "Q (snd m)" if "Q t" "ds_metrics (snd m) = ds_metrics t" "kept (snd m) = kept t" for m :: "_ \<times> _" and t
    using frame that by blast
  show ?thesis
  proof (cases parsed)
    case (Inl x)
    then show ?thesis
      using s by (cases x) (auto simp: process_query_def w f with_log_def s_def [symmetric] Let_def intro: answered [OF tsig [OF s]])
  next
    case (Inr msg)
    obtain um where um: "dl_update L msg = None \<or> dl_update L msg = Some um" by (cases "dl_update L msg") auto
    obtain r s' where d': "disp um src s = (r, s')" by fastforce
    with disp [OF s, of um] have "Q s'" by simp
    then show ?thesis
      using Inr um s d'
      by (auto simp: process_query_def w f with_log_def s_def [symmetric] Let_def split: sum.splits
          intro: answered [OF s] answered [OF tsig [OF s]] answered [of s'])
  qed
qed

lemma ledgered_count_tsig: "ledgered P d0 s \<Longrightarrow> ledgered P d0 (count_tsig r s)"
  by (auto simp: ledgered_def accounts_def metrics_view_def count_tsig_def record_tsig_failure_def badtime_agrees_def Let_def)

lemma query_ledgered:
  assumes "ledgered P d0 (query_state p)" and "answer_query E N W L P D c token wire src ctx p = (r, p')"
  shows "ledgered P d0 (query_state p')"
proof -
  let ?disp = "dispatch N (beside_db (recording_ops P))
    (audited_dispatcher (db_audit_record (quiet_env (ae_db E))) (quiet_dispatcher (serving_dispatcher N c D)))"
  let ?s = "snd (process_query N W (beside_db_lib (quiet_lib L)) ?disp wire (cache_keyring c) src (query_state p))"
  have "ledgered P d0 ?s"
  proof (rule process_query_preserves [where Q = "ledgered P d0"])
    show "ledgered P d0 s'" if "ledgered P d0 s" "ds_metrics s' = ds_metrics s" "kept s' = kept s" for s s'
      using ledgered_frame that by (fastforce simp: kept_def)
  qed (use assms(1) ledgered_count_tsig dispatch_ledgered in blast)+
  moreover have "query_state p' = ?s"
    using assms(2) by (auto simp: answer_query_def handle_query_eq query_state_def after_query_def Let_def)
  ultimately show ?thesis by simp
qed

section \<open>The refinement\<close>

lemma event_kept_content: "list_all2 event_kept es es' \<Longrightarrow> map event_content es' = map event_content es"
  by (induction rule: list_all2_induct) (auto simp: event_kept_def event_content_def event_label_def)

lemma ledgered_unless_db:
  assumes "ledgered P d0 (query_state p)" and "lv_metrics p' = lv_metrics p" and "lv_log p' = lv_log p"
    and "map event_content (db_events (as_db (lv_api p'))) = map event_content (db_events (as_db (lv_api p)))"
  shows "ledgered P d0 (query_state p')"
  using assms by (simp add: ledgered_def accounts_def query_state_def events_view_def)

lemma rotation_events:
  assumes "rotate_stored_secrets F E kek d w = (r, d', w')"
  shows "db_events d' = db_events d"
proof (cases r)
  case (Inl e)
  then show ?thesis using rotate_stored_secrets_Inl [of F E kek d w e d' w'] assms by simp
next
  case (Inr counts)
  then show ?thesis
    using assms by (auto simp: rotate_stored_secrets_def transact_def split_beta Let_def split: sum.splits prod.splits)
qed

lemma live_step_ledgered:
  assumes "live_step E R N W L P D p p'" and "ledgered P d0 (query_state p)"
  shows "ledgered P d0 (query_state p')"
  using assms(1)
proof (cases rule: live_step.cases)
  case (query c token wire src ctx r)
  then show ?thesis using query_ledgered [OF assms(2)] by blast
next
  case (request netloc_ok ep rq r st')
  then have "list_all2 event_kept (db_events (as_db (lv_api p))) (db_events (as_db st'))"
    using db_steps_events [OF app_db_steps, of "lv_api p" E R netloc_ok ep rq] by simp
  then show ?thesis using request ledgered_unless_db [OF assms(2), of p'] event_kept_content by auto
next
  case (rotation f fs r d w)
  then show ?thesis using ledgered_unless_db [OF assms(2), of p'] rotation_events [OF rotation(2)] by auto
next
  case (restarted plane)
  then show ?thesis
    using assms(2) by (auto simp: ledgered_def accounts_def query_state_def metrics_view_def metric_defs badtime_agrees_def)
next
  case (unhealthy plane u)
  then show ?thesis
    using assms(2) by (auto simp: ledgered_def accounts_def query_state_def metrics_view_def metric_defs badtime_agrees_def)
next
  case (elapse w)
  then show ?thesis using ledgered_unless_db [OF assms(2), of p'] by auto
qed

lemma ledgered_start:
  assumes "lv_metrics p = init_metrics" and "lv_log p = []"
  shows "ledgered P (as_db (lv_api p)) (query_state p)"
  using assms
  by (simp add: ledgered_def ledger_def accounts_def query_state_def metrics_view_def events_view_def init_metrics_def
      badtime_agrees_def)

lemma reachable_ledgered:
  assumes "(live_step E R N W L P D)\<^sup>*\<^sup>* p0 p" and "lv_metrics p0 = init_metrics" and "lv_log p0 = []"
  shows "ledgered P (as_db (lv_api p0)) (query_state p)"
  using assms(1)
proof (induction rule: rtranclp_induct)
  case base
  show ?case using ledgered_start [OF assms(2,3)] .
next
  case (step p p')
  then show ?case using live_step_ledgered by blast
qed

lemma ledger_balance:
  assumes "metrics_view calls m" and "events_view calls d0 d"
  shows "length (db_events d) + audit_failures m = length (db_events d0) + length calls"
proof -
  have "length (db_events d) = length (db_events d0) + length (filter cl_audited calls)"
    using assms(2) unfolding events_view_def by (metis length_append length_map)
  then show ?thesis using assms(1) sum_length_filter_compl [of cl_audited calls] by (simp add: metrics_view_def)
qed

text \<open>
  C6: the metrics and the audit log account for the provider invocations, one by one. The log holds
  every \<^verbatim>\<open>present\<close> and \<^verbatim>\<open>cleanup\<close> that the process invoked on a provider, with its arguments
  and its outcome. Whatever messages, requests, rotations and restarts of planes the process sees, there is a
  flag for each answered invocation of the log (one that returned or raised a ProviderError) such that the
  ledger of these invocations is what the metrics and the database show: each challenge counter is the
  number of invocations with its labels, each latency histogram has one observation per invocation of
  its provider, a zone has a time of last success exactly if an invocation for it succeeded, the BADTIME
  counter agrees with its label, the events added to the database are the flagged invocations in their order,
  with their provider, result, action, zone and record, and the audit failures are the others. Hence new events
  and audit failures add up to the answered invocations: none is dropped and none is counted twice.
\<close>

theorem ledger_refinement:
  assumes "(live_step E R N W L P D)\<^sup>*\<^sup>* p0 p" and "lv_metrics p0 = init_metrics" and "lv_log p0 = []"
  shows "(\<exists>audited. length audited = length (filter iv_answered (lv_log p))
       \<and> metrics_view (ledger P (lv_log p) audited) (lv_metrics p)
       \<and> events_view (ledger P (lv_log p) audited) (as_db (lv_api p0)) (as_db (lv_api p)))
     \<and> length (db_events (as_db (lv_api p))) + audit_failures (lv_metrics p)
       = length (db_events (as_db (lv_api p0))) + length (filter iv_answered (lv_log p))"
proof -
  obtain audited where n: "length audited = length (filter iv_answered (lv_log p))"
    and v: "metrics_view (ledger P (lv_log p) audited) (lv_metrics p)"
    and e: "events_view (ledger P (lv_log p) audited) (as_db (lv_api p0)) (as_db (lv_api p))"
    using reachable_ledgered [OF assms] by (auto simp: ledgered_def accounts_def query_state_def)
  with ledger_balance [OF v e] show ?thesis by (auto simp: ledger_def)
qed

text \<open>A process that answers one signed message for a zone of the cache.\<close>

definition sample_live_lib :: "(string list, string list tsig_key, unit, nat, int) dns_lib" where
  "sample_live_lib =
     \<lparr>dl_from_wire = (\<lambda>b k w. (Inr (), w)), dl_had_tsig = (\<lambda>_. True), dl_opcode = (\<lambda>_. 5),
      dl_update = (\<lambda>_. Some (sample_update sample_owner None)), dl_make_response = (\<lambda>_. 0),
      dl_query_message = (\<lambda>i. i), dl_set_flags_qr = (\<lambda>r. r), dl_set_opcode = (\<lambda>_ r. r), dl_set_rcode = (\<lambda>_ r. r),
      dl_use_tsig = (\<lambda>_ _ _ _ r. r), dl_set_request_mac = (\<lambda>_ r. r), dl_to_wire = (\<lambda>r w. (Inr [word_of_nat r], w))\<rparr>"

definition sample_live :: "(string list, int) live" where
  "sample_live =
     \<lparr>lv_api = (sample_api_state empty_db)\<lparr>as_cache := Some sample_cache\<rparr>, lv_metrics = init_metrics, lv_locks = [], lv_log = []\<rparr>"

definition sample_answered :: "(string list, int) live" where
  "sample_answered =
     snd (answer_query sample_env sample_names sample_parser sample_live_lib sample_string_ops sample_idle_dispatcher
       sample_cache ''00'' sample_wire ''ip'' None sample_live)"

lemma sample_admit:
  "\<exists>route rrset vs. admit sample_names sample_string_ops (serving_dispatcher sample_names sample_cache sample_idle_dispatcher)
     (sample_update sample_owner None) = Some (route, PRESENT, rrset, vs) \<and> rt_provider route = ''he''"
proof -
  let ?a = "admit sample_names sample_string_ops (serving_dispatcher sample_names sample_cache sample_idle_dispatcher)
     (sample_update sample_owner None)"
  have "map_option (\<lambda>(route, a, _, _). (rt_provider route, a)) ?a = Some (''he'', PRESENT)" by code_simp
  then show ?thesis by (auto simp: map_option_eq_Some)
qed

lemma sample_answered_log:
  "\<exists>i. lv_log sample_answered = [i] \<and> iv_answered i \<and> call_of sample_string_ops i f
     = \<lparr>cl_label = (''he'', ''ok'', ''present''), cl_zone = iv_zone i, cl_record = iv_record i, cl_audited = f\<rparr>"
proof -
  let ?D = "serving_dispatcher sample_names sample_cache sample_idle_dispatcher"
  let ?s = "query_state sample_live"
  have "lv_log sample_answered = invocations (snd (dispatch sample_names (beside_db (recording_ops sample_string_ops))
      (audited_dispatcher (db_audit_record (quiet_env (ae_db sample_env))) (quiet_dispatcher ?D))
      (sample_update sample_owner None) ''ip'' ?s))"
    by (simp add: sample_answered_def answer_query_def handle_query_eq process_query_def sample_live_lib_def quiet_lib_def
        beside_db_lib_def after_query_def reply_def send_wire_def with_log_def Let_def split_beta on_world_def query_state_def split: sum.splits prod.splits)
  moreover obtain route rrset vs where "admit sample_names sample_string_ops ?D (sample_update sample_owner None)
      = Some (route, PRESENT, rrset, vs)" "rt_provider route = ''he''"
    using sample_admit by blast
  moreover have "pv_type sample_string_ops p = p" "pv_present sample_string_ops p z r v w = (Inr (), w)" for p z r v w
    by (simp_all add: sample_string_ops_def)
  ultimately show ?thesis
    unfolding dispatch_invocations
    by (simp add: query_state_def sample_live_def invocation_of_def provider_outcome_def iv_answered_def call_of_def
        counted_as_def action_value_def)
qed

theorem ledger_refinement_witness:
  "length (filter iv_answered (lv_log sample_answered)) = 1
   \<and> challenges (lv_metrics sample_answered) (''he'', ''ok'', ''present'') = 1
   \<and> length (db_events (as_db (lv_api sample_answered))) + audit_failures (lv_metrics sample_answered) = 1"
proof -
  let ?step = "live_step sample_env sample_resources sample_names sample_parser sample_live_lib sample_string_ops
    sample_idle_dispatcher"
  have "?step sample_live sample_answered"
    unfolding sample_answered_def by (rule query [OF _ prod.collapse [symmetric]]) (simp add: sample_live_def)
  then have r: "?step\<^sup>*\<^sup>* sample_live sample_answered" by blast
  have m: "lv_metrics sample_live = init_metrics" "lv_log sample_live = []" and d: "as_db (lv_api sample_live) = empty_db"
    by (simp_all add: sample_live_def sample_api_state_def)
  note ledger = ledger_refinement [OF r m]
  from ledger obtain audited where n: "length audited = length (filter iv_answered (lv_log sample_answered))"
    and v: "metrics_view (ledger sample_string_ops (lv_log sample_answered) audited) (lv_metrics sample_answered)"
    by blast
  obtain i where i: "lv_log sample_answered = [i]" "iv_answered i" "call_of sample_string_ops i (hd audited)
      = \<lparr>cl_label = (''he'', ''ok'', ''present''), cl_zone = iv_zone i, cl_record = iv_record i, cl_audited = hd audited\<rparr>"
    using sample_answered_log by blast
  with n obtain f where "audited = [f]" by (cases audited) auto
  with v i have "challenges (lv_metrics sample_answered) (''he'', ''ok'', ''present'') = 1"
    by (simp add: metrics_view_def ledger_def)
  with ledger i show ?thesis by (simp add: d empty_db_def)
qed

end
