(* ===== verification/ApiRoutes.thy ===== *)
theory ApiRoutes
  imports ApiApp
begin

text \<open>
  The route table that \<^verbatim>\<open>create_app\<close> builds (\<^verbatim>\<open>api/app.py\<close> and the decorators of the
  \<^verbatim>\<open>routes_*\<close> modules), in the order of registration, with the mount of the assets and the
  catch-all of the single-page application. The router and its path templates are Starlette's, hence
  parameters with laws: a request goes to the first route that matches its method and path.
\<close>

section \<open>The routes\<close>

text \<open>A route with its method (any for a mount), its path template and the name of its function.\<close>

record http_route =
  hr_method :: "string option"
  hr_path :: string
  hr_name :: string

definition route_at :: "string \<Rightarrow> string \<Rightarrow> string \<Rightarrow> string \<Rightarrow> http_route" where
  "route_at base m path name = \<lparr>hr_method = Some m, hr_path = base @ path, hr_name = name\<rparr>"

definition meta_router :: "http_route list" where
  "meta_router = [route_at API_V1_PREFIX ''GET'' ''/health'' ''api_health'']"

definition auth_router :: "http_route list" where
  "auth_router =
     (let route = route_at ''/api/v1/auth''
      in [route ''GET'' ''/session'' ''session_status'', route ''POST'' ''/login'' ''login'',
          route ''POST'' ''/logout'' ''logout'', route ''POST'' ''/password'' ''change_password''])"

definition backends_router :: "http_route list" where
  "backends_router =
     (let route = route_at ''/api/v1/backends''
      in [route ''POST'' [] ''create_backend'', route ''GET'' [] ''list_backends'',
          route ''GET'' ''/providers'' ''list_providers'', route ''GET'' ''/{backend_id}'' ''get_backend'',
          route ''PATCH'' ''/{backend_id}'' ''update_backend'', route ''DELETE'' ''/{backend_id}'' ''delete_backend''])"

definition domains_router :: "http_route list" where
  "domains_router =
     (let route = route_at ''/api/v1/domains''
      in [route ''POST'' [] ''create_domain'', route ''GET'' [] ''list_domains'',
          route ''DELETE'' ''/{domain_id}'' ''delete_domain''])"

definition tsig_router :: "http_route list" where
  "tsig_router =
     (let route = route_at ''/api/v1/tsig-keys''
      in [route ''POST'' [] ''create_tsig_key'', route ''GET'' [] ''list_tsig_keys'',
          route ''DELETE'' ''/{tsig_key_id}'' ''revoke_tsig_key''])"

definition tokens_router :: "http_route list" where
  "tokens_router =
     (let route = route_at ''/api/v1/tokens''
      in [route ''POST'' [] ''create_api_token'', route ''GET'' [] ''list_api_tokens'',
          route ''DELETE'' ''/{token_id}'' ''revoke_api_token''])"

definition events_router :: "http_route list" where
  "events_router = [route_at ''/api/v1/events'' ''GET'' [] ''list_events'']"

definition OPENAPI_URL :: string where "OPENAPI_URL = ''/openapi.json''"

definition ops_routes :: "http_route list" where
  "ops_routes =
     [route_at [] ''GET'' OPENAPI_URL ''openapi_schema'', route_at [] ''GET'' ''/docs'' ''swagger_ui'',
      route_at [] ''GET'' ''/redoc'' ''redoc_ui'', route_at [] ''GET'' ''/metrics'' ''metrics'',
      route_at [] ''GET'' ''/healthz'' ''healthz'', route_at [] ''GET'' ''/readyz'' ''readyz'']"

definition api_routes :: "http_route list" where
  "api_routes =
     meta_router @ auth_router @ backends_router @ domains_router @ tsig_router @ tokens_router @ events_router
     @ ops_routes"

subsection \<open>The single-page application\<close>

text \<open>A directory to serve, whether it has an index and whether it has assets.\<close>

record web_files =
  wf_is_file :: "string list \<Rightarrow> bool"
  wf_is_dir :: "string list \<Rightarrow> bool"

definition register_spa :: "web_files \<Rightarrow> string list \<Rightarrow> http_route list" where
  "register_spa F web_root =
     (if wf_is_dir F (web_root @ [''assets''])
      then [\<lparr>hr_method = None, hr_path = ''/assets/{path:path}'', hr_name = ''assets''\<rparr>] else [])
     @ [\<lparr>hr_method = Some ''GET'', hr_path = ''/{full_path:path}'', hr_name = ''spa''\<rparr>]"

definition configure_spa ::
  "web_files \<Rightarrow> (string \<Rightarrow> string list) \<Rightarrow> string option \<Rightarrow> string option \<Rightarrow> http_route list" where
  "configure_spa F path static_dir spa_dir =
     (case (case static_dir of Some d \<Rightarrow> Some d | None \<Rightarrow> spa_dir) of
        None \<Rightarrow> []
      | Some src \<Rightarrow>
          (let web_root = path src
           in if \<not> wf_is_file F (web_root @ [''index.html'']) then [] else register_spa F web_root))"

definition app_routes :: "web_files \<Rightarrow> (string \<Rightarrow> string list) \<Rightarrow> string option \<Rightarrow> string option \<Rightarrow> http_route list" where
  "app_routes F path static_dir spa_dir = api_routes @ configure_spa F path static_dir spa_dir"

section \<open>The router\<close>

datatype resolution = Found http_route "string list" | NotFound | MethodNotAllowed | Redirected string

text \<open>The first route that matches, with the values of the parameters in its template.\<close>

fun first_full ::
  "(string \<Rightarrow> string \<Rightarrow> string list option) \<Rightarrow> http_route list \<Rightarrow> string \<Rightarrow> string \<Rightarrow> (http_route \<times> string list) option" where
  "first_full match [] m p = None"
| "first_full match (r # rs) m p =
     (if hr_method r = None \<or> hr_method r = Some m
      then (case match (hr_path r) p of Some vs \<Rightarrow> Some (r, vs) | None \<Rightarrow> first_full match rs m p)
      else first_full match rs m p)"

fun rest_after :: "string \<Rightarrow> string \<Rightarrow> string option" where
  "rest_after [] p = Some p"
| "rest_after (c # cs) [] = None"
| "rest_after (c # cs) (d # p) = (if c = d then rest_after cs p else None)"

definition segment_after :: "string \<Rightarrow> string \<Rightarrow> string list option" where
  "segment_after pre p =
     (case rest_after pre p of Some v \<Rightarrow> if v \<noteq> [] \<and> CHR ''/'' \<notin> set v then Some [v] else None | None \<Rightarrow> None)"

text \<open>
  What Starlette documents of its templates, for paths without a line end: a template without
  parameters matches itself, a parameter matches a non-empty segment, a path parameter the rest.
\<close>

definition template_laws :: "(string \<Rightarrow> string \<Rightarrow> string list option) \<Rightarrow> bool" where
  "template_laws match \<longleftrightarrow>
     (\<forall>t p. CHR 0x0A \<notin> set p \<longrightarrow> CHR ''{'' \<notin> set t \<longrightarrow> match t p = (if p = t then Some [] else None))
   \<and> (\<forall>pre x p. CHR 0x0A \<notin> set p \<longrightarrow> CHR ''{'' \<notin> set pre \<longrightarrow> list_all (\<lambda>c. c \<notin> {CHR ''{'', CHR ''}'', CHR '':''}) x \<longrightarrow>
        match (pre @ ''{'' @ x @ ''}'') p =
          segment_after pre p)
   \<and> (\<forall>pre x p. CHR 0x0A \<notin> set p \<longrightarrow> CHR ''{'' \<notin> set pre \<longrightarrow> list_all (\<lambda>c. c \<notin> {CHR ''{'', CHR ''}'', CHR '':''}) x \<longrightarrow>
        match (pre @ ''{'' @ x @ '':path}'') p =
          map_option (\<lambda>v. [v]) (rest_after pre p))"

definition router_laws ::
  "(string \<Rightarrow> string \<Rightarrow> string list option) \<Rightarrow> (http_route list \<Rightarrow> string \<Rightarrow> string \<Rightarrow> resolution) \<Rightarrow> bool" where
  "router_laws match resolve \<longleftrightarrow>
     template_laws match
   \<and> (\<forall>rs m p. case first_full match rs m p of
        Some (r, vs) \<Rightarrow> resolve rs m p = Found r vs
      | None \<Rightarrow> (\<forall>r vs. resolve rs m p \<noteq> Found r vs))"

section \<open>The route of an endpoint\<close>

definition endpoint_name :: "endpoint \<Rightarrow> string" where
  "endpoint_name ep =
     (case ep of
        ApiHealth \<Rightarrow> ''api_health'' | OpenapiSchema \<Rightarrow> ''openapi_schema'' | SwaggerUi \<Rightarrow> ''swagger_ui'' | RedocUi \<Rightarrow> ''redoc_ui''
      | SessionStatus \<Rightarrow> ''session_status'' | Login _ \<Rightarrow> ''login'' | Logout \<Rightarrow> ''logout''
      | ChangePassword _ _ \<Rightarrow> ''change_password'' | CreateBackend _ \<Rightarrow> ''create_backend''
      | ListBackends \<Rightarrow> ''list_backends'' | ListProviders \<Rightarrow> ''list_providers'' | GetBackend _ \<Rightarrow> ''get_backend''
      | UpdateBackend _ _ \<Rightarrow> ''update_backend'' | DeleteBackend _ \<Rightarrow> ''delete_backend''
      | CreateDomain _ \<Rightarrow> ''create_domain'' | ListDomains \<Rightarrow> ''list_domains'' | DeleteDomain _ \<Rightarrow> ''delete_domain''
      | CreateTsigKey _ \<Rightarrow> ''create_tsig_key'' | ListTsigKeys \<Rightarrow> ''list_tsig_keys'' | RevokeTsigKey _ \<Rightarrow> ''revoke_tsig_key''
      | CreateApiToken _ \<Rightarrow> ''create_api_token'' | ListApiTokens \<Rightarrow> ''list_api_tokens''
      | RevokeApiToken _ \<Rightarrow> ''revoke_api_token'' | ListEvents _ _ \<Rightarrow> ''list_events'')"

definition endpoint_params :: "endpoint \<Rightarrow> string list" where
  "endpoint_params ep =
     (case ep of
        GetBackend i \<Rightarrow> [int_str i] | UpdateBackend i _ \<Rightarrow> [int_str i] | DeleteBackend i \<Rightarrow> [int_str i]
      | DeleteDomain i \<Rightarrow> [int_str i] | RevokeTsigKey i \<Rightarrow> [int_str i] | RevokeApiToken i \<Rightarrow> [int_str i] | _ \<Rightarrow> [])"

lemma int_str_chars: "list_all (\<lambda>c. is_digit c \<or> c = CHR ''-'') (int_str i)"
proof -
  have "list_all (\<lambda>c. is_digit c \<or> c = CHR ''-'') (nat_digits n)" for n
    by (rule list.pred_mono_strong [OF nat_digits_all]) simp
  then show ?thesis by (simp add: int_str_def)
qed

lemma int_str_segment [simp]:
  "int_str i \<noteq> []" "CHR ''/'' \<notin> set (int_str i)" "CHR 0x0A \<notin> set (int_str i)" "int_str i \<noteq> ''providers''"
proof -
  have c: "is_digit c \<or> c = CHR ''-''" if "c \<in> set (int_str i)" for c using int_str_chars that by (auto simp: list_all_iff)
  show "int_str i \<noteq> []" using int_str_hd [of i] by auto
  show "CHR ''/'' \<notin> set (int_str i)" "CHR 0x0A \<notin> set (int_str i)" using c by (force simp: is_digit_def)+
  show "int_str i \<noteq> ''providers''" using c [of "CHR ''p''"] by (auto simp: is_digit_def)
qed

lemma first_full_append: "first_full f rs m p = Some x \<Longrightarrow> first_full f (rs @ qs) m p = Some x"
  by (induction rs) (auto split: if_splits option.splits)

lemma template_literal:
  "template_laws f \<Longrightarrow> CHR 0x0A \<notin> set p \<Longrightarrow> CHR ''{'' \<notin> set t \<Longrightarrow> f t p = (if p = t then Some [] else None)"
  by (simp add: template_laws_def)

lemma template_param:
  assumes "template_laws f" and "CHR 0x0A \<notin> set p"
  shows "f ''/api/v1/backends/{backend_id}'' p = segment_after ''/api/v1/backends/'' p"
    "f ''/api/v1/domains/{domain_id}'' p = segment_after ''/api/v1/domains/'' p"
    "f ''/api/v1/tsig-keys/{tsig_key_id}'' p = segment_after ''/api/v1/tsig-keys/'' p"
    "f ''/api/v1/tokens/{token_id}'' p = segment_after ''/api/v1/tokens/'' p"
proof -
  have l: "f (pre @ ''{'' @ x @ ''}'') p = segment_after pre p"
    if "CHR ''{'' \<notin> set pre" "list_all (\<lambda>c. c \<notin> {CHR ''{'', CHR ''}'', CHR '':''}) x" for pre x
    using assms that by (simp add: template_laws_def)
  show "f ''/api/v1/backends/{backend_id}'' p = segment_after ''/api/v1/backends/'' p"
    using l [of "''/api/v1/backends/''" "''backend_id''"] by simp
  show "f ''/api/v1/domains/{domain_id}'' p = segment_after ''/api/v1/domains/'' p"
    using l [of "''/api/v1/domains/''" "''domain_id''"] by simp
  show "f ''/api/v1/tsig-keys/{tsig_key_id}'' p = segment_after ''/api/v1/tsig-keys/'' p"
    using l [of "''/api/v1/tsig-keys/''" "''tsig_key_id''"] by simp
  show "f ''/api/v1/tokens/{token_id}'' p = segment_after ''/api/v1/tokens/'' p"
    using l [of "''/api/v1/tokens/''" "''token_id''"] by simp
qed

lemmas router_defs =
  meta_router_def auth_router_def backends_router_def domains_router_def tsig_router_def tokens_router_def
  events_router_def ops_routes_def OPENAPI_URL_def API_V1_PREFIX_def route_at_def Let_def

lemma endpoint_path_line: "CHR 0x0A \<notin> set (endpoint_path ep)"
  by (cases ep) (simp_all add: endpoint_path_def API_V1_PREFIX_def)

lemma endpoint_first:
  assumes "template_laws f"
  shows "\<exists>r. first_full f api_routes (endpoint_method ep) (endpoint_path ep) = Some (r, endpoint_params ep)
    \<and> hr_name r = endpoint_name ep"
  using template_literal [OF assms endpoint_path_line [of ep]] template_param [OF assms endpoint_path_line [of ep]]
  by (cases ep) (simp_all add: api_routes_def router_defs endpoint_path_def endpoint_method_def endpoint_params_def
      endpoint_name_def segment_after_def)

lemma resolve_first:
  "router_laws f resolve \<Longrightarrow> first_full f rs m p = Some (r, vs) \<Longrightarrow> resolve rs m p = Found r vs"
  by (fastforce simp: router_laws_def split: option.splits)

lemma resolve_Found:
  "router_laws f resolve \<Longrightarrow> resolve rs m p = Found r vs \<Longrightarrow> first_full f rs m p = Some (r, vs)"
  unfolding router_laws_def by (cases "first_full f rs m p") (force split: option.splits)+

lemma router_templates: "router_laws f resolve \<Longrightarrow> template_laws f"
  by (simp add: router_laws_def)

text \<open>
  C12: every operation of the management API is reachable at its URL, and only there: a request
  with the method and the path of an endpoint goes to the function of that endpoint with its
  parameters, whether or not the web interface is served and whatever the numbers in the path are. In particular
  the fixed path for the providers is not taken for the number of a backend.
\<close>

theorem routes_resolve:
  assumes "router_laws match resolve"
  shows "\<exists>r. resolve (app_routes F path static_dir spa_dir) (endpoint_method ep) (endpoint_path ep)
      = Found r (endpoint_params ep) \<and> hr_name r = endpoint_name ep"
proof -
  obtain r where "first_full match api_routes (endpoint_method ep) (endpoint_path ep) = Some (r, endpoint_params ep)"
    and n: "hr_name r = endpoint_name ep"
    using endpoint_first [OF router_templates [OF assms]] by blast
  then have "first_full match (app_routes F path static_dir spa_dir) (endpoint_method ep) (endpoint_path ep)
      = Some (r, endpoint_params ep)"
    unfolding app_routes_def by (intro first_full_append)
  with n show ?thesis using resolve_first [OF assms] by blast
qed

definition sample_match :: "string \<Rightarrow> string \<Rightarrow> string list option" where
  "sample_match t p =
     (let pre = takeWhile (\<lambda>c. c \<noteq> CHR ''{'') t; x = dropWhile (\<lambda>c. c \<noteq> CHR ''{'') t
      in if x = [] then (if p = t then Some [] else None)
         else if CHR '':'' \<in> set x then map_option (\<lambda>v. [v]) (rest_after pre p) else segment_after pre p)"

definition sample_resolve :: "http_route list \<Rightarrow> string \<Rightarrow> string \<Rightarrow> resolution" where
  "sample_resolve rs m p = (case first_full sample_match rs m p of Some (r, vs) \<Rightarrow> Found r vs | None \<Rightarrow> NotFound)"

lemma sample_router: "router_laws sample_match sample_resolve"
proof -
  have n: "takeWhile (\<lambda>c. c \<noteq> CHR ''{'') t = t" "dropWhile (\<lambda>c. c \<noteq> CHR ''{'') t = []" if "CHR ''{'' \<notin> set t" for t
    using that by (auto simp: takeWhile_eq_all_conv dropWhile_eq_Nil_conv)
  have b: "takeWhile (\<lambda>c. c \<noteq> CHR ''{'') (pre @ ''{'' @ x) = pre" "dropWhile (\<lambda>c. c \<noteq> CHR ''{'') (pre @ ''{'' @ x) = ''{'' @ x"
    if "CHR ''{'' \<notin> set pre" for pre x
    using that by (auto simp: takeWhile_append dropWhile_append)
  have "template_laws sample_match"
    unfolding template_laws_def
    by (intro conjI allI impI) (use n b in \<open>auto simp: sample_match_def list_all_iff\<close>)
  then show ?thesis by (auto simp: router_laws_def sample_resolve_def split: option.splits)
qed

definition sample_web_files :: web_files where
  "sample_web_files = \<lparr>wf_is_file = (\<lambda>_. True), wf_is_dir = (\<lambda>_. True)\<rparr>"

theorem routes_resolve_witness:
  "\<exists>r. sample_resolve (app_routes sample_web_files (\<lambda>s. [s]) (Some ''static'') None) ''GET'' ''/api/v1/backends/providers''
      = Found r [] \<and> hr_name r = ''list_providers''"
  using routes_resolve [OF sample_router, of sample_web_files "\<lambda>s. [s]" "Some ''static''" None ListProviders]
  by (simp add: endpoint_method_def endpoint_path_def endpoint_params_def endpoint_name_def API_V1_PREFIX_def)

section \<open>What the catch-all serves\<close>

lemma first_full_split:
  "first_full f (rs @ qs) m p = Some x \<Longrightarrow> first_full f rs m p = Some x \<or> first_full f rs m p = None \<and> first_full f qs m p = Some x"
  by (induction rs) (auto split: if_splits option.splits)

lemma first_full_member: "first_full f rs m p = Some (r, vs) \<Longrightarrow> r \<in> set rs \<and> f (hr_path r) p = Some vs \<and> (hr_method r = None \<or> hr_method r = Some m)"
  by (induction rs) (auto split: if_splits option.splits)

lemma api_routes_names: "r \<in> set api_routes \<Longrightarrow> hr_name r \<noteq> ''spa''"
  by (auto simp: api_routes_def router_defs)

lemma configured_spa:
  "r \<in> set (configure_spa F path static_dir spa_dir) \<Longrightarrow> hr_name r = ''spa'' \<Longrightarrow>
     hr_path r = ''/{full_path:path}'' \<and> hr_method r = Some ''GET''"
  by (auto simp: configure_spa_def register_spa_def Let_def split: option.splits if_splits)

lemma template_rest:
  assumes "template_laws f" and "CHR 0x0A \<notin> set p"
  shows "f ''/{full_path:path}'' p = map_option (\<lambda>v. [v]) (rest_after ''/'' p)"
proof -
  have "f (''/'' @ ''{'' @ ''full_path'' @ '':path}'') p = map_option (\<lambda>v. [v]) (rest_after ''/'' p)"
    using assms unfolding template_laws_def by (elim conjE allE [of _ "''/''"] allE [of _ "''full_path''"] allE [of _ p]) simp
  then show ?thesis by simp
qed

text \<open>
  C13: the catch-all of the web interface hides nothing and leaks nothing. A request that it gets
  is a GET whose path is not that of any operation of the API; if the path is under a reserved prefix (the API,
  the documentation, the probes, the metrics or the assets) the answer is 404, never a page; and otherwise what is served is the index
  or an existing file whose real path lies in the directory, however the requested path climbs out of it.
\<close>

theorem spa_surface:
  assumes "router_laws match resolve" and "CHR 0x0A \<notin> set p"
    and "resolve (app_routes F path static_dir spa_dir) m p = Found r vs" and "hr_name r = ''spa''"
  shows "\<exists>q. p = ''/'' @ q \<and> vs = [q] \<and> m = ''GET'' \<and> (\<forall>ep. (endpoint_method ep, endpoint_path ep) \<noteq> (m, p))
     \<and> (case spa FS web_root resolved index_html q of
          Answer c f \<Rightarrow> first_segment q \<notin> set SPA_RESERVED_PREFIXES
            \<and> (f = index_html \<or> fs_is_file FS f \<and> is_relative_to f resolved)
        | HttpError c d hs \<Rightarrow> c = 404 \<and> first_segment q \<in> set SPA_RESERVED_PREFIXES
        | RequestInvalid \<Rightarrow> False
        | Raise e \<Rightarrow> fs_resolve FS web_root q = Inl e)"
proof -
  note t = router_templates [OF assms(1)]
  have "first_full match (api_routes @ configure_spa F path static_dir spa_dir) m p = Some (r, vs)"
    using resolve_Found [OF assms(1,3)] by (simp add: app_routes_def)
  then have none: "first_full match api_routes m p = None"
      and found: "first_full match (configure_spa F path static_dir spa_dir) m p = Some (r, vs)"
    using first_full_split first_full_member api_routes_names assms(4) by metis+
  have r: "hr_path r = ''/{full_path:path}'' \<and> m = ''GET''" "match (hr_path r) p = Some vs"
    using first_full_member [OF found] configured_spa [OF _ assms(4)] by fastforce+
  obtain q where q: "p = ''/'' @ q" "vs = [q]"
    using r template_rest [OF t assms(2)] by (cases p) (auto split: if_splits)
  have "(endpoint_method ep, endpoint_path ep) \<noteq> (m, p)" for ep
    using none endpoint_first [OF t, of ep] by auto
  moreover have "case spa FS web_root resolved index_html q of
          Answer c f \<Rightarrow> first_segment q \<notin> set SPA_RESERVED_PREFIXES
            \<and> (f = index_html \<or> fs_is_file FS f \<and> is_relative_to f resolved)
        | HttpError c d hs \<Rightarrow> c = 404 \<and> first_segment q \<in> set SPA_RESERVED_PREFIXES
        | RequestInvalid \<Rightarrow> False
        | Raise e \<Rightarrow> fs_resolve FS web_root q = Inl e"
    by (auto simp: spa_def http_error_def split: sum.splits)
  ultimately show ?thesis using q r(1) by blast
qed

definition sample_fs :: file_system where
  "sample_fs = \<lparr>fs_resolve = (\<lambda>dir q. Inr [''etc'', ''passwd'']), fs_is_file = (\<lambda>_. True)\<rparr>"

abbreviation (input) sample_spa_route :: http_route where
  "sample_spa_route \<equiv> \<lparr>hr_method = Some ''GET'', hr_path = ''/{full_path:path}'', hr_name = ''spa''\<rparr>"

lemma sample_spa_found:
  "sample_resolve (app_routes sample_web_files (\<lambda>s. [s]) (Some ''static'') None) ''GET'' ''/../etc/passwd''
     = Found sample_spa_route [''../etc/passwd'']"
  by code_simp

theorem spa_surface_witness:
  "spa sample_fs [''static''] [''static''] [''static'', ''index.html''] ''../etc/passwd'' = Answer 200 [''static'', ''index.html'']"
proof -
  have n: "CHR 0x0A \<notin> set ''/../etc/passwd''" by simp
  have "case spa sample_fs [''static''] [''static''] [''static'', ''index.html''] ''../etc/passwd'' of
      Answer c f \<Rightarrow> f = [''static'', ''index.html''] \<or> is_relative_to f [''static''] | _ \<Rightarrow> True"
    using spa_surface [OF sample_router n sample_spa_found,
        where FS = sample_fs and web_root = "[''static'']" and resolved = "[''static'']" and index_html = "[''static'', ''index.html'']"]
    by (auto split: handled.splits)
  moreover have "\<exists>c f. spa sample_fs [''static''] [''static''] [''static'', ''index.html''] ''../etc/passwd'' = Answer c f \<and> c = 200
      \<and> f \<in> {[''static'', ''index.html''], [''etc'', ''passwd'']}"
    by (simp add: spa_def sample_fs_def first_segment_def SPA_RESERVED_PREFIXES_def)
  ultimately show ?thesis by (auto simp: is_relative_to_def)
qed

end
