(* ===== verification/ApiSessions.thy ===== *)
theory ApiSessions
  imports ApiSecurity Startup
begin

text \<open>
  The session cookie (\<^verbatim>\<open>api/session.py\<close>): the options that the application installs
  Starlette's SessionMiddleware with, and how long a login lasts. The middleware, which signs and
  checks the cookie, is a parameter with laws.
\<close>

section \<open>The middleware\<close>

definition SESSION_MAX_AGE :: int where "SESSION_MAX_AGE = 12 * 60 * 60"

record session_options =
  so_secret_key :: string
  so_session_cookie :: string
  so_max_age :: int
  so_same_site :: string
  so_https_only :: bool

definition add_session_middleware :: "settings \<Rightarrow> session_options" where
  "add_session_middleware S =
     \<lparr>so_secret_key = se_session_secret S, so_session_cookie = SESSION_COOKIE, so_max_age = SESSION_MAX_AGE,
      so_same_site = ''strict'', so_https_only = True\<rparr>"

text \<open>
  \<open>sm_load\<close> restores the session from the cookies of a request at a time in seconds, \<open>sm_save\<close> is the
  cookie value that a response sets for a session.
\<close>

record session_ops =
  sm_load :: "session_options \<Rightarrow> (string \<times> string) list \<Rightarrow> int \<Rightarrow> session"
  sm_save :: "session_options \<Rightarrow> session \<Rightarrow> int \<Rightarrow> string"

definition session_json :: "session \<Rightarrow> bool" where
  "session_json s \<longleftrightarrow> serializable (PDict s) \<and> dicts_ok (PDict s)"

text \<open>
  What Starlette documents: a cookie that was set comes back as the session that it was made from
  until its age exceeds the maximum; any other cookie value is no session, for it is not signed.
\<close>

definition session_laws :: "session_ops \<Rightarrow> bool" where
  "session_laws K \<longleftrightarrow>
     (\<forall>opts s t. sm_save K opts s t \<noteq> [])
   \<and> (\<forall>opts cs s t now. map_of cs (so_session_cookie opts) = Some (sm_save K opts s t) \<longrightarrow> session_json s \<longrightarrow> t \<le> now \<longrightarrow>
        sm_load K opts cs now = (if now - t \<le> so_max_age opts then s else []))
   \<and> (\<forall>opts cs now. sm_load K opts cs now \<noteq> [] \<longrightarrow>
        (\<exists>t. map_of cs (so_session_cookie opts) = Some (sm_save K opts (sm_load K opts cs now) t) \<and> now - t \<le> so_max_age opts))"

definition with_session :: "session_ops \<Rightarrow> settings \<Rightarrow> int \<Rightarrow> request \<Rightarrow> request" where
  "with_session K S now rq = rq\<lparr>rq_session := sm_load K (add_session_middleware S) (rq_cookies rq) now\<rparr>"

section \<open>Who is an administrator\<close>

lemma list_all_update: "list_all (\<lambda>(k, v). Q v) al \<Longrightarrow> Q x \<Longrightarrow> list_all (\<lambda>(k, v). Q v) (AList.update k x al)"
  by (induction al) auto

lemma mark_admin_json: "session_json s \<Longrightarrow> session_json (mark_admin now s)"
  by (simp add: session_json_def mark_admin_def distinct_update list_all_update)

lemma login_session:
  "login E R pw rq st = (Answer c (True, s), st') \<Longrightarrow> \<exists>now. s = mark_admin now (rq_session rq)"
  by (auto simp: login_def Let_def http_error_def split: if_splits prod.splits sum.splits bool.splits)

lemma keep_session_session: "keep_session rq f m = (Answer c (b, s), st) \<Longrightarrow> s = rq_session rq"
  by (cases m; cases "fst m") (auto simp: keep_session_def)

text \<open>A response changes the session only to mark it after a login or to clear it after a logout.\<close>

lemma handle_endpoint_session:
  assumes "handle_endpoint E R ep rq st = (Answer code (b, s), st')"
  shows "(\<exists>pw. ep = Login pw \<and> login E R pw rq st = (Answer code (True, s), st')) \<or> s = rq_session rq \<or> s = []"
proof (cases "\<exists>pw. ep = Login pw")
  case True
  then obtain pw where ep: "ep = Login pw" by blast
  show ?thesis
    using assms by (cases "login E R pw rq st"; cases "fst (login E R pw rq st)")
      (auto simp: ep handle_endpoint_def login_def Let_def http_error_def split: if_splits prod.splits sum.splits bool.splits)
next
  case False
  then show ?thesis
    using assms by (cases ep) (auto simp: handle_endpoint_def logout_def clear_session_def dest!: keep_session_session)
qed

text \<open>
  C11: a login lasts twelve hours. The session that a login answers with, sent back in the cookie
  that the response set at time \<open>t\<close>, authenticates every request until 43200 seconds later and none after that;
  and without an API key a request is taken for an administrator's only if it carries a cookie that
  was set for a marked session at most twelve hours before. No response but that to a login turns a
  session that is not an administrator's into one that is.
\<close>

theorem session_lifetime:
  assumes "session_laws K" and "credential (rq_headers rq2) ''x-api-key'' = None"
  shows "(login E R pw rq st = (Answer c (True, s), st1) \<and> session_json (rq_session rq) \<and> t \<le> now
        \<and> map_of (rq_cookies rq2) SESSION_COOKIE = Some (sm_save K (add_session_middleware S) s t) \<longrightarrow>
          require_admin E R (with_session K S now rq2) st2
            = (if now \<le> t + 43200 then Answer 200 () else http_error 401 ''authentication required'', st2))
     \<and> (require_admin E R (with_session K S now rq2) st2 = (Answer code u, st3) \<longrightarrow>
          (\<exists>s t. map_of (rq_cookies rq2) SESSION_COOKIE = Some (sm_save K (add_session_middleware S) s t)
             \<and> session_is_admin s \<and> now \<le> t + 43200))
     \<and> (handle_endpoint E R ep rq3 st2 = (Answer code (b, s3), st3) \<and> session_is_admin s3 \<longrightarrow>
          session_is_admin (rq_session rq3) \<or> (\<exists>pw. ep = Login pw))"
proof -
  let ?o = "add_session_middleware S"
  have o: "so_session_cookie ?o = SESSION_COOKIE" "so_max_age ?o = 43200"
    by (simp_all add: add_session_middleware_def SESSION_MAX_AGE_def)
  have load: "sm_load K ?o cs now = (if now \<le> t + 43200 then s else [])"
    if "map_of cs SESSION_COOKIE = Some (sm_save K ?o s t)" "session_json s" "t \<le> now" for cs s t
    using assms(1) that o unfolding session_laws_def by (simp add: algebra_simps)
  have signed: "\<exists>t. map_of cs SESSION_COOKIE = Some (sm_save K ?o (sm_load K ?o cs now) t) \<and> now \<le> t + 43200"
    if "sm_load K ?o cs now \<noteq> []" for cs
    using assms(1) that o unfolding session_laws_def by (metis add.commute diff_le_eq)
  have ne: "sm_save K ?o s t \<noteq> []" for s t using assms(1) by (simp add: session_laws_def)
  show ?thesis
  proof (intro conjI impI)
    assume a: "login E R pw rq st = (Answer c (True, s), st1) \<and> session_json (rq_session rq) \<and> t \<le> now
        \<and> map_of (rq_cookies rq2) SESSION_COOKIE = Some (sm_save K ?o s t)"
    then obtain ts where "s = mark_admin ts (rq_session rq)" using login_session by blast
    with a have "session_is_admin s" "session_json s" by (simp_all add: mark_admin_json)
    with a load show "require_admin E R (with_session K S now rq2) st2
        = (if now \<le> t + 43200 then Answer 200 () else http_error 401 ''authentication required'', st2)"
      using assms(2) ne by (simp add: require_admin_def with_session_def credential_def session_is_admin_def split: option.splits)
  next
    assume "require_admin E R (with_session K S now rq2) st2 = (Answer code u, st3)"
    then have adm: "session_is_admin (sm_load K ?o (rq_cookies rq2) now)"
      using assms(2) by (auto simp: require_admin_def with_session_def http_error_def split: if_splits)
    then have "sm_load K ?o (rq_cookies rq2) now \<noteq> []" by (auto simp: session_is_admin_def)
    from signed [OF this] adm show "\<exists>s t. map_of (rq_cookies rq2) SESSION_COOKIE = Some (sm_save K ?o s t)
        \<and> session_is_admin s \<and> now \<le> t + 43200" by blast
  next
    assume "handle_endpoint E R ep rq3 st2 = (Answer code (b, s3), st3) \<and> session_is_admin s3"
    then show "session_is_admin (rq_session rq3) \<or> (\<exists>pw. ep = Login pw)"
      using handle_endpoint_session [of E R ep rq3 st2 code b s3 st3] by (auto simp: session_is_admin_def)
  qed
qed

section \<open>A sample middleware\<close>

definition sample_save :: "session_options \<Rightarrow> session \<Rightarrow> int \<Rightarrow> string" where
  "sample_save opts s t = json_print (PList [PStr (so_secret_key opts), PInt t, PDict s])"

definition sample_parse :: "string \<Rightarrow> (int \<times> session) option" where
  "sample_parse v = (case json_loads v of Inr (PList [PStr key, PInt t, PDict s]) \<Rightarrow> Some (t, s) | _ \<Rightarrow> None)"

definition sample_load :: "session_options \<Rightarrow> (string \<times> string) list \<Rightarrow> int \<Rightarrow> session" where
  "sample_load opts cs now =
     (case map_of cs (so_session_cookie opts) of
        None \<Rightarrow> []
      | Some v \<Rightarrow>
          (case sample_parse v of
             Some (t, s) \<Rightarrow> if sample_save opts s t = v \<and> now - t \<le> so_max_age opts then s else []
           | None \<Rightarrow> []))"

lemma json_loads_unsorted:
  assumes "serializable v" and "dicts_ok v"
  shows "json_loads (json_print v) = Inr v"
proof -
  have "json_value (2 * length (json_print v) + 2) (json_print v @ []) = Some (v, [])"
    using value_reads_back [OF assms] unfolding reads_back_def by (metis delim_def le_add1 list.case(1))
  moreover have "json_ws (json_print v) = json_print v" using json_print_ws [of v "[]"] assms(1) by simp
  ultimately show ?thesis by (simp add: json_loads_def json_ws_def)
qed

lemma sample_parse_save: "session_json s \<Longrightarrow> sample_parse (sample_save opts s t) = Some (t, s)"
proof -
  assume "session_json s"
  then have "json_loads (sample_save opts s t) = Inr (PList [PStr (so_secret_key opts), PInt t, PDict s])"
    unfolding sample_save_def by (intro json_loads_unsorted) (simp_all add: session_json_def)
  then show ?thesis by (simp add: sample_parse_def)
qed

definition sample_session_ops :: session_ops where
  "sample_session_ops = \<lparr>sm_load = sample_load, sm_save = sample_save\<rparr>"

lemma sample_session_laws: "session_laws sample_session_ops"
  unfolding session_laws_def
proof (intro conjI allI impI)
  show "sm_save sample_session_ops opts s t \<noteq> []" for opts s t by (simp add: sample_session_ops_def sample_save_def)
  show "sm_load sample_session_ops opts cs now = (if now - t \<le> so_max_age opts then s else [])"
    if "map_of cs (so_session_cookie opts) = Some (sm_save sample_session_ops opts s t)" "session_json s" for opts cs s t now
    using that by (simp add: sample_session_ops_def sample_load_def sample_parse_save)
  show "\<exists>t. map_of cs (so_session_cookie opts) = Some (sm_save sample_session_ops opts (sm_load sample_session_ops opts cs now) t)
      \<and> now - t \<le> so_max_age opts"
    if "sm_load sample_session_ops opts cs now \<noteq> []" for opts cs now
    using that by (auto simp: sample_session_ops_def sample_load_def split: option.splits if_splits)
qed

text \<open>A login with the right password at time 1000, and a request with its cookie eleven hours later.\<close>

abbreviation (input) sample_login :: request where
  "sample_login \<equiv> sample_request (Login ''seed'') [] []"

lemma sample_login_ok:
  "\<exists>st1. login sample_env sample_resources ''seed'' sample_login (sample_api_state empty_db)
     = (Answer 200 (True, mark_admin 2 []), st1)"
proof -
  let ?st = "sample_api_state empty_db"
  have m: "monotonic sample_env ?st = (1, ?st\<lparr>as_world := 2\<rparr>)"
    by (simp add: monotonic_def sample_env_def sample_api_state_def)
  have a: "is_allowed 1 key (as_limiter ?st)" for key
    by (simp add: sample_api_state_def default_login_limiter_def is_allowed_iff)
  have v: "verify_admin_password sample_env sample_resources ''seed'' (?st\<lparr>as_world := 2\<rparr>) = (Inr True, ?st\<lparr>as_world := 2\<rparr>)"
    by (simp add: verify_admin_password_def stored_admin_hash_def sample_resources_def sample_api_state_def empty_db_def
        sample_env_def verify_password_def password_needs_rehash_def sample_argon2_def)
  have t: "ae_time sample_env w = (real_of_int w, w + 1)" for w by (simp add: sample_env_def)
  have r: "rq_session sample_login = []" by (simp add: sample_request_def)
  show ?thesis using a by (simp add: login_def login_request_ok_def m v t r)
qed

theorem session_lifetime_witness:
  "fst (require_admin sample_env sample_resources
      (with_session sample_session_ops (default_settings ''dsn'' ''kek'' ''pw'' ''secret'') 40600
        ((sample_request ListDomains [] [])\<lparr>rq_cookies := [(SESSION_COOKIE,
           sample_save (add_session_middleware (default_settings ''dsn'' ''kek'' ''pw'' ''secret'')) (mark_admin 2 []) 1000)]\<rparr>))
      (sample_api_state empty_db)) = Answer 200 ()"
proof -
  let ?S = "default_settings ''dsn'' ''kek'' ''pw'' ''secret''"
  let ?rq = "(sample_request ListDomains [] [])\<lparr>rq_cookies := [(SESSION_COOKIE,
      sample_save (add_session_middleware ?S) (mark_admin 2 []) 1000)]\<rparr>"
  obtain st1 where l: "login sample_env sample_resources ''seed'' sample_login (sample_api_state empty_db)
     = (Answer 200 (True, mark_admin 2 []), st1)" using sample_login_ok by blast
  have k: "credential (rq_headers ?rq) ''x-api-key'' = None" by (simp add: sample_request_def credential_def)
  have j: "session_json (rq_session sample_login)" by (simp add: sample_request_def session_json_def)
  have c: "map_of (rq_cookies ?rq) SESSION_COOKIE
      = Some (sm_save sample_session_ops (add_session_middleware ?S) (mark_admin 2 []) 1000)"
    by (simp add: sample_session_ops_def)
  show ?thesis
    using session_lifetime [OF sample_session_laws k, of sample_env sample_resources "''seed''" sample_login
        "sample_api_state empty_db" 200 "mark_admin 2 []" st1 1000 40600 ?S "sample_api_state empty_db"] l j c
    by simp
qed

end
