(* ===== verification/AppStack.thy ===== *)
theory AppStack
  imports ApiRoutes ApiSessions Correlation Route53 HttpRetry
begin

text \<open>
  How the parts are put together for serving: the application that \<^verbatim>\<open>create_app\<close> returns with its
  resources and its middleware, the uvicorn server that \<^verbatim>\<open>main.py\<close> embeds it in and the signal
  handlers around it, and the clients of the providers. uvicorn, the event loop and the
  SDK are outside the repository; what is configured of them is a record.
\<close>

section \<open>The application\<close>

datatype middleware = SessionMiddleware | CsrfOriginMiddleware | CorrelationIdMiddleware

text \<open>Each middleware that is added wraps the application so far: the last one is the outermost.\<close>

definition add_middleware :: "middleware \<Rightarrow> middleware list \<Rightarrow> middleware list" where
  "add_middleware m stack = m # stack"

record 'f http_app =
  ha_resources :: "'f app_resources"
  ha_limiter :: login_limiter
  ha_session :: session_options
  ha_middleware :: "middleware list"
  ha_routes :: "http_route list"

definition create_app ::
  "settings \<Rightarrow> bool \<Rightarrow> 'f kek option \<Rightarrow> web_files \<Rightarrow> (string \<Rightarrow> string list) \<Rightarrow> string option \<Rightarrow> 'f http_app" where
  "create_app S has_database kek F path static_dir =
     \<lparr>ha_resources = \<lparr>rs_admin_password_hash = se_admin_password_hash S, rs_management_origin = se_management_origin S,
                      rs_has_database = has_database, rs_kek = kek\<rparr>,
      ha_limiter = default_login_limiter,
      ha_session = add_session_middleware S,
      ha_middleware = add_middleware CorrelationIdMiddleware
        (add_middleware CsrfOriginMiddleware (add_middleware SessionMiddleware [])),
      ha_routes = app_routes F path static_dir (se_spa_dir S)\<rparr>"

text \<open>
  A request through the stack: what the application around the routes does with a request, outermost middleware first. The
  answer comes with the correlation id that the response echoes. An exception that leaves the application unhandled passes
  every middleware of the repository without a response; the 500 response is then sent by Starlette's own error
  middleware, which is always the outermost and sends past the wrapped send function: it carries no id.
\<close>

definition stamped :: "string option \<Rightarrow> 'a handled \<Rightarrow> string option" where
  "stamped echo r = (case r of Raise _ \<Rightarrow> None | _ \<Rightarrow> echo)"

type_synonym ('a, 's) endpoint_fn = "request \<Rightarrow> 's \<Rightarrow> 'a handled \<times> 's"

record stack_env =
  sk_session :: session_ops
  sk_netloc_ok :: "string \<Rightarrow> bool"
  sk_token :: string
  sk_now :: int

fun run_stack ::
  "stack_env \<Rightarrow> 'f http_app \<Rightarrow> middleware list \<Rightarrow> ('a, 's) endpoint_fn \<Rightarrow> string option \<Rightarrow> correlation \<Rightarrow> request \<Rightarrow> 's \<Rightarrow>
   (string option \<times> 'a handled) \<times> correlation \<times> 's" where
  "run_stack K A [] routes echo ctx rq s = (let (r, s') = routes rq s in ((stamped echo r, r), ctx, s'))"
| "run_stack K A (SessionMiddleware # ms) routes echo ctx rq s =
     run_stack K A ms routes echo ctx
       (rq\<lparr>rq_session := sm_load (sk_session K) (ha_session A) (rq_cookies rq) (sk_now K)\<rparr>) s"
| "run_stack K A (CsrfOriginMiddleware # ms) routes echo ctx rq s =
     (let inner = (\<lambda>rq (c, s). case run_stack K A ms routes echo c rq s of ((_, r), c', s') \<Rightarrow> (r, c', s'));
          (r, c, s') = csrf_dispatch (sk_netloc_ok K) (rs_management_origin (ha_resources A)) API_V1_PREFIX inner rq (ctx, s)
      in ((stamped echo r, r), c, s'))"
| "run_stack K A (CorrelationIdMiddleware # ms) routes echo ctx rq s =
     (case correlation_middleware (sk_token K) ''http'' (rq_headers rq)
             (\<lambda>cid c s. case run_stack K A ms routes cid c rq s of (er, c', s') \<Rightarrow> (Inr er, c', s')) ctx s of
        (Inr er, c, s') \<Rightarrow> (er, c, s')
      | (Inl e, c, s') \<Rightarrow> ((None, Raise e), c, s'))"

definition serve_request ::
  "stack_env \<Rightarrow> 'f http_app \<Rightarrow> ('a, 's) endpoint_fn \<Rightarrow> correlation \<Rightarrow> request \<Rightarrow> 's \<Rightarrow>
   (string option \<times> 'a handled) \<times> correlation \<times> 's" where
  "serve_request K A routes ctx rq s = run_stack K A (ha_middleware A) routes None ctx rq s"

text \<open>The stack of the application, as one function: the origin is checked before the session is read.\<close>

lemma serve_request_eq:
  "serve_request K (create_app S db kek F path sd) routes ctx rq s =
     (let (r, s') = csrf_dispatch (sk_netloc_ok K) (se_management_origin S) API_V1_PREFIX
            (\<lambda>rq. routes (with_session (sk_session K) S (sk_now K) rq)) rq s
      in ((stamped (Some (incoming_correlation_id (sk_token K) (rq_headers rq))) r, r), ctx, s'))"
  by (simp add: serve_request_def create_app_def add_middleware_def correlation_middleware_def set_correlation_id_def
      reset_correlation_id_def csrf_dispatch_def with_session_def Let_def split_beta split: sum.splits)

lemma csrf_session:
  "csrf_dispatch ok allowed pre (\<lambda>rq. f (with_session K S now rq)) rq s = csrf_dispatch ok allowed pre f (with_session K S now rq) s"
proof -
  have "csrf_needs_check allowed pre (with_session K S now rq) = csrf_needs_check allowed pre rq"
    by (simp add: csrf_needs_check_def with_session_def)
  moreover have "csrf_origin_allowed ok allowed (with_session K S now rq) = csrf_origin_allowed ok allowed rq"
    by (simp add: csrf_origin_allowed_def with_session_def split: option.splits)
  ultimately show ?thesis by (simp add: csrf_dispatch_def)
qed

text \<open>
  C10: the middleware that the application is wrapped in. A request to any endpoint is handled as
  the routes and the origin check handle it with the session of its signed cookie, and every response of the
  application, be it a rejection by the origin check before any session was read, a refusal by the guard or an
  answer, carries the correlation id of the request; a request whose handling raised an exception gets the
  server's 500 response, which carries none. The id is no longer bound afterwards.
\<close>

theorem stack_refines_app:
  "serve_request K (create_app S db kek F path static_dir)
       (handle_endpoint E (ha_resources (create_app S db kek F path static_dir)) ep) ctx rq st
   = (let (r, st') = app E (ha_resources (create_app S db kek F path static_dir)) (sk_netloc_ok K) ep
            (with_session (sk_session K) S (sk_now K) rq) st;
          echo = (case r of Raise _ \<Rightarrow> None | _ \<Rightarrow> Some (incoming_correlation_id (sk_token K) (rq_headers rq)))
      in ((echo, r), ctx, st'))"
  by (simp add: serve_request_eq csrf_session app_def) (simp add: create_app_def stamped_def)

section \<open>The probes that need no state\<close>

definition healthz :: "body handled" where
  "healthz = Answer 200 StatusOk"

text \<open>The scrape exposes the injected registry, or the global one; \<open>generate\<close> is the library's exposition.\<close>

definition metrics_route :: "('r \<Rightarrow> string) \<Rightarrow> 'r \<Rightarrow> 'r option \<Rightarrow> string handled" where
  "metrics_route generate global_registry registry =
     Answer 200 (generate (case registry of Some r \<Rightarrow> r | None \<Rightarrow> global_registry))"

definition start_metrics_server ::
  "(int \<Rightarrow> string \<Rightarrow> 'r \<Rightarrow> 'w \<Rightarrow> 'h res \<times> 'w) \<Rightarrow> 'r \<Rightarrow> int \<Rightarrow> string \<Rightarrow> 'r option \<Rightarrow> 'w \<Rightarrow> 'h res \<times> 'w" where
  "start_metrics_server start_http global_registry port addr registry w =
     start_http port addr (case registry of Some r \<Rightarrow> r | None \<Rightarrow> global_registry) w"

section \<open>Signals\<close>

datatype unix_signal = SIGTERM | SIGINT | OtherSignal

datatype signal_handler = DefaultHandler | SetShutdown | UvicornExit

type_synonym handlers = "unix_signal \<Rightarrow> signal_handler"

text \<open>
  \<open>supported\<close> is the outcome of \<^verbatim>\<open>loop.add_signal_handler\<close>; a loop that does not implement it falls back
  to \<^verbatim>\<open>signal.signal\<close>, any other exception ends the installation.
\<close>

fun install_handlers :: "(unix_signal \<Rightarrow> unit res) \<Rightarrow> unix_signal list \<Rightarrow> handlers \<Rightarrow> unit res \<times> handlers" where
  "install_handlers supported [] h = (Inr (), h)"
| "install_handlers supported (sig # sigs) h =
     (case supported sig of
        Inr _ \<Rightarrow> install_handlers supported sigs (h(sig := SetShutdown))
      | Inl e \<Rightarrow>
          if e = OtherError ''NotImplementedError'' then install_handlers supported sigs (h(sig := SetShutdown))
          else (Inl e, h))"

definition install_signal_handlers :: "(unix_signal \<Rightarrow> unit res) \<Rightarrow> handlers \<Rightarrow> unit res \<times> handlers" where
  "install_signal_handlers supported h = install_handlers supported [SIGTERM, SIGINT] h"

record uvicorn_server =
  uv_host :: string
  uv_port :: int
  uv_log_config :: bool
  uv_proxy_headers :: bool
  uv_forwarded_allow_ips :: string
  uv_lifespan :: string
  uv_capture_signals :: "handlers \<Rightarrow> handlers"

definition no_signal_capture :: "handlers \<Rightarrow> handlers" where
  "no_signal_capture h = h"

definition build_management_server :: "settings \<Rightarrow> uvicorn_server" where
  "build_management_server S =
     \<lparr>uv_host = se_http_bind S, uv_port = se_http_port S, uv_log_config = False, uv_proxy_headers = True,
      uv_forwarded_allow_ips = se_forwarded_allow_ips S, uv_lifespan = ''off'', uv_capture_signals = no_signal_capture\<rparr>"

text \<open>Serving enters the server's signal capture; a shutdown is requested by a handler that sets the event.\<close>

definition while_serving :: "uvicorn_server \<Rightarrow> handlers \<Rightarrow> handlers" where
  "while_serving server h = uv_capture_signals server h"

lemma signals_reach_shutdown:
  assumes "install_signal_handlers supported h = (Inr (), h')"
  shows "while_serving (build_management_server S) h' SIGTERM = SetShutdown"
    and "while_serving (build_management_server S) h' SIGINT = SetShutdown"
    and "while_serving (build_management_server S) h' OtherSignal = h OtherSignal"
  using assms
  by (auto simp: install_signal_handlers_def while_serving_def build_management_server_def no_signal_capture_def
      split: sum.splits if_splits)

section \<open>Clients of the providers\<close>

definition DEFAULT_REGION :: string where "DEFAULT_REGION = ''us-east-1''"

record aws_client_args =
  aw_service :: string
  aw_region_name :: string
  aw_access_key_id :: string
  aw_secret_access_key :: string
  aw_connect_timeout :: int
  aw_read_timeout :: int
  aw_max_pool_connections :: int

text \<open>The arguments with which the production factory creates a client; an empty region is falsy.\<close>

definition default_client_factory :: "route53_config \<Rightarrow> aws_client_args" where
  "default_client_factory cfg =
     \<lparr>aw_service = ''route53'',
      aw_region_name = (case rf_region cfg of None \<Rightarrow> DEFAULT_REGION | Some r \<Rightarrow> if r = [] then DEFAULT_REGION else r),
      aw_access_key_id = rf_access_key_id cfg, aw_secret_access_key = rf_secret_access_key cfg,
      aw_connect_timeout = 5, aw_read_timeout = 10, aw_max_pool_connections = 20\<rparr>"

lemma default_client_region:
  "aw_region_name (default_client_factory cfg) \<noteq> []"
  "rf_region cfg = Some r \<Longrightarrow> r \<noteq> [] \<Longrightarrow> aw_region_name (default_client_factory cfg) = r"
  by (auto simp: default_client_factory_def DEFAULT_REGION_def split: option.splits)

record http_timeout =
  ht_connect :: real
  ht_read :: real
  ht_write :: real
  ht_pool :: real

record http_client_args =
  hc_timeout :: http_timeout
  hc_connect_retries :: nat

definition DEFAULT_TIMEOUT :: http_timeout where
  "DEFAULT_TIMEOUT = \<lparr>ht_connect = 5, ht_read = 10, ht_write = 10, ht_pool = 10\<rparr>"

text \<open>Retries of the transport are for connecting only; a status is retried by \<^const>\<open>post_with_retry\<close>.\<close>

definition build_async_client :: "http_timeout \<Rightarrow> nat \<Rightarrow> http_client_args" where
  "build_async_client timeout connect_retries = \<lparr>hc_timeout = timeout, hc_connect_retries = connect_retries\<rparr>"

end
