(* ===== verification/LoggingSetup.thy ===== *)
theory LoggingSetup
  imports Redaction Startup
begin

text \<open>
  The rest of \<^verbatim>\<open>logging_config.py\<close> and the accessor of \<^verbatim>\<open>settings.py\<close>: which handler
  \<^verbatim>\<open>configure_logging\<close> installs for the settings, the two formatters, and the line that a record
  comes out as. The dictionary of \<^verbatim>\<open>dictConfig\<close> is the record of what it configures.
\<close>

section \<open>Configuration\<close>

text \<open>\<^verbatim>\<open>upper\<close> on ASCII; a text with another letter in it becomes no level name.\<close>

definition char_upper :: "char \<Rightarrow> char" where
  "char_upper c = (if 97 \<le> chr_code c \<and> chr_code c \<le> 122 then char_of (chr_code c - 32) else c)"

text \<open>The names that the library knows; a level with any other name is refused.\<close>

definition level_no :: "string \<Rightarrow> nat option" where
  "level_no =
     map_of [(''CRITICAL'', 50), (''FATAL'', 50), (''ERROR'', 40), (''WARN'', 30), (''WARNING'', 30),
             (''INFO'', 20), (''DEBUG'', 10), (''NOTSET'', 0)]"

datatype log_formatter = TextFormatter | JsonFormatter

datatype log_filter = CorrelationFilter | RedactionFilter

text \<open>The console handler and the level of the root logger.\<close>

record logging_setup =
  ls_level :: nat
  ls_formatter :: log_formatter
  ls_filters :: "log_filter list"

definition configure_logging :: "settings option \<Rightarrow> logging_setup res" where
  "configure_logging S =
     (let level = map char_upper (case S of Some s \<Rightarrow> se_log_level s | None \<Rightarrow> ''INFO'');
          log_format = py_lower (case S of Some s \<Rightarrow> se_log_format s | None \<Rightarrow> ''text'')
      in case level_no level of
           None \<Rightarrow> Inl (ValueError (''Unable to configure handler '' @ py_repr ''console''))
         | Some n \<Rightarrow>
             Inr \<lparr>ls_level = n,
                  ls_formatter = (if log_format = ''json'' then JsonFormatter else TextFormatter),
                  ls_filters = [CorrelationFilter, RedactionFilter]\<rparr>)"

section \<open>The formatters\<close>

text \<open>\<^verbatim>\<open>json.dumps\<close> with the default separators; the values of the payload are texts or null.\<close>

definition json_line :: "(string \<times> pyval) list \<Rightarrow> string" where
  "json_line payload = ''{'' @ sep_join '', '' (map (\<lambda>(k, v). json_string k @ '': '' @ json_print v) payload) @ ''}''"

definition ljust :: "nat \<Rightarrow> string \<Rightarrow> string" where
  "ljust n s = s @ replicate (n - length s) CHR '' ''"

definition on_new_line :: "string \<Rightarrow> string \<Rightarrow> string" where
  "on_new_line line text = line @ (if last line = CHR 0x0A then [] else [CHR 0x0A]) @ text"

text \<open>
  The text format; a record without a correlation id cannot be formatted. The library appends the exception and
  then the stack, if the record has one, on lines of their own. \<open>show\<close> is \<^verbatim>\<open>str\<close> of a value that is not a text.
\<close>

definition text_line :: "(pyval \<Rightarrow> string) \<Rightarrow> string \<Rightarrow> log_record \<Rightarrow> string res" where
  "text_line show ts r =
     (case map_of (lr_attrs r) ''correlation_id'' of
        None \<Rightarrow> Inl (ValueError (''Formatting field not found in record: '' @ py_repr ''correlation_id''))
      | Some v \<Rightarrow>
          (let cid = (case v of PStr c \<Rightarrow> c | _ \<Rightarrow> show v);
               line = ts @ '' '' @ ljust 8 (lr_levelname r) @ '' ['' @ cid @ ''] '' @ lr_logger r @ '': '' @ lr_msg r;
               line1 = (case lr_exception r of None \<Rightarrow> line | Some text \<Rightarrow> on_new_line line text)
           in Inr (case map_of (lr_attrs r) ''stack_info'' of
                     Some (PStr stack) \<Rightarrow> if stack = [] then line1 else on_new_line line1 stack
                   | _ \<Rightarrow> line1)))"

fun apply_filters ::
  "(string \<Rightarrow> log_args \<Rightarrow> string res) \<Rightarrow> correlation \<Rightarrow> log_filter list \<Rightarrow> log_record \<Rightarrow> log_record res" where
  "apply_filters render ctx [] r = Inr r"
| "apply_filters render ctx (CorrelationFilter # fs) r = apply_filters render ctx fs (stamp_correlation ctx r)"
| "apply_filters render ctx (RedactionFilter # fs) r =
     (case redaction_filter render r of (Inl e, _) \<Rightarrow> Inl e | (Inr _, r') \<Rightarrow> apply_filters render ctx fs r')"

text \<open>The line of a record, or nothing below the level.\<close>

definition emit_line ::
  "logging_setup \<Rightarrow> (string \<Rightarrow> log_args \<Rightarrow> string res) \<Rightarrow> (pyval \<Rightarrow> string) \<Rightarrow> correlation \<Rightarrow> string \<Rightarrow> nat \<Rightarrow> log_record \<Rightarrow>
   string option res" where
  "emit_line C render show ctx ts levelno r =
     (if levelno < ls_level C then Inr None
      else (case apply_filters render ctx (ls_filters C) r of
              Inl e \<Rightarrow> Inl e
            | Inr r' \<Rightarrow>
                (case ls_formatter C of
                   JsonFormatter \<Rightarrow> Inr (Some (json_line (format_payload ts r')))
                 | TextFormatter \<Rightarrow> map_sum id Some (text_line show ts r'))))"

section \<open>Settings\<close>

text \<open>\<^verbatim>\<open>lru_cache\<close> keeps the first settings that could be built; an error is not kept.\<close>

definition get_settings :: "('w \<Rightarrow> settings res \<times> 'w) \<Rightarrow> settings option \<Rightarrow> 'w \<Rightarrow> settings res \<times> settings option \<times> 'w" where
  "get_settings build cached w =
     (case cached of
        Some s \<Rightarrow> (Inr s, Some s, w)
      | None \<Rightarrow>
          (case build w of
             (Inl e, w') \<Rightarrow> (Inl e, None, w')
           | (Inr s, w') \<Rightarrow> (Inr s, Some s, w')))"

lemma get_settings_stable:
  "get_settings build cached w = (Inr s, cached', w') \<Longrightarrow> get_settings build' cached' w'' = (Inr s, cached', w'')"
  by (auto simp: get_settings_def split: option.splits prod.splits sum.splits)

section \<open>What is emitted\<close>

lemma hex_digit_no_newline: "n < 16 \<Longrightarrow> hex_digit n \<noteq> CHR 0x0A"
proof
  assume "n < 16" and "hex_digit n = CHR 0x0A"
  from arg_cong [OF this(2), of chr_code] \<open>n < 16\<close> show False
    by (simp add: hex_digit_def of_char_of take_bit_eq_mod split: if_splits)
qed

lemma u_escape_no_newline: "CHR 0x0A \<notin> set (u_escape c)"
proof -
  have "chr_code c div 16 < 16" using nat_of_char_less_256 [of c] by (simp add: div_less_iff_less_mult)
  then show ?thesis
    using hex_digit_no_newline [of "chr_code c div 16"] hex_digit_no_newline [of "chr_code c mod 16"]
    by (auto simp: u_escape_def Let_def dest: sym)
qed

lemma json_char_no_newline: "CHR 0x0A \<notin> set (json_char c)"
  using u_escape_no_newline [of c] by (auto simp: json_char_def Let_def)

lemma json_string_no_newline: "CHR 0x0A \<notin> set (json_string s)"
  using json_char_no_newline by (auto simp: json_string_def)

lemma sep_join_no_newline:
  "CHR 0x0A \<notin> set sep \<Longrightarrow> \<forall>x \<in> set xs. CHR 0x0A \<notin> set x \<Longrightarrow> CHR 0x0A \<notin> set (sep_join sep xs)"
  by (induction sep xs rule: sep_join.induct) auto

lemma json_line_no_newline:
  assumes "\<forall>(k, v) \<in> set payload. v = PNone \<or> (\<exists>s. v = PStr s)"
  shows "CHR 0x0A \<notin> set (json_line payload)"
proof -
  have "CHR 0x0A \<notin> set (json_string k @ '': '' @ json_print v)" if "(k, v) \<in> set payload" for k v
    using that assms json_string_no_newline by fastforce
  then have "CHR 0x0A \<notin> set (sep_join '', '' (map (\<lambda>(k, v). json_string k @ '': '' @ json_print v) payload))"
    by (intro sep_join_no_newline) auto
  then show ?thesis by (simp add: json_line_def)
qed

lemma map_of_redacted: "map_of (map redact_attr xs) key = map_option (\<lambda>v. snd (redact_attr (key, v))) (map_of xs key)"
proof (induction xs)
  case (Cons kv xs)
  then show ?case by (cases kv; cases "redact_attr kv") (use redact_attr_key [of kv] in auto)
qed simp

lemma stamped_correlation:
  assumes "redaction_filter render (stamp_correlation ctx r) = (Inr ok, r')"
  shows "\<exists>c. map_of (lr_attrs r') ''correlation_id'' = Some (PStr c)"
proof -
  have "lr_attrs r' = map redact_attr (lr_attrs (stamp_correlation ctx r))" by (rule redaction_filter_Inr [OF assms])
  then show ?thesis by (simp add: stamp_correlation_def map_of_redacted update_conv' redact_attr_def)
qed

lemma filtered_payload:
  assumes "configure_logging S = Inr C"
  shows "apply_filters render ctx (ls_filters C) r
     = (case redaction_filter render (stamp_correlation ctx r) of (Inl e, _) \<Rightarrow> Inl e | (Inr _, r') \<Rightarrow> Inr r')"
  using assms by (auto simp: configure_logging_def Let_def split: option.splits prod.splits sum.splits)

lemma redaction_filter_cong:
  assumes "log_equiv r r'"
  shows "redaction_filter render (stamp_correlation ctx r) = redaction_filter render (stamp_correlation ctx r')"
proof -
  define red where "red q = q\<lparr>lr_attrs := map redact_attr (lr_attrs q), lr_args := redact_args (lr_args q)\<rparr>" for q :: log_record
  have "map redact_attr (lr_attrs (stamp_correlation ctx r)) = map redact_attr (lr_attrs (stamp_correlation ctx r'))"
    using assms unfolding log_equiv_def stamp_correlation_def
    by (intro map_cong2 [of "same_entry hidden_attr"]) (auto intro: update_same redact_attr_cong)
  moreover have "redact_args (lr_args r) = redact_args (lr_args r')"
    using assms by (simp add: log_equiv_def redact_args_cong)
  ultimately have e: "red (stamp_correlation ctx r) = red (stamp_correlation ctx r')"
    using assms by (cases r; cases r') (simp add: log_equiv_def stamp_correlation_def red_def)
  have rw: "redaction_filter render q
      = (case render (lr_msg (red q)) (lr_args (red q)) of
           Inl e \<Rightarrow> (Inl e, red q)
         | Inr text \<Rightarrow> (Inr True, (red q)\<lparr>lr_msg := scrub_value text, lr_args := ArgsTuple []\<rparr>))" for q
    by (simp add: redaction_filter_def red_def Let_def split: sum.splits)
  show ?thesis unfolding rw e ..
qed

text \<open>
  C16: what reaches the log. For all settings with a known level, in both formats: two records that
  agree except for the values of secret-named extra attributes and of secret-named keys of mapping
  arguments come out as the same line, or are dropped or fail alike, so what is stored under a secret name
  cannot influence the log. In the JSON format a record is a single line, whatever
  line breaks its message, its attributes or its exception have, so a client cannot forge a log entry.
\<close>

theorem log_lines_redacted:
  assumes "configure_logging S = Inr C" and "log_equiv r r'"
  shows "emit_line C render show ctx ts levelno r = emit_line C render show ctx ts levelno r'
     \<and> (ls_formatter C = JsonFormatter \<longrightarrow>
          (\<forall>line. emit_line C render show ctx ts levelno r = Inr (Some line) \<longrightarrow> CHR 0x0A \<notin> set line))"
proof -
  have "emit_line C render show ctx ts levelno r = emit_line C render show ctx ts levelno r'"
    by (simp add: emit_line_def filtered_payload [OF assms(1)] redaction_filter_cong [OF assms(2)])
  moreover have "CHR 0x0A \<notin> set line"
    if j: "ls_formatter C = JsonFormatter" "emit_line C render show ctx ts levelno r = Inr (Some line)" for line
  proof -
    obtain ok q where q: "redaction_filter render (stamp_correlation ctx r) = (Inr ok, q)" "line = json_line (format_payload ts q)"
      using j by (auto simp: emit_line_def filtered_payload [OF assms(1)] split: if_splits prod.splits sum.splits)
    obtain c where "map_of (lr_attrs q) ''correlation_id'' = Some (PStr c)" using stamped_correlation [OF q(1)] by blast
    then have "\<forall>(k, v) \<in> set (format_payload ts q). v = PNone \<or> (\<exists>s. v = PStr s)"
      by (auto simp: format_payload_def split: option.splits)
    then show ?thesis unfolding q(2) by (rule json_line_no_newline)
  qed
  ultimately show ?thesis by blast
qed

definition sample_setup :: logging_setup where
  "sample_setup = \<lparr>ls_level = 20, ls_formatter = JsonFormatter, ls_filters = [CorrelationFilter, RedactionFilter]\<rparr>"

theorem log_lines_redacted_witness:
  "emit_line sample_setup sample_render (\<lambda>_. []) None ''now'' 20 (sample_log ''A'')
   = emit_line sample_setup sample_render (\<lambda>_. []) None ''now'' 20 (sample_log ''B'')"
proof -
  let ?S = "(default_settings ''dsn'' ''kek'' ''pw'' ''secret'')\<lparr>se_log_format := ''JSON''\<rparr>"
  have c: "configure_logging (Some ?S) = Inr sample_setup" by code_simp
  have e: "log_equiv (sample_log ''A'') (sample_log ''B'')"
    using sample_secret_name by (simp add: log_equiv_def sample_log_def same_args_def same_entry_def hidden_attr_def)
  show ?thesis using log_lines_redacted [OF c e] by blast
qed

end
