(* ===== verification/DbSessions.thy ===== *)
theory DbSessions
  imports Migration
begin

text \<open>
  Connections to the database: the sessions and the probe of \<^verbatim>\<open>db.py\<close>, the reading of the
  revision in \<^verbatim>\<open>startup.py\<close>, and the migration environment \<^verbatim>\<open>alembic/env.py\<close> that runs the
  revision of theory \<open>Migration\<close>. SQLAlchemy's engine and Alembic's context are parameters.
\<close>

section \<open>The engine\<close>

text \<open>
  A connection is entered (which may fail) and left; a session is opened without input or output and
  closed. Leaving and closing may raise as well.
\<close>

record 'w engine_ops =
  eg_connect :: "'w \<Rightarrow> unit res \<times> 'w"
  eg_execute :: "string \<Rightarrow> 'w \<Rightarrow> unit res \<times> 'w"
  eg_release :: "'w \<Rightarrow> unit res \<times> 'w"
  eg_session :: "'w \<Rightarrow> 'w"
  eg_close :: "'w \<Rightarrow> unit res \<times> 'w"
  eg_dispose :: "'w \<Rightarrow> unit res \<times> 'w"

text \<open>The end of an \<^verbatim>\<open>async with\<close> block: an exception of the exit replaces the result.\<close>

definition leaving :: "('w \<Rightarrow> unit res \<times> 'w) \<Rightarrow> 'a res \<times> 'w \<Rightarrow> 'a res \<times> 'w" where
  "leaving exit m =
     (let (r, w) = m; (c, w') = exit w in (case c of Inl e \<Rightarrow> Inl e | Inr _ \<Rightarrow> r, w'))"

definition in_session :: "'w engine_ops \<Rightarrow> ('w \<Rightarrow> 'a res \<times> 'w) \<Rightarrow> 'w \<Rightarrow> 'a res \<times> 'w" where
  "in_session G body w = leaving (eg_close G) (body (eg_session G w))"

definition in_connection :: "'w engine_ops \<Rightarrow> ('w \<Rightarrow> 'a res \<times> 'w) \<Rightarrow> 'w \<Rightarrow> 'a res \<times> 'w" where
  "in_connection G body w =
     (case eg_connect G w of
        (Inl e, w1) \<Rightarrow> (Inl e, w1)
      | (Inr _, w1) \<Rightarrow> leaving (eg_release G) (body w1))"

definition ping :: "'w engine_ops \<Rightarrow> 'w \<Rightarrow> unit res \<times> 'w" where
  "ping G w = in_connection G (eg_execute G ''SELECT 1'') w"

definition dispose :: "'w engine_ops \<Rightarrow> 'w \<Rightarrow> unit res \<times> 'w" where
  "dispose G w = eg_dispose G w"

text \<open>\<^verbatim>\<open>_db_current_revision\<close>; \<open>get_current\<close> is Alembic's reading of its version table.\<close>

definition db_current_revision ::
  "'w engine_ops \<Rightarrow> ('w \<Rightarrow> string option res \<times> 'w) \<Rightarrow> 'w \<Rightarrow> string option res \<times> 'w" where
  "db_current_revision G get_current w = in_connection G get_current w"

text \<open>
  What the engine promises: entering takes one connection or session, leaving gives it back even when
  it raises, and nothing else changes how many are out.
\<close>

definition engine_laws :: "'w engine_ops \<Rightarrow> ('w \<Rightarrow> nat) \<Rightarrow> bool" where
  "engine_laws G used \<longleftrightarrow>
     (\<forall>w. used (snd (eg_connect G w)) = (case fst (eg_connect G w) of Inl _ \<Rightarrow> used w | Inr _ \<Rightarrow> Suc (used w)))
   \<and> (\<forall>w sql. used (snd (eg_execute G sql w)) = used w)
   \<and> (\<forall>w. used (snd (eg_release G w)) = used w - 1)
   \<and> (\<forall>w. used (eg_session G w) = Suc (used w))
   \<and> (\<forall>w. used (snd (eg_close G w)) = used w - 1)"

lemma snd_leaving [simp]: "snd (leaving exit m) = snd (exit (snd m))"
  by (cases m) (simp add: leaving_def split_beta)

lemma in_session_used:
  assumes "engine_laws G used" and "\<And>w. used (snd (body w)) = used w"
  shows "used (snd (in_session G body w)) = used w"
  using assms by (simp add: in_session_def engine_laws_def)

lemma in_connection_used:
  assumes "engine_laws G used" and "\<And>w. used (snd (body w)) = used w"
  shows "used (snd (in_connection G body w)) = used w"
proof -
  have "used (snd (eg_connect G w)) = (case fst (eg_connect G w) of Inl _ \<Rightarrow> used w | Inr _ \<Rightarrow> Suc (used w))"
    using assms(1) unfolding engine_laws_def by blast
  moreover have "used (snd (eg_release G v)) = used v - 1" for v using assms(1) by (simp add: engine_laws_def)
  ultimately show ?thesis
    using assms(2) by (auto simp: in_connection_def split: prod.splits sum.splits)
qed

lemma ping_used: "engine_laws G used \<Longrightarrow> used (snd (ping G w)) = used w"
  unfolding ping_def by (rule in_connection_used) (simp_all add: engine_laws_def)

text \<open>An engine whose world is the number of connections that are out.\<close>

definition counting_engine :: "nat engine_ops" where
  "counting_engine =
     \<lparr>eg_connect = (\<lambda>n. (Inr (), Suc n)), eg_execute = (\<lambda>_. Pair (Inr ())), eg_release = (\<lambda>n. (Inr (), n - 1)),
      eg_session = Suc, eg_close = (\<lambda>n. (Inr (), n - 1)), eg_dispose = Pair (Inr ())\<rparr>"

lemma counting_engine_laws: "engine_laws counting_engine id"
  by (simp add: engine_laws_def counting_engine_def)

section \<open>The migration environment\<close>

definition REVISION :: string where "REVISION = ''0001''"

record migration_options =
  mo_url :: "string option"
  mo_connection :: bool
  mo_literal_binds :: bool
  mo_paramstyle :: "string option"
  mo_compare_type :: bool
  mo_compare_server_default :: bool

record 'w alembic_ops =
  al_offline :: bool
  al_section :: "(string \<times> string) list"
  al_main_url :: "string option"
  al_engine :: "(string \<times> string) list \<Rightarrow> 'w engine_ops"
  al_configure :: "migration_options \<Rightarrow> 'w \<Rightarrow> unit res \<times> 'w"
  al_transaction :: "('w \<Rightarrow> unit res \<times> 'w) \<Rightarrow> 'w \<Rightarrow> unit res \<times> 'w"
  al_run_migrations :: "'w \<Rightarrow> unit res \<times> 'w"

definition engine_section :: "string option \<Rightarrow> (string \<times> string) list \<Rightarrow> (string \<times> string) list" where
  "engine_section dsn section =
     (case dsn of
        None \<Rightarrow> section
      | Some url \<Rightarrow> if url = [] then section else AList.update ''sqlalchemy.url'' url section)"

definition configured_run :: "'w alembic_ops \<Rightarrow> migration_options \<Rightarrow> 'w \<Rightarrow> unit res \<times> 'w" where
  "configured_run A opts w =
     (case al_configure A opts w of
        (Inl e, w1) \<Rightarrow> (Inl e, w1)
      | (Inr _, w1) \<Rightarrow> al_transaction A (al_run_migrations A) w1)"

definition run_migrations_offline :: "'w alembic_ops \<Rightarrow> string option \<Rightarrow> 'w \<Rightarrow> unit res \<times> 'w" where
  "run_migrations_offline A dsn w =
     configured_run A
       \<lparr>mo_url = (case dsn of Some url \<Rightarrow> if url = [] then al_main_url A else Some url | None \<Rightarrow> al_main_url A),
        mo_connection = False, mo_literal_binds = True, mo_paramstyle = Some ''named'',
        mo_compare_type = True, mo_compare_server_default = True\<rparr> w"

definition do_run_migrations :: "'w alembic_ops \<Rightarrow> 'w \<Rightarrow> unit res \<times> 'w" where
  "do_run_migrations A w =
     configured_run A
       \<lparr>mo_url = None, mo_connection = True, mo_literal_binds = False, mo_paramstyle = None,
        mo_compare_type = True, mo_compare_server_default = True\<rparr> w"

text \<open>The engine is disposed of only when the block did not raise.\<close>

definition run_async_migrations :: "'w alembic_ops \<Rightarrow> string option \<Rightarrow> 'w \<Rightarrow> unit res \<times> 'w" where
  "run_async_migrations A dsn w =
     (let G = al_engine A (engine_section dsn (al_section A))
      in case in_connection G (do_run_migrations A) w of
           (Inl e, w1) \<Rightarrow> (Inl e, w1)
         | (Inr _, w1) \<Rightarrow> eg_dispose G w1)"

definition run_env :: "'w alembic_ops \<Rightarrow> string option \<Rightarrow> 'w \<Rightarrow> unit res \<times> 'w" where
  "run_env A dsn w = (if al_offline A then run_migrations_offline A dsn w else run_async_migrations A dsn w)"

section \<open>What a migration leaves\<close>

record schema_db =
  sd_catalog :: catalog
  sd_revision :: "string option"

text \<open>What the command \<^verbatim>\<open>upgrade head\<close> makes of a schema, if it can.\<close>

definition migrated :: "schema_db \<Rightarrow> schema_db option" where
  "migrated s =
     (case sd_revision s of
        None \<Rightarrow> map_option (\<lambda>c. \<lparr>sd_catalog = c, sd_revision = Some REVISION\<rparr>) (run_ddls upgrade (sd_catalog s))
      | Some r \<Rightarrow> if r = REVISION then Some s else None)"

text \<open>
  What Alembic and Postgres promise: the migrations of the command run from the revision that the
  database is stamped with, or raise; a transaction keeps the changes of a body that returns and
  undoes those of one that raises; nothing else touches the schema.
\<close>

definition alembic_laws :: "'w alembic_ops \<Rightarrow> ('w \<Rightarrow> schema_db) \<Rightarrow> bool" where
  "alembic_laws A schema \<longleftrightarrow>
     (\<forall>opts w r w'. al_configure A opts w = (r, w') \<longrightarrow> schema w' = schema w)
   \<and> (\<forall>body w u w'. al_transaction A body w = (Inr u, w') \<longrightarrow> (\<exists>w1. body w = (Inr (), w1) \<and> schema w' = schema w1))
   \<and> (\<forall>body w e w'. al_transaction A body w = (Inl e, w') \<longrightarrow> schema w' = schema w)
   \<and> (\<forall>w u w'. al_run_migrations A w = (Inr u, w') \<longrightarrow> Some (schema w') = migrated (schema w))
   \<and> (\<forall>sect w r w'. eg_connect (al_engine A sect) w = (r, w') \<longrightarrow> schema w' = schema w)
   \<and> (\<forall>sect w r w'. eg_release (al_engine A sect) w = (r, w') \<longrightarrow> schema w' = schema w)
   \<and> (\<forall>sect w r w'. eg_dispose (al_engine A sect) w = (r, w') \<longrightarrow> schema w' = schema w)"

lemma alembic_lawsD:
  assumes "alembic_laws A schema"
  shows "al_configure A opts w = (r, w') \<Longrightarrow> schema w' = schema w"
    "al_transaction A body w = (Inr u, w') \<Longrightarrow> \<exists>w1. body w = (Inr (), w1) \<and> schema w' = schema w1"
    "al_transaction A body w = (Inl e, w') \<Longrightarrow> schema w' = schema w"
    "al_run_migrations A w = (Inr u, w') \<Longrightarrow> Some (schema w') = migrated (schema w)"
    "eg_connect (al_engine A sect) w = (r, w') \<Longrightarrow> schema w' = schema w"
    "eg_release (al_engine A sect) w = (r, w') \<Longrightarrow> schema w' = schema w"
    "eg_dispose (al_engine A sect) w = (r, w') \<Longrightarrow> schema w' = schema w"
proof -
  note l = assms [unfolded alembic_laws_def]
  show "al_configure A opts w = (r, w') \<Longrightarrow> schema w' = schema w"
    by (rule l [THEN conjunct1, rule_format])
  show "al_transaction A body w = (Inr u, w') \<Longrightarrow> \<exists>w1. body w = (Inr (), w1) \<and> schema w' = schema w1"
    by (rule l [THEN conjunct2, THEN conjunct1, rule_format])
  show "al_transaction A body w = (Inl e, w') \<Longrightarrow> schema w' = schema w"
    by (rule l [THEN conjunct2, THEN conjunct2, THEN conjunct1, rule_format])
  show "al_run_migrations A w = (Inr u, w') \<Longrightarrow> Some (schema w') = migrated (schema w)"
    by (rule l [THEN conjunct2, THEN conjunct2, THEN conjunct2, THEN conjunct1, rule_format])
  show "eg_connect (al_engine A sect) w = (r, w') \<Longrightarrow> schema w' = schema w"
    by (rule l [THEN conjunct2, THEN conjunct2, THEN conjunct2, THEN conjunct2, THEN conjunct1, rule_format])
  show "eg_release (al_engine A sect) w = (r, w') \<Longrightarrow> schema w' = schema w"
    by (rule l [THEN conjunct2, THEN conjunct2, THEN conjunct2, THEN conjunct2, THEN conjunct2, THEN conjunct1, rule_format])
  show "eg_dispose (al_engine A sect) w = (r, w') \<Longrightarrow> schema w' = schema w"
    by (rule l [THEN conjunct2, THEN conjunct2, THEN conjunct2, THEN conjunct2, THEN conjunct2, THEN conjunct2, rule_format])
qed

text \<open>The schema of \<open>w'\<close> after a run from \<open>w\<close> that ended with \<open>r\<close>.\<close>

definition all_or_nothing :: "('w \<Rightarrow> schema_db) \<Rightarrow> 'w \<Rightarrow> 'a res \<Rightarrow> 'w \<Rightarrow> bool" where
  "all_or_nothing schema w r w' \<longleftrightarrow>
     (schema w' = schema w \<or> Some (schema w') = migrated (schema w))
     \<and> (\<not> isl r \<longrightarrow> Some (schema w') = migrated (schema w))"

lemma configured_run_schema:
  assumes "alembic_laws A schema" and "configured_run A opts w = (r, w')"
  shows "all_or_nothing schema w r w'"
proof -
  note law = alembic_lawsD [OF assms(1)]
  obtain c w1 where c: "al_configure A opts w = (c, w1)" by fastforce
  note s1 = law(1) [OF c]
  show ?thesis
  proof (cases c)
    case (Inl e)
    then show ?thesis using assms(2) c s1 by (auto simp: configured_run_def all_or_nothing_def)
  next
    case (Inr u)
    then have t: "al_transaction A (al_run_migrations A) w1 = (r, w')" using assms(2) c by (simp add: configured_run_def)
    show ?thesis
    proof (cases r)
      case (Inl e)
      then show ?thesis using law(3) [OF t [unfolded Inl]] s1 by (simp add: all_or_nothing_def)
    next
      case (Inr v)
      obtain w2 where "al_run_migrations A w1 = (Inr (), w2)" "schema w' = schema w2" using law(2) [OF t [unfolded Inr]] by blast
      then show ?thesis using law(4) s1 by (simp add: all_or_nothing_def)
    qed
  qed
qed

lemma in_connection_schema:
  assumes "alembic_laws A schema" and "in_connection (al_engine A sect) (do_run_migrations A) w = (r, w')"
  shows "all_or_nothing schema w r w'"
proof -
  let ?G = "al_engine A sect"
  note law = alembic_lawsD [OF assms(1)]
  obtain c w1 where c: "eg_connect ?G w = (c, w1)" by fastforce
  obtain m w2 where m: "do_run_migrations A w1 = (m, w2)" by fastforce
  obtain x w3 where x: "eg_release ?G w2 = (x, w3)" by fastforce
  have s: "all_or_nothing schema w m w2"
    using configured_run_schema [OF assms(1) m [unfolded do_run_migrations_def]] law(5) [OF c] by (simp add: all_or_nothing_def)
  show ?thesis
  proof (cases c)
    case (Inl e)
    then show ?thesis using assms(2) c law(5) [OF c] by (auto simp: in_connection_def all_or_nothing_def)
  next
    case (Inr u)
    then have "(r, w') = (case x of Inl e \<Rightarrow> Inl e | Inr _ \<Rightarrow> m, w3)"
      using assms(2) c m x by (simp add: in_connection_def leaving_def)
    then show ?thesis using s law(6) [OF x] by (auto simp: all_or_nothing_def split: sum.splits)
  qed
qed

lemma run_env_schema:
  assumes "alembic_laws A schema" and "\<not> al_offline A" and "run_env A dsn w = (r, w')"
  shows "all_or_nothing schema w r w'"
proof -
  let ?G = "al_engine A (engine_section dsn (al_section A))"
  obtain c w1 where c: "in_connection ?G (do_run_migrations A) w = (c, w1)" by fastforce
  obtain x w2 where x: "eg_dispose ?G w1 = (x, w2)" by fastforce
  have "(r, w') = (case c of Inl e \<Rightarrow> (Inl e, w1) | Inr _ \<Rightarrow> (x, w2))"
    using assms(2,3) c x by (auto simp: run_env_def run_async_migrations_def Let_def split: sum.splits)
  then show ?thesis
    using in_connection_schema [OF assms(1) c] alembic_lawsD(7) [OF assms(1) x]
    by (auto simp: all_or_nothing_def split: sum.splits)
qed

section \<open>A sample environment\<close>

text \<open>The world is the schema itself.\<close>

definition sample_engine :: "schema_db engine_ops" where
  "sample_engine =
     \<lparr>eg_connect = Pair (Inr ()), eg_execute = (\<lambda>_. Pair (Inr ())), eg_release = Pair (Inr ()), eg_session = id,
      eg_close = Pair (Inr ()), eg_dispose = Pair (Inr ())\<rparr>"

definition sample_alembic :: "schema_db alembic_ops" where
  "sample_alembic =
     \<lparr>al_offline = False, al_section = [], al_main_url = None, al_engine = (\<lambda>_. sample_engine),
      al_configure = (\<lambda>_. Pair (Inr ())),
      al_transaction = (\<lambda>body w. case body w of (Inr u, w1) \<Rightarrow> (Inr u, w1) | (Inl e, w1) \<Rightarrow> (Inl e, w)),
      al_run_migrations = (\<lambda>w. case migrated w of Some s \<Rightarrow> (Inr (), s) | None \<Rightarrow> (Inl (OtherError ''DuplicateTable''), w))\<rparr>"

lemma sample_alembic_laws: "alembic_laws sample_alembic id"
  by (auto simp: alembic_laws_def sample_alembic_def sample_engine_def split: prod.splits sum.splits option.splits)

end
