(* ===== verification/Spec2Isabelle.thy ===== *)
theory Spec2Isabelle
  imports DispatchLocks Server Serving Supervisor RateLimit AuditLog Correlation Redaction Migration
    KeyLifecycle ApiBackends Main_Process Accounting AppStack LoggingSetup DbSessions
begin

text \<open>
  A verification development of the relay: a process with two planes that share one database and
  one in-memory routing cache. The data plane (\<^verbatim>\<open>src/src/astropath/data_plane\<close>) listens for
  RFC 2136 UPDATE messages signed with TSIG, checks that a message writes exactly one permitted TXT
  record, and calls the provider of the zone (Hurricane Electric or Route 53). The management plane
  (\<^verbatim>\<open>api\<close>) is a FastAPI application with which an administrator edits backends, domains, TSIG
  keys and API tokens. \<^verbatim>\<open>main.py\<close> validates the configuration, loads the cache, runs both planes
  under supervisors and releases every resource.

  \<^bold>\<open>How the code is modelled.\<close> A struct or ORM class is a record with its fields; an operation is a
  function that threads its state and a world of the caller's choice; an exception is the left side of
  a sum, \<^typ>\<open>'a res\<close>. Code that is not in the repository (dnspython, httpx, the AWS SDK,
  cryptography, argon2, SQLAlchemy and Postgres, FastAPI and Starlette, pydantic, asyncio's event loop)
  is a record of functions that the definitions take as an argument; what the code relies on of it is a
  named predicate (\<open>name_laws\<close>, \<open>reply_laws\<close>, \<open>r53_service\<close>, \<open>fernet_laws\<close>, \<open>net_contract\<close>,
  \<open>enforces_schema\<close>, \<open>argon2_laws\<close>, \<open>router_laws\<close>, \<open>session_laws\<close>, \<open>alembic_laws\<close>, ...), each satisfied by a concrete sample on which the witnesses
  evaluate. Strings are Latin-1, Python integers are \<^typ>\<open>int\<close>, floats are \<^typ>\<open>real\<close> (the overflow of a
  power is kept), octets and the 16-bit fields of the wire format are words.

  \<^bold>\<open>Data plane.\<close>
  \<^item> \<open>DnsNames\<close>, \<open>Tsig\<close>: names and the keyring (\<^verbatim>\<open>data_plane/tsig.py\<close>).
  \<^item> \<open>Dispatcher\<close>, \<open>DispatchLocks\<close> (\<^verbatim>\<open>data_plane/dispatcher.py\<close>): routing by longest suffix, the
    write surface, one dispatch with its provider call, metrics and audit; then the interleaving of
    many dispatches under the per-record asyncio locks as a step relation with an invariant.
  \<^item> \<open>Protocol\<close> (\<^verbatim>\<open>data_plane/protocol.py\<close>): wire to wire; nothing unverified is dispatched, and
    every TSIG failure is answered as RFC 8945 wants it.
  \<^item> \<open>Server\<close> (\<^verbatim>\<open>data_plane/server.py\<close>): UDP and TCP, framing, bind, the
    drain (its tasks advance with the rounds of the event loop; what passes the deadline is cancelled
    and gathered) and close.
  \<^item> \<open>ProviderBase\<close>, \<open>HttpRetry\<close>, \<open>Hurricane\<close>, \<open>Route53\<close> (\<^verbatim>\<open>providers\<close>): the registry and the two
    providers; Route 53 refines an abstract map from records to sets of values.
  \<^item> \<open>Observability\<close>, \<open>Correlation\<close>, \<open>Redaction\<close> (\<^verbatim>\<open>observability.py\<close>, \<^verbatim>\<open>correlation.py\<close>,
    \<^verbatim>\<open>logging_config.py\<close>): metrics, correlation ids, and the redaction of log records with its
    regular expressions as terms of a backtracking matcher. \<open>LoggingSetup\<close> (also \<^verbatim>\<open>settings.py\<close>): the
    handler that the settings select, both formatters, and that a line cannot show what a secret name holds.

  \<^bold>\<open>Storage.\<close>
  \<^item> \<open>Models\<close>, \<open>Migration\<close> (\<^verbatim>\<open>models.py\<close>, \<^verbatim>\<open>alembic/versions\<close>): the tables as a record of row
    lists, transactions, and the migration whose constraints are shown to be the schema invariant.
    \<open>DbSessions\<close> (\<^verbatim>\<open>db.py\<close>, \<^verbatim>\<open>alembic/env.py\<close>): connections are given back whatever raises, and the
    environment in which migrations run, offline and online.
  \<^item> \<open>Json\<close>, \<open>Crypto\<close>, \<open>Store\<close>, \<open>Rotation\<close> (\<^verbatim>\<open>crypto.py\<close>, \<^verbatim>\<open>store.py\<close>, \<^verbatim>\<open>rotation.py\<close>): the
    key-encryption key, the encrypted columns with a JSON printer and parser, and rotation.
  \<^item> \<open>Assembly\<close>, \<open>Cache\<close>, \<open>Serving\<close>, \<open>AuditLog\<close> (\<^verbatim>\<open>assembly.py\<close>, \<^verbatim>\<open>cache.py\<close>,
    \<^verbatim>\<open>audit.py\<close>): from rows to providers and routes, the cache that serves the last good snapshot, that
    rotation does not change what is served, and the audit rows.

  \<^bold>\<open>Management plane and process.\<close>
  \<^item> \<open>SlidingWindow\<close>, \<open>RateLimit\<close>, \<open>Supervisor\<close> (\<^verbatim>\<open>api/ratelimit.py\<close>, \<^verbatim>\<open>supervisor.py\<close>): the
    windows of login attempts and of restarts share one theory and its locale.
  \<^item> \<open>ApiBase\<close>, \<open>ApiAuth\<close>, \<open>ApiSchemas\<close>, \<open>ApiCrud\<close>, \<open>ApiApp\<close> (\<^verbatim>\<open>api\<close>): requests, the guard,
    every route handler and the application with its middleware.
  \<^item> \<open>ApiSteps\<close>: every request is a sequence of database steps, hence the invariant; successful changes
    reach the cache. \<open>ApiSecurity\<close>, \<open>ApiTokens\<close>, \<open>ApiBackends\<close>, \<open>KeyLifecycle\<close>: who is rejected,
    what a response may reveal, and the life of passwords, tokens, backends and keys across
    the components.
  \<^item> \<open>ApiRoutes\<close>, \<open>ApiSessions\<close>, \<open>AppStack\<close> (\<^verbatim>\<open>api/app.py\<close>, \<^verbatim>\<open>api/session.py\<close>, \<^verbatim>\<open>main.py\<close>): the
    route table in the order of registration with the catch-all of the web interface, the session cookie
    and its lifetime, the middleware around the routes (an unhandled exception leaves outside it, without
    a correlation id), the embedded server, signals and clients.
  \<^item> \<open>Startup\<close>, \<open>Main_Process\<close> (\<^verbatim>\<open>startup.py\<close>, \<^verbatim>\<open>main.py\<close>): the startup checks, the order in
    which resources are acquired and released, the exit codes.
  \<^item> \<open>RunningSystem\<close>: both planes over the database and the cache they share, as a step relation whose
    steps are whole requests, dispatches, rotations and restarts; the invariant of every run.
    \<open>Accounting\<close>: one process from wire to wire with a log of the provider's invocations; its metrics and audit
    events refine the ledger of the invocations that were answered.

  \<^bold>\<open>Interfaces.\<close> The locales state what one component promises another: the sliding window, the audit
  sink, the routing source, the dispatcher as the protocol calls it, and the task lock; each is interpreted on the code's own
  definitions in the theory that has them.

  \<^bold>\<open>Bounds.\<close> Recursions that are not structural have a termination proof; where a loop has a bound
  argument (the walk to parent zones, the retry and INSYNC loops, the JSON parser, the supervisor) a
  theorem shows that the bound which the model uses is enough. Only \<open>supervise\<close> keeps an explicit bound in
  its statement: the number of crashes that the budget allows. \<open>gather_tasks\<close>, which waits without a deadline for cancelled
  tasks, has None for waiting for ever, and is shown to return when every task honours its cancellation.

  \<^bold>\<open>Not modelled.\<close> How pydantic-settings reads the environment, how SQLAlchemy, httpx, the SDK, uvicorn and
  Starlette work inside (they are parameters, and what is configured of them is a record), the exposition format of metrics and the
  OpenAPI document, the log lines that components write, and the TypeScript web interface. The
  accessors of \<^verbatim>\<open>api/deps.py\<close> are the fields of the application's resources. A SELECT without an
  order returns the rows in the order of their insertion. The loader reads all tables at once, which is what its lock and its
  single session give it up to the isolation level of the database.
\<close>

end
